(* ===== verification/Prelude.thy ===== *)
theory Prelude
  imports Main "HOL-Library.Word"
begin

text \<open>
  The shared vocabulary of the development: bytes and byte strings, the result type
  of fallible Go functions, Go's wrapping \<^verbatim>\<open>int64\<close> arithmetic, and the generic list,
  map and word lemmas the components rely on.

  Go's \<^verbatim>\<open>(T, error)\<close> becomes a sum whose left side is the error text. A Go string is a
  sequence of bytes, hence an Isabelle \<^typ>\<open>string\<close>; a \<^verbatim>\<open>[]byte\<close> is a list of 8-bit words.
\<close>

unbundle bit_operations_syntax

named_theorems go_string_simps \<open>evaluation of the Go string library\<close>
named_theorems codec_simps \<open>lengths and round trips of the encoders\<close>
named_theorems net_simps \<open>addresses, masks and networks\<close>
named_theorems svc_defs \<open>definitions of the service operations\<close>
named_theorems row_simps \<open>selection and update of session rows\<close>

section \<open>Bytes, errors and results\<close>

type_synonym byte = "8 word"
type_synonym bytes = "byte list"
type_synonym gerror = string
type_synonym 'a result = "gerror + 'a"

text \<open>A command that only succeeds or fails returns \<^typ>\<open>unit result\<close>.\<close>

abbreviation ok :: "unit result" where
  "ok \<equiv> Inr ()"

definition is_ok :: "'e + 'a \<Rightarrow> bool" where
  "is_ok r = (case r of Inl _ \<Rightarrow> False | Inr _ \<Rightarrow> True)"

lemma is_ok_simps [simp]:
  "is_ok (Inr a)" "\<not> is_ok (Inl e)"
  by (simp_all add: is_ok_def)

lemma is_ok_iff: "is_ok r \<longleftrightarrow> (\<exists>a. r = Inr a)"
  by (cases r) auto

definition rbind :: "'e + 'a \<Rightarrow> ('a \<Rightarrow> 'e + 'b) \<Rightarrow> 'e + 'b" where
  "rbind r f = (case r of Inl e \<Rightarrow> Inl e | Inr a \<Rightarrow> f a)"

lemma rbind_simps [simp]:
  "rbind (Inl e) f = Inl e" "rbind (Inr a) f = f a"
  by (simp_all add: rbind_def)

lemma rbind_eq_Inr_iff: "rbind r f = Inr b \<longleftrightarrow> (\<exists>a. r = Inr a \<and> f a = Inr b)"
  by (cases r) auto

lemma rbind_is_ok_iff: "is_ok (rbind r f) \<longleftrightarrow> (\<exists>a. r = Inr a \<and> is_ok (f a))"
  by (cases r) auto

text \<open>The first failing check decides; the shape of every \<^verbatim>\<open>Validate\<close> method.\<close>

fun first_error :: "(bool \<times> gerror) list \<Rightarrow> unit result" where
  "first_error [] = ok"
| "first_error ((bad, msg) # cs) = (if bad then Inl msg else first_error cs)"

lemma first_error_ok_iff: "first_error cs = ok \<longleftrightarrow> (\<forall>c \<in> set cs. \<not> fst c)"
  by (induction cs rule: first_error.induct) auto

lemma first_error_is_ok_iff: "is_ok (first_error cs) \<longleftrightarrow> (\<forall>c \<in> set cs. \<not> fst c)"
  by (induction cs rule: first_error.induct) auto

section \<open>Machine integers\<close>

text \<open>Go's \<^verbatim>\<open>int64\<close>: a mathematical integer brought back into range after each operation.\<close>

definition i64 :: "int \<Rightarrow> int" where
  "i64 x = (x + 2 ^ 63) mod 2 ^ 64 - 2 ^ 63"

abbreviation i64_min :: int where
  "i64_min \<equiv> - (2 ^ 63)"

abbreviation i64_max :: int where
  "i64_max \<equiv> 2 ^ 63 - 1"

definition in_i64 :: "int \<Rightarrow> bool" where
  "in_i64 x \<longleftrightarrow> i64_min \<le> x \<and> x \<le> i64_max"

lemma i64_id: "in_i64 x \<Longrightarrow> i64 x = x"
  by (simp add: in_i64_def i64_def)

lemma in_i64_i64 [simp]: "in_i64 (i64 x)"
  using pos_mod_bound [of "2 ^ 64" "x + 2 ^ 63"] pos_mod_sign [of "2 ^ 64" "x + 2 ^ 63"]
  by (auto simp: in_i64_def i64_def)

lemma i64_idem [simp]: "i64 (i64 x) = i64 x"
  by (simp add: i64_id)

lemma i64_add_left [simp]: "i64 (i64 x + y) = i64 (x + y)"
proof -
  have "(x + 2 ^ 63) mod 2 ^ 64 - 2 ^ 63 + y + 2 ^ 63 = (x + 2 ^ 63) mod 2 ^ 64 + (y :: int)"
    by simp
  then show ?thesis
    unfolding i64_def using mod_add_left_eq [of "x + 2 ^ 63" "2 ^ 64" y]
    by (simp add: algebra_simps)
qed

lemma i64_add_right [simp]: "i64 (x + i64 y) = i64 (x + y)"
  using i64_add_left [of y x] by (simp add: add.commute)

lemma i64_range: "i64_min \<le> i64 x" "i64 x \<le> i64_max"
  using in_i64_i64 [of x] by (auto simp: in_i64_def)

lemma unat_byte_less: "unat (b :: byte) < 256"
  using unsigned_less [where ?'a = nat, of b] by simp

lemma unat_byte_le: "unat (b :: byte) \<le> 255"
  using unat_byte_less [of b] by linarith

lemma unat_of_nat_byte: "unat (of_nat n :: byte) = n mod 256"
  by (simp add: unat_of_nat)

lemma byte_of_nat_unat [simp]: "(of_nat (unat b) :: byte) = b"
  by simp

lemma byte_eq_iff_unat: "(a :: byte) = b \<longleftrightarrow> unat a = unat b"
  by (simp add: word_unat_eq_iff)

section \<open>Lists\<close>

lemma sum_list_mono_all:
  fixes f g :: "'a \<Rightarrow> 'b::ordered_comm_monoid_add"
  assumes "\<And>x. x \<in> set xs \<Longrightarrow> f x \<le> g x"
  shows "(\<Sum>x\<leftarrow>xs. f x) \<le> (\<Sum>x\<leftarrow>xs. g x)"
  using assms by (induction xs) (auto intro: add_mono)

lemma distinct_map_filter': "distinct (map f xs) \<Longrightarrow> distinct (map f (filter P xs))"
  by (induction xs) auto

lemma distinct_map_unique:
  "distinct (map f xs) \<Longrightarrow> x \<in> set xs \<Longrightarrow> y \<in> set xs \<Longrightarrow> f x = f y \<Longrightarrow> x = y"
  by (auto simp: distinct_map inj_on_def)

text \<open>A stateful loop that visits every element, threading the state: Go's
  \<^verbatim>\<open>for _, x := range xs\<close> with a body that never leaves the loop.\<close>

primrec for_each :: "('a \<Rightarrow> 's \<Rightarrow> 's) \<Rightarrow> 'a list \<Rightarrow> 's \<Rightarrow> 's" where
  "for_each f [] s = s"
| "for_each f (x # xs) s = for_each f xs (f x s)"

text \<open>The same loop with a body that may return early with an error; the state reached
  so far is kept.\<close>

primrec for_each_err :: "('a \<Rightarrow> 's \<Rightarrow> ('e + unit) \<times> 's) \<Rightarrow> 'a list \<Rightarrow> 's \<Rightarrow> ('e + unit) \<times> 's" where
  "for_each_err f [] s = (Inr (), s)"
| "for_each_err f (x # xs) s =
    (case f x s of (Inl e, s') \<Rightarrow> (Inl e, s') | (Inr _, s') \<Rightarrow> for_each_err f xs s')"

lemma for_each_invariant:
  assumes "P s" and "\<And>x s. x \<in> set xs \<Longrightarrow> P s \<Longrightarrow> P (f x s)"
  shows "P (for_each f xs s)"
  using assms by (induction xs arbitrary: s) auto

lemma for_each_append: "for_each f (xs @ ys) s = for_each f ys (for_each f xs s)"
  by (induction xs arbitrary: s) auto

lemma for_each_err_invariant:
  assumes "P s" and "\<And>x s. x \<in> set xs \<Longrightarrow> P s \<Longrightarrow> P (snd (f x s))"
  shows "P (snd (for_each_err f xs s))"
  using assms
proof (induction xs arbitrary: s)
  case (Cons x xs)
  obtain r s' where fx: "f x s = (r, s')" by fastforce
  with Cons.prems(2) [of x s] Cons.prems(1) have "P s'" by simp
  with Cons.IH [of s'] Cons.prems(2) fx show ?case by (cases r) auto
qed simp

lemma for_each_err_ok_iff:
  "fst (for_each_err f (x # xs) s) = Inr () \<longleftrightarrow>
    fst (f x s) = Inr () \<and> fst (for_each_err f xs (snd (f x s))) = Inr ()"
  by (auto split: prod.splits sum.splits)

section \<open>Maps\<close>

lemma dom_map_upd_None [simp]: "dom (m(k := None)) = dom m - {k}"
  by auto

lemma card_dom_insert:
  "finite (dom m) \<Longrightarrow> k \<notin> dom m \<Longrightarrow> card (dom (m(k \<mapsto> v))) = Suc (card (dom m))"
  by simp

lemma not_subset_card: "finite A \<Longrightarrow> card A < card B \<Longrightarrow> \<not> B \<subseteq> A"
  by (meson card_mono not_le)

lemma card_insert_le_Suc: "card (insert x A) \<le> Suc (card A)"
  by (cases "finite A") (auto simp: card_insert_if)

end
