(* ===== verification/Codec.thy ===== *)
theory Codec
  imports Go_Strings
begin

text \<open>
  The byte encoders of the wire formats and the key material: Go's standard base64 and hex,
  big-endian integers, and on top of them the code of \<^verbatim>\<open>services/common/uuid.go\<close>,
  \<^verbatim>\<open>services/common/tlspin.go\<close> and the OpenVPN static key file of \<^verbatim>\<open>services/openvpn/pki.go\<close>.
\<close>

section \<open>Base64\<close>

definition b64_char :: "nat \<Rightarrow> char" where
  "b64_char k =
    (if k < 26 then char_of (65 + k)
     else if k < 52 then char_of (71 + k)
     else if k < 62 then char_of (k - 4)
     else if k = 62 then CHR ''+'' else CHR ''/'')"

definition b64_val :: "char \<Rightarrow> nat option" where
  "b64_val c =
    (let n = of_char c in
     if 65 \<le> n \<and> n \<le> 90 then Some (n - 65)
     else if 97 \<le> n \<and> n \<le> 122 then Some (n - 71)
     else if 48 \<le> n \<and> n \<le> 57 then Some (n + 4)
     else if c = CHR ''+'' then Some 62
     else if c = CHR ''/'' then Some 63
     else None)"

text \<open>\<^verbatim>\<open>base64.StdEncoding.EncodeToString\<close>.\<close>

fun b64_encode :: "bytes \<Rightarrow> string" where
  "b64_encode [] = []"
| "b64_encode [a] =
    (let n = unat a * 16 in [b64_char (n div 64), b64_char (n mod 64), CHR ''='', CHR ''=''])"
| "b64_encode [a, b] =
    (let n = (unat a * 256 + unat b) * 4 in
     [b64_char (n div 64 div 64), b64_char (n div 64 mod 64), b64_char (n mod 64), CHR ''=''])"
| "b64_encode (a # b # c # rest) =
    (let n = (unat a * 256 + unat b) * 256 + unat c in
     b64_char (n div 64 div 64 div 64) # b64_char (n div 64 div 64 mod 64) #
     b64_char (n div 64 mod 64) # b64_char (n mod 64) # b64_encode rest)"

text \<open>
  \<^verbatim>\<open>base64.StdEncoding.DecodeString\<close>: line ends are skipped wherever they stand; what is left
  is read in quanta of four characters; padding is accepted only at the very end, and the bits
  a padded quantum leaves over are ignored (the encoding is not strict).
\<close>

fun b64_quanta :: "string \<Rightarrow> bytes option" where
  "b64_quanta [] = Some []"
| "b64_quanta (p # q # r # s # rest) =
    (case (b64_val p, b64_val q) of
       (Some x, Some y) \<Rightarrow>
         (case b64_val r of
            None \<Rightarrow>
              if r = CHR ''='' \<and> s = CHR ''='' \<and> rest = []
              then Some [of_nat ((x * 64 + y) div 16)] else None
          | Some z \<Rightarrow>
              (case b64_val s of
                 None \<Rightarrow>
                   if s = CHR ''='' \<and> rest = []
                   then (let n = ((x * 64 + y) * 64 + z) div 4 in
                         Some [of_nat (n div 256), of_nat (n mod 256)]) else None
               | Some w \<Rightarrow>
                   (let n = ((x * 64 + y) * 64 + z) * 64 + w in
                    map_option (\<lambda>bs. of_nat (n div 256 div 256) # of_nat (n div 256 mod 256) #
                                      of_nat (n mod 256) # bs) (b64_quanta rest))))
     | _ \<Rightarrow> None)"
| "b64_quanta _ = None"

definition b64_decode :: "string \<Rightarrow> bytes option" where
  "b64_decode s = b64_quanta (filter (\<lambda>c. c \<noteq> CHR 0x0A \<and> c \<noteq> CHR 0x0D) s)"

section \<open>Hexadecimal\<close>

definition hex_char :: "nat \<Rightarrow> char" where
  "hex_char k = (if k < 10 then char_of (48 + k) else char_of (87 + k))"

definition hex_val :: "char \<Rightarrow> nat option" where
  "hex_val c =
    (let n = of_char c in
     if 48 \<le> n \<and> n \<le> 57 then Some (n - 48)
     else if 97 \<le> n \<and> n \<le> 102 then Some (n - 87)
     else if 65 \<le> n \<and> n \<le> 70 then Some (n - 55)
     else None)"

primrec hex_encode :: "bytes \<Rightarrow> string" where
  "hex_encode [] = []"
| "hex_encode (b # bs) = hex_char (unat b div 16) # hex_char (unat b mod 16) # hex_encode bs"

fun hex_decode :: "string \<Rightarrow> bytes option" where
  "hex_decode [] = Some []"
| "hex_decode (h # l # rest) =
    (case (hex_val h, hex_val l, hex_decode rest) of
       (Some x, Some y, Some bs) \<Rightarrow> Some (of_nat (16 * x + y) # bs)
     | _ \<Rightarrow> None)"
| "hex_decode [_] = None"

section \<open>Big-endian integers\<close>

text \<open>\<^verbatim>\<open>big.Int.SetBytes\<close>, and \<^verbatim>\<open>binary.BigEndian.PutUint\<close> of a given width.\<close>

primrec big_of_bytes :: "bytes \<Rightarrow> nat" where
  "big_of_bytes [] = 0"
| "big_of_bytes (b # bs) = unat b * 256 ^ length bs + big_of_bytes bs"

primrec be_bytes :: "nat \<Rightarrow> nat \<Rightarrow> bytes" where
  "be_bytes 0 n = []"
| "be_bytes (Suc k) n = of_nat (n div 256 ^ k) # be_bytes k n"

text \<open>\<^verbatim>\<open>big.Int.Bytes\<close>: big-endian without leading zero bytes.\<close>

fun bytes_of_big :: "nat \<Rightarrow> bytes" where
  "bytes_of_big n = (if n = 0 then [] else bytes_of_big (n div 256) @ [of_nat (n mod 256)])"

declare bytes_of_big.simps [simp del]

text \<open>Go's \<^verbatim>\<open>copy(dst, src)\<close>: overwrites a prefix, never changes the length.\<close>

definition go_copy :: "'a list \<Rightarrow> 'a list \<Rightarrow> 'a list" where
  "go_copy dst src = take (length dst) src @ drop (length src) dst"

section \<open>UUIDs and certificate pins\<close>

text \<open>The bytes of a Go string.\<close>

definition bytes_of_string :: "string \<Rightarrow> bytes" where
  "bytes_of_string s = map (\<lambda>c. of_nat (of_char c)) s"

definition string_of_bytes :: "bytes \<Rightarrow> string" where
  "string_of_bytes bs = map (\<lambda>b. char_of (unat b)) bs"

definition UUIDLen :: nat where
  "UUIDLen = 16"

definition FormatUUID :: "bytes \<Rightarrow> string" where
  "FormatUUID u =
    (let h = hex_encode u in
     take 8 h @ ''-'' @ take 4 (drop 8 h) @ ''-'' @ take 4 (drop 12 h) @ ''-'' @
     take 4 (drop 16 h) @ ''-'' @ take 12 (drop 20 h))"

definition ParseUUID :: "string \<Rightarrow> bytes result" where
  "ParseUUID s =
    (let parts = split_on (CHR ''-'') s in
     if map length parts \<noteq> [8, 4, 4, 4, 12] then Inl ''invalid uuid''
     else case hex_decode (join [] parts) of
            None \<Rightarrow> Inl ''invalid uuid''
          | Some decoded \<Rightarrow> Inr (go_copy (replicate UUIDLen 0) decoded))"

fun colon_pairs :: "string \<Rightarrow> string list" where
  "colon_pairs (a # b # rest) = [a, b] # colon_pairs rest"
| "colon_pairs _ = []"

definition ColonPin :: "string \<Rightarrow> string" where
  "ColonPin pin = join '':'' (colon_pairs pin)"

section \<open>The OpenVPN static key file\<close>

definition tlsCryptKeyLen :: nat where
  "tlsCryptKeyLen = 256"

text \<open>The hex text in lines of 32 characters; a remainder would be an index panic in the code,
  hence the \<^const>\<open>None\<close>.\<close>

function key_lines :: "string \<Rightarrow> string list option" where
  "key_lines h =
    (if h = [] then Some []
     else if length h < 32 then None
     else map_option ((#) (take 32 h)) (key_lines (drop 32 h)))"
  by auto

termination
  by (relation "measure length") auto

declare key_lines.simps [simp del]

definition staticKeyFile :: "bytes \<Rightarrow> string option" where
  "staticKeyFile key =
    map_option
      (\<lambda>ls. concat (map (\<lambda>l. l @ [CHR 0x0A])
        ([''#'', ''# 2048 bit OpenVPN static key'', ''#'',
          ''-----BEGIN OpenVPN Static key V1-----''] @ ls @
         [''-----END OpenVPN Static key V1-----''])))
      (key_lines (hex_encode key))"

fun static_key_scan :: "bool \<Rightarrow> string list \<Rightarrow> string" where
  "static_key_scan inside [] = []"
| "static_key_scan inside (l # ls) =
    (let line = trim_space l in
     if has_prefix line ''-----BEGIN'' then static_key_scan True ls
     else if has_prefix line ''-----END'' then static_key_scan False ls
     else if inside \<and> line \<noteq> [] \<and> \<not> has_prefix line ''#'' then line @ static_key_scan inside ls
     else static_key_scan inside ls)"

definition parseStaticKeyFile :: "string \<Rightarrow> bytes result" where
  "parseStaticKeyFile data =
    (case hex_decode (static_key_scan False (split_on (CHR 0x0A) data)) of
       None \<Rightarrow> Inl ''tc.key is not a 2048 bit OpenVPN static key''
     | Some key \<Rightarrow>
         if length key \<noteq> tlsCryptKeyLen then Inl ''tc.key is not a 2048 bit OpenVPN static key''
         else Inr key)"

section \<open>Lemmas\<close>

lemma char_of_eq_iff_nat: "n < 256 \<Longrightarrow> char_of n = c \<longleftrightarrow> n = (of_char c :: nat)"
  by auto

lemma b64_val_char [simp]: "k < 64 \<Longrightarrow> b64_val (b64_char k) = Some k"
proof -
  assume "k < 64"
  then consider "k < 26" | "26 \<le> k" "k < 52" | "52 \<le> k" "k < 62" | "k = 62" | "k = 63"
    by linarith
  then show ?thesis
    by cases (auto simp: b64_char_def b64_val_def Let_def)
qed

lemma b64_char_no_newline [simp]: "b64_char k \<noteq> CHR 0x0A" "b64_char k \<noteq> CHR 0x0D"
  by (auto simp: b64_char_def char_of_eq_iff_nat)

lemma b64_val_pad [simp]: "b64_val (CHR ''='') = None"
  by (simp add: b64_val_def)

lemma byte_bounds:
  "unat (a :: byte) * 16 < 4096"
  "(unat (a :: byte) * 256 + unat (b :: byte)) * 4 < 262144"
  "(unat (a :: byte) * 256 + unat (b :: byte)) * 256 + unat (c :: byte) < 16777216"
  using unat_byte_less [of a] unat_byte_less [of b] unat_byte_less [of c] by simp_all

lemma sextet_bounds:
  "n < 4096 \<Longrightarrow> n div 64 < (64 :: nat)"
  "n < 262144 \<Longrightarrow> n div 64 div 64 < (64 :: nat)"
  "n < 16777216 \<Longrightarrow> n div 64 div 64 div 64 < (64 :: nat)"
  by (simp_all add: div_mult2_eq [symmetric] less_mult_imp_div_less)

lemma b64_encode_clean: "c \<in> set (b64_encode bs) \<Longrightarrow> c \<noteq> CHR 0x0A \<and> c \<noteq> CHR 0x0D"
  by (induction bs rule: b64_encode.induct) (auto simp: Let_def simp del: div_mult_self1)

lemma octets:
  "(x * 256 + unat (b :: byte)) div 256 = x" "(x * 256 + unat b) mod 256 = unat b"
  using unat_byte_less [of b] by simp_all

lemma sextets:
  "((n div 64 div 64 div 64 * 64 + n div 64 div 64 mod 64) * 64 + n div 64 mod 64) * 64 + n mod 64 = (n :: nat)"
  "(n div 64 div 64 * 64 + n div 64 mod 64) * 64 + n mod 64 = n"
  "n div 64 * 64 + n mod 64 = n"
  by simp_all

lemma b64_quantum:
  "n < 4096 \<Longrightarrow>
    b64_quanta [b64_char (n div 64), b64_char (n mod 64), CHR ''='', CHR ''=''] =
      Some [of_nat (n div 16)]"
  "n < 262144 \<Longrightarrow>
    b64_quanta [b64_char (n div 64 div 64), b64_char (n div 64 mod 64), b64_char (n mod 64), CHR ''=''] =
      Some [of_nat (n div 4 div 256), of_nat (n div 4 mod 256)]"
  "n < 16777216 \<Longrightarrow>
    b64_quanta (b64_char (n div 64 div 64 div 64) # b64_char (n div 64 div 64 mod 64) #
        b64_char (n div 64 mod 64) # b64_char (n mod 64) # rest) =
      map_option (\<lambda>bs. of_nat (n div 256 div 256) # of_nat (n div 256 mod 256) # of_nat (n mod 256) # bs)
        (b64_quanta rest)"
  by (simp_all only: b64_quanta.simps b64_val_char sextet_bounds mod_less_divisor zero_less_numeral
      option.case prod.case b64_val_pad simp_thms if_True Let_def sextets)

lemma b64_quanta_encode: "b64_quanta (b64_encode bs) = Some bs"
proof (induction bs rule: b64_encode.induct)
  case (2 a)
  show ?case
    unfolding b64_encode.simps Let_def b64_quantum(1) [OF byte_bounds(1)] by simp
next
  case (3 a b)
  show ?case
    unfolding b64_encode.simps Let_def b64_quantum(2) [OF byte_bounds(2)]
    using octets [of "unat a" b] by simp
next
  case (4 a b c rest)
  then show ?case
    unfolding b64_encode.simps Let_def b64_quantum(3) [OF byte_bounds(3)] octets by simp
qed simp

lemma b64_decode_encode [simp, codec_simps]: "b64_decode (b64_encode bs) = Some bs"
proof -
  have "filter (\<lambda>c. c \<noteq> CHR 0x0A \<and> c \<noteq> CHR 0x0D) (b64_encode bs) = b64_encode bs"
    using b64_encode_clean by (intro filter_True) blast
  then show ?thesis by (simp add: b64_decode_def b64_quanta_encode)
qed

lemma b64_encode_inj [simp]: "b64_encode a = b64_encode b \<longleftrightarrow> a = b"
  by (metis b64_decode_encode option.inject)

lemma b64_encode_empty_iff [simp]: "b64_encode a = [] \<longleftrightarrow> a = []"
  by (metis b64_encode.simps(1) b64_encode_inj)

subsection \<open>Hexadecimal and integers\<close>

lemma hex_val_char [simp]: "k < 16 \<Longrightarrow> hex_val (hex_char k) = Some k"
  by (cases "k < 10") (simp_all add: hex_char_def hex_val_def Let_def)

lemma hex_decode_encode [simp, codec_simps]: "hex_decode (hex_encode bs) = Some bs"
proof (induction bs)
  case (Cons b bs)
  have "unat b div 16 < 16" using unat_byte_less [of b] by (simp add: less_mult_imp_div_less)
  with Cons show ?case by simp
qed simp

lemma length_hex_encode [simp, codec_simps]: "length (hex_encode bs) = 2 * length bs"
  by (induction bs) auto

lemma hex_char_not [simp]:
  "k < 16 \<Longrightarrow> hex_char k \<noteq> CHR ''-''" "k < 16 \<Longrightarrow> hex_char k \<noteq> CHR ''#''"
  "k < 16 \<Longrightarrow> hex_char k \<noteq> CHR 0x0A" "k < 16 \<Longrightarrow> \<not> is_space (hex_char k)"
  by (auto simp: hex_char_def char_of_eq_iff_nat is_space_def)

lemma hex_encode_chars: "c \<in> set (hex_encode bs) \<Longrightarrow> \<exists>k < 16. c = hex_char k"
proof (induction bs)
  case (Cons b bs)
  have "unat b div 16 < 16" using unat_byte_less [of b] by (simp add: less_mult_imp_div_less)
  moreover have "unat b mod 16 < 16" by simp
  ultimately show ?case using Cons by (metis hex_encode.simps(2) set_ConsD)
qed simp

lemma length_be_bytes [simp, codec_simps]: "length (be_bytes k n) = k"
  by (induction k) auto

lemma big_of_bytes_less: "big_of_bytes bs < 256 ^ length bs"
proof (induction bs)
  case (Cons b bs)
  have "unat b * 256 ^ length bs + big_of_bytes bs < (unat b + 1) * 256 ^ length bs"
    using Cons by simp
  also have "\<dots> \<le> 256 * 256 ^ length bs"
    using unat_byte_less [of b] by (intro mult_right_mono) auto
  finally show ?case by simp
qed simp

lemma big_of_be_bytes: "big_of_bytes (be_bytes k n) = n mod 256 ^ k"
proof (induction k)
  case (Suc k)
  have "n mod 256 ^ Suc k = 256 ^ k * (n div 256 ^ k mod 256) + n mod 256 ^ k"
    using mod_mult2_eq [of n "256 ^ k" 256] by (simp add: mult.commute)
  with Suc show ?case by (simp add: unat_of_nat_byte mult.commute)
qed simp

lemma big_of_be_bytes_id [codec_simps]: "n < 256 ^ k \<Longrightarrow> big_of_bytes (be_bytes k n) = n"
  by (simp add: big_of_be_bytes)

lemma big_of_bytes_inj:
  "length a = length b \<Longrightarrow> big_of_bytes a = big_of_bytes b \<Longrightarrow> a = b"
proof (induction a b rule: list_induct2')
  case (4 x xs y ys)
  let ?m = "256 ^ length xs"
  have len: "length xs = length ys" using 4 by simp
  have "big_of_bytes (x # xs) div ?m = unat x" "big_of_bytes (y # ys) div ?m = unat y"
    using big_of_bytes_less [of xs] big_of_bytes_less [of ys] len by simp_all
  then have "unat x = unat y" using "4.prems"(2) by metis
  then have "x = y" by (simp add: byte_eq_iff_unat)
  with 4 len show ?case by simp
qed auto

lemma big_of_bytes_append: "big_of_bytes (a @ b) = big_of_bytes a * 256 ^ length b + big_of_bytes b"
  by (induction a) (auto simp: power_add algebra_simps)

lemma big_of_bytes_of_big [simp]: "big_of_bytes (bytes_of_big n) = n"
proof (induction n rule: bytes_of_big.induct)
  case (1 n)
  then show ?case
    by (subst bytes_of_big.simps) (simp add: big_of_bytes_append unat_of_nat_byte)
qed

lemma length_bytes_of_big_le: "n < 256 ^ k \<Longrightarrow> length (bytes_of_big n) \<le> k"
proof (induction k arbitrary: n)
  case (Suc k)
  have "n div 256 < 256 ^ k" using Suc.prems by (simp add: less_mult_imp_div_less mult.commute)
  with Suc.IH show ?case by (subst bytes_of_big.simps) simp
qed (simp add: bytes_of_big.simps)

lemma length_bytes_of_big_ge:
  assumes "256 ^ k \<le> n" shows "Suc k \<le> length (bytes_of_big n)"
proof (rule ccontr)
  assume "\<not> Suc k \<le> length (bytes_of_big n)"
  then have "(256 :: nat) ^ length (bytes_of_big n) \<le> 256 ^ k" by (intro power_increasing) auto
  with assms big_of_bytes_less [of "bytes_of_big n"] show False by simp
qed

lemma length_go_copy [simp]: "length (go_copy dst src) = length dst"
  by (simp add: go_copy_def)

lemma go_copy_exact: "length src = length dst \<Longrightarrow> go_copy dst src = src"
  by (simp add: go_copy_def)

subsection \<open>UUIDs and pins\<close>

lemma hex_encode_no_char:
  "CHR ''-'' \<notin> set (hex_encode bs)" "CHR 0x0A \<notin> set (hex_encode bs)"
  using hex_encode_chars by (metis hex_char_not(1), metis hex_char_not(3))

lemma hex_encode_no_colon: "CHR '':'' \<notin> set (hex_encode bs)"
proof
  assume "CHR '':'' \<in> set (hex_encode bs)"
  then obtain k where "k < 16" "hex_char k = CHR '':''" using hex_encode_chars by metis
  then show False by (auto simp: hex_char_def char_of_eq_iff_nat split: if_splits)
qed

lemma take_drop_step: "take b (drop a h) @ drop (a + b) h = drop a h"
  by (metis append_take_drop_id drop_drop add.commute)

lemma FormatUUID_parts:
  assumes "length u = 16"
  shows "\<exists>ps. split_on (CHR ''-'') (FormatUUID u) = ps \<and> map length ps = [8, 4, 4, 4, 12] \<and>
    join [] ps = hex_encode u"
proof -
  let ?h = "hex_encode u"
  let ?ps = "[take 8 ?h, take 4 (drop 8 ?h), take 4 (drop 12 ?h), take 4 (drop 16 ?h), take 12 (drop 20 ?h)]"
  have "FormatUUID u = join ''-'' ?ps" by (simp add: FormatUUID_def Let_def)
  moreover have "\<forall>p \<in> set ?ps. CHR ''-'' \<notin> set p"
    using hex_encode_no_char(1) [of u] by (auto dest: in_set_takeD in_set_dropD)
  ultimately have "split_on (CHR ''-'') (FormatUUID u) = ?ps" by (simp add: split_join del: join.simps)
  moreover have "join [] ?ps = ?h"
    using assms take_drop_step [of 8 0 ?h] take_drop_step [of 4 8 ?h] take_drop_step [of 4 12 ?h]
      take_drop_step [of 4 16 ?h] by simp
  ultimately show ?thesis using assms by simp
qed

text \<open>The textual form of a UUID is read back exactly, so the session key a proxy service derives from
  a peer's UUID names that peer alone.\<close>

lemma uuid_round_trip:
  assumes "length u = UUIDLen"
  shows "ParseUUID (FormatUUID u) = Inr u"
proof -
  obtain ps where "split_on (CHR ''-'') (FormatUUID u) = ps" "map length ps = [8, 4, 4, 4, 12]"
    "join [] ps = hex_encode u"
    using FormatUUID_parts assms by (auto simp: UUIDLen_def)
  with assms show ?thesis by (simp add: ParseUUID_def Let_def go_copy_exact)
qed

lemma colon_pairs_hex: "colon_pairs (hex_encode bs) = map (\<lambda>b. hex_encode [b]) bs"
  by (induction bs) auto

lemma ColonPin_split:
  assumes "bs \<noteq> []"
  shows "split_on (CHR '':'') (ColonPin (hex_encode bs)) = map (\<lambda>b. hex_encode [b]) bs"
  unfolding ColonPin_def colon_pairs_hex
  using assms by (intro split_join) (auto simp del: hex_encode.simps simp: hex_encode_no_colon)

subsection \<open>The static key file\<close>

lemma key_lines_spec:
  "length h = 32 * n \<Longrightarrow>
    \<exists>ls. key_lines h = Some ls \<and> concat ls = h \<and> (\<forall>l \<in> set ls. length l = 32)"
proof (induction n arbitrary: h)
  case (Suc n)
  then obtain ls where "key_lines (drop 32 h) = Some ls" "concat ls = drop 32 h"
      "\<forall>l \<in> set ls. length l = 32"
    using Suc.IH [of "drop 32 h"] by fastforce
  with Suc.prems show ?case by (subst key_lines.simps) auto
qed (simp add: key_lines.simps)

lemma split_lines:
  "\<forall>l \<in> set ls. c \<notin> set l \<Longrightarrow>
    split_on c (concat (map (\<lambda>l. l @ [c]) ls)) = ls @ [[]]"
  by (induction ls) (auto simp: split_on_append)

lemma static_key_scan_hex:
  assumes "\<forall>l \<in> set ls. l \<noteq> [] \<and> (\<forall>c \<in> set l. \<exists>k < 16. c = hex_char k)"
  shows "static_key_scan True (ls @ rest) = concat ls @ static_key_scan True rest"
  using assms
proof (induction ls)
  case (Cons l ls)
  have "trim_space l = l" using Cons.prems by (intro trim_space_no_space) auto
  moreover obtain k cs where "l = hex_char k # cs" "k < 16"
    using Cons.prems by (cases l) auto
  ultimately show ?case using Cons by (simp add: has_prefix_def)
qed simp

text \<open>The file of a static key is parsed back to the key.\<close>

lemma static_key_file:
  assumes "length key = tlsCryptKeyLen"
  shows "\<exists>f. staticKeyFile key = Some f \<and> parseStaticKeyFile f = Inr key"
proof -
  let ?pre = "[''#'', ''# 2048 bit OpenVPN static key'', ''#'', ''-----BEGIN OpenVPN Static key V1-----'']"
  let ?post = "[''-----END OpenVPN Static key V1-----'']"
  obtain ls where ls: "key_lines (hex_encode key) = Some ls" "concat ls = hex_encode key"
      "\<forall>l \<in> set ls. length l = 32"
    using key_lines_spec [of "hex_encode key" 16] assms by (auto simp: tlsCryptKeyLen_def)
  have hex: "\<forall>l \<in> set ls. l \<noteq> [] \<and> (\<forall>c \<in> set l. \<exists>k < 16. c = hex_char k)"
    using ls(2,3) hex_encode_chars [of _ key] by (metis UN_I list.size(3) set_concat zero_neq_numeral)
  have "\<forall>l \<in> set ls. CHR 0x0A \<notin> set l"
    using ls(2) hex_encode_no_char(2) [of key] by (metis UN_I set_concat)
  then have "\<forall>l \<in> set (?pre @ ls @ ?post). CHR 0x0A \<notin> set l" by auto
  then have "split_on (CHR 0x0A) (concat (map (\<lambda>l. l @ [CHR 0x0A]) (?pre @ ls @ ?post))) =
      (?pre @ ls @ ?post) @ [[]]"
    by (rule split_lines)
  moreover have "static_key_scan False ((?pre @ ls @ ?post) @ [[]]) = hex_encode key"
    using static_key_scan_hex [OF hex, of "?post @ [[]]"] ls(2)
    by (simp add: has_prefix_def trim_space_def is_space_def)
  ultimately show ?thesis
    using assms ls(1) unfolding staticKeyFile_def parseStaticKeyFile_def by simp
qed

end
