(* ===== verification/Vpn_Service.thy ===== *)
theory Vpn_Service
  imports Codec
begin

text \<open>
  The interface between the node and a VPN protocol: \<^verbatim>\<open>types.Service\<close> of \<^verbatim>\<open>types/service.go\<close> as
  a record of operations on a service state, the peer helpers of \<^verbatim>\<open>context/service.go\<close> on top of
  it, and the locale \<^verbatim>\<open>vpn_service\<close> with the laws the node relies on. Every protocol's theory
  interprets the locale on its own operations.

  A service talks to the operating system or to a child process. Those calls are functions the
  operations are given; they thread a world of their own, so they may answer differently each
  time and may always fail.
\<close>

section \<open>The interface\<close>

record peer =
  peer_Key :: string
  peer_Upload :: int
  peer_Download :: int

text \<open>The session key of a peer is the base64 of its peer data.\<close>

abbreviation session_key :: "bytes \<Rightarrow> string" where
  "session_key d \<equiv> b64_encode d"

record 's service =
  svc_AddPeer :: "bytes \<Rightarrow> 's \<Rightarrow> bytes result \<times> 's"
  svc_HasPeer :: "bytes \<Rightarrow> 's \<Rightarrow> bool"
  svc_RemovePeer :: "bytes \<Rightarrow> 's \<Rightarrow> unit result \<times> 's"
  svc_Peers :: "'s \<Rightarrow> peer list result \<times> 's"
  svc_PeerCount :: "'s \<Rightarrow> nat"

text \<open>A listener as clients see it, with the numeric codes they compare against.\<close>

record inbound =
  in_Port :: "16 word"
  in_ProxyProtocol :: int
  in_TransportProtocol :: int
  in_TransportSecurity :: int
  in_TLSPin :: string
  in_Flow :: int
  in_RealityServerName :: string
  in_RealityShortID :: string
  in_RealityPublicKey :: string
  in_RealityFingerprint :: string

abbreviation (input) ProxyProtocolVLESS :: int where
  "ProxyProtocolVLESS \<equiv> 1"

abbreviation (input) ProxyProtocolVMess :: int where
  "ProxyProtocolVMess \<equiv> 2"

abbreviation (input) TransportProtocolTCP :: int where
  "TransportProtocolTCP \<equiv> 1"

abbreviation (input) TransportSecurityNone :: int where
  "TransportSecurityNone \<equiv> 1"

abbreviation (input) TransportSecurityTLS :: int where
  "TransportSecurityTLS \<equiv> 2"

abbreviation (input) TransportSecurityReality :: int where
  "TransportSecurityReality \<equiv> 3"

abbreviation (input) FlowNone :: int where
  "FlowNone \<equiv> 1"

abbreviation (input) FlowVision :: int where
  "FlowVision \<equiv> 2"

text \<open>An entry with the zero value in every field.\<close>

definition zero_inbound :: inbound where
  "zero_inbound =
    \<lparr>in_Port = 0, in_ProxyProtocol = 0, in_TransportProtocol = 0, in_TransportSecurity = 0, in_TLSPin = [],
     in_Flow = 0, in_RealityServerName = [], in_RealityShortID = [], in_RealityPublicKey = [],
     in_RealityFingerprint = []\<rparr>"

text \<open>The first two bytes of a service's info are its port, most significant byte first.\<close>

definition be16 :: "bytes \<Rightarrow> 16 word" where
  "be16 b = of_nat (big_of_bytes (take 2 b))"

section \<open>The node's peer helpers\<close>

definition ctx_RemovePeer :: "'s service \<Rightarrow> string \<Rightarrow> 's \<Rightarrow> unit result \<times> 's" where
  "ctx_RemovePeer svc key s =
    (case b64_decode key of
       None \<Rightarrow> (Inl ''illegal base64 data'', s)
     | Some d \<Rightarrow> svc_RemovePeer svc d s)"

definition ctx_HasPeer :: "'s service \<Rightarrow> string \<Rightarrow> 's \<Rightarrow> bool result" where
  "ctx_HasPeer svc key s =
    (case b64_decode key of
       None \<Rightarrow> Inl ''illegal base64 data''
     | Some d \<Rightarrow> Inr (svc_HasPeer svc d s))"

definition ctx_RemovePeerIfExists :: "'s service \<Rightarrow> string \<Rightarrow> 's \<Rightarrow> unit result \<times> 's" where
  "ctx_RemovePeerIfExists svc key s =
    (case ctx_HasPeer svc key s of
       Inl e \<Rightarrow> (Inl e, s)
     | Inr False \<Rightarrow> (ok, s)
     | Inr True \<Rightarrow> ctx_RemovePeer svc key s)"

section \<open>The set of registered peers\<close>

text \<open>\<^verbatim>\<open>common.PeerSet\<close>. Go iterates over a map in no particular order; the list is one such order,
  and no lemma depends on it.\<close>

type_synonym peer_set = "string list"

definition ps_Put :: "string \<Rightarrow> peer_set \<Rightarrow> peer_set" where
  "ps_Put k ps = (if k \<in> set ps then ps else ps @ [k])"

definition ps_Delete :: "string \<Rightarrow> peer_set \<Rightarrow> peer_set" where
  "ps_Delete k ps = filter (\<lambda>x. x \<noteq> k) ps"

definition ps_Has :: "string \<Rightarrow> peer_set \<Rightarrow> bool" where
  "ps_Has k ps \<longleftrightarrow> k \<in> set ps"

definition ps_Len :: "peer_set \<Rightarrow> nat" where
  "ps_Len ps = length ps"

definition ps_Keys :: "peer_set \<Rightarrow> string list" where
  "ps_Keys ps = ps"

lemma ps_simps [simp]:
  "set (ps_Put k ps) = insert k (set ps)" "set (ps_Delete k ps) = set ps - {k}"
  "ps_Has k ps \<longleftrightarrow> k \<in> set ps" "ps_Keys ps = ps"
  "distinct ps \<Longrightarrow> distinct (ps_Put k ps)" "distinct ps \<Longrightarrow> distinct (ps_Delete k ps)"
  by (auto simp: ps_Put_def ps_Delete_def ps_Has_def ps_Keys_def)

lemma ps_Len_card: "distinct ps \<Longrightarrow> ps_Len ps = card (set ps)"
  by (simp add: ps_Len_def distinct_card)

section \<open>The contract\<close>

text \<open>\<open>keys\<close> are the session keys of the peers the service serves. Peer data is never empty for a
  peer the node admits; the laws about a single peer are stated for such data, because the
  WireGuard and V2Ray peer tables treat the empty key as "no peer". \<open>readd\<close> says whether adding a peer
  that is already served keeps the laws; the two tiers of AmneziaWG do not, since such a peer may
  end up on both.\<close>

locale vpn_service =
  fixes svc :: "'s service"
    and keys :: "'s \<Rightarrow> string set"
    and inv :: "'s \<Rightarrow> bool"
    and readd :: bool
  assumes finite_keys: "inv s \<Longrightarrow> finite (keys s)"
    and PeerCount_law: "inv s \<Longrightarrow> svc_PeerCount svc s = card (keys s)"
    and HasPeer_law: "inv s \<Longrightarrow> d \<noteq> [] \<Longrightarrow> svc_HasPeer svc d s \<longleftrightarrow> session_key d \<in> keys s"
    and AddPeer_Inr: "inv s \<Longrightarrow> readd \<or> session_key d \<notin> keys s \<Longrightarrow> svc_AddPeer svc d s = (Inr b, s') \<Longrightarrow>
      inv s' \<and> keys s' = insert (session_key d) (keys s)"
    and AddPeer_Inl: "inv s \<Longrightarrow> readd \<or> session_key d \<notin> keys s \<Longrightarrow>
      svc_AddPeer svc d s = (Inl e, s') \<Longrightarrow> inv s' \<and> keys s' = keys s"
    and RemovePeer_Inr: "inv s \<Longrightarrow> d \<noteq> [] \<Longrightarrow> svc_RemovePeer svc d s = (ok, s') \<Longrightarrow>
      keys s' = keys s - {session_key d}"
    and RemovePeer_law: "inv s \<Longrightarrow> svc_RemovePeer svc d s = (r, s') \<Longrightarrow>
      inv s' \<and> keys s - {session_key d} \<subseteq> keys s' \<and> keys s' \<subseteq> keys s"
    and Peers_law: "inv s \<Longrightarrow> svc_Peers svc s = (r', s') \<Longrightarrow> inv s' \<and> keys s' = keys s"
begin

lemma AddPeer_inv: "inv s \<Longrightarrow> readd \<or> session_key d \<notin> keys s \<Longrightarrow> inv (snd (svc_AddPeer svc d s))"
  by (cases "svc_AddPeer svc d s"; cases "fst (svc_AddPeer svc d s)")
    (auto dest: AddPeer_Inr AddPeer_Inl)

lemma AddPeer_has:
  "inv s \<Longrightarrow> readd \<or> session_key d \<notin> keys s \<Longrightarrow> d \<noteq> [] \<Longrightarrow> svc_AddPeer svc d s = (Inr r, s') \<Longrightarrow>
    svc_HasPeer svc d s'"
  using AddPeer_Inr [of s d r s'] by (simp add: HasPeer_law)

lemma AddPeer_count:
  "inv s \<Longrightarrow> readd \<or> session_key d \<notin> keys s \<Longrightarrow>
    svc_PeerCount svc (snd (svc_AddPeer svc d s)) \<le> Suc (svc_PeerCount svc s)"
proof -
  assume s: "inv s" and fresh: "readd \<or> session_key d \<notin> keys s"
  obtain r s' where add: "svc_AddPeer svc d s = (r, s')" by fastforce
  show ?thesis
  proof (cases r)
    case (Inl e)
    with AddPeer_Inl [OF s fresh] add show ?thesis by (simp add: PeerCount_law s)
  next
    case (Inr b)
    with AddPeer_Inr [OF s fresh] add show ?thesis by (simp add: PeerCount_law s card_insert_le_Suc)
  qed
qed

lemma RemovePeer_inv: "inv s \<Longrightarrow> inv (snd (svc_RemovePeer svc d s))"
  using RemovePeer_law by (metis prod.collapse)

lemma RemovePeer_count:
  "inv s \<Longrightarrow> svc_PeerCount svc (snd (svc_RemovePeer svc d s)) \<le> svc_PeerCount svc s"
  using RemovePeer_law [of s d "fst (svc_RemovePeer svc d s)" "snd (svc_RemovePeer svc d s)"]
  by (simp add: PeerCount_law card_mono finite_keys)

lemma RemovePeer_gone:
  "inv s \<Longrightarrow> d \<noteq> [] \<Longrightarrow> svc_RemovePeer svc d s = (ok, s') \<Longrightarrow> \<not> svc_HasPeer svc d s'"
  using RemovePeer_Inr [of s d s'] RemovePeer_law [of s d ok s'] by (simp add: HasPeer_law)

lemma ctx_RemovePeer_law:
  "inv s \<Longrightarrow> ctx_RemovePeer svc (session_key d) s = (r, s') \<Longrightarrow>
    inv s' \<and> keys s - {session_key d} \<subseteq> keys s' \<and> keys s' \<subseteq> keys s \<and>
    (d \<noteq> [] \<longrightarrow> r = ok \<longrightarrow> keys s' = keys s - {session_key d})"
  using RemovePeer_law [of s d r s'] RemovePeer_Inr [of s d s'] by (simp add: ctx_RemovePeer_def)

lemma ctx_RemovePeer_any:
  assumes "inv s" "ctx_RemovePeer svc k s = (r, s')"
  shows "inv s' \<and> keys s' \<subseteq> keys s \<and> svc_PeerCount svc s' \<le> svc_PeerCount svc s"
proof (cases "b64_decode k")
  case (Some d)
  then have "svc_RemovePeer svc d s = (r, s')" using assms(2) by (simp add: ctx_RemovePeer_def)
  from RemovePeer_law [OF assms(1) this] show ?thesis
    using assms(1) by (simp add: PeerCount_law card_mono finite_keys)
qed (use assms in \<open>simp add: ctx_RemovePeer_def\<close>)

lemma ctx_RemovePeerIfExists_any:
  assumes "inv s" "ctx_RemovePeerIfExists svc k s = (r, s')"
  shows "inv s' \<and> keys s' \<subseteq> keys s \<and> svc_PeerCount svc s' \<le> svc_PeerCount svc s"
  using assms ctx_RemovePeer_any [OF assms(1)]
  by (auto simp: ctx_RemovePeerIfExists_def split: sum.splits bool.splits)

lemma ctx_RemovePeerIfExists_law:
  assumes "inv s" "d \<noteq> []" "ctx_RemovePeerIfExists svc (session_key d) s = (r, s')"
  shows "keys s - {session_key d} \<subseteq> keys s' \<and> (r = ok \<longrightarrow> keys s' = keys s - {session_key d})"
  using assms ctx_RemovePeer_law [OF assms(1), of d r s']
  by (auto simp: ctx_RemovePeerIfExists_def ctx_HasPeer_def HasPeer_law split: bool.splits)

end

section \<open>Services over a peer set\<close>

text \<open>The proxy services keep their registered peers in a \<^typ>\<open>peer_set\<close> beside the child process they
  drive. Whatever the child answers, an addition ends with the peer in the set or the set as it was, and
  a removal, when it succeeds, with the peer out of the set. That gives the contract.\<close>

locale peer_set_service =
  fixes svc :: "'s service"
    and peers :: "'s \<Rightarrow> peer_set"
  assumes HasPeer_set: "svc_HasPeer svc d s = ps_Has (session_key d) (peers s)"
    and PeerCount_set: "svc_PeerCount svc s = ps_Len (peers s)"
    and AddPeer_set: "svc_AddPeer svc d s = (r, s') \<Longrightarrow>
      peers s' = (if is_ok r then ps_Put (session_key d) (peers s) else peers s)"
    and RemovePeer_set: "svc_RemovePeer svc d s = (r', s') \<Longrightarrow>
      peers s' = ps_Delete (session_key d) (peers s) \<or> \<not> is_ok r' \<and> peers s' = peers s"
    and Peers_set: "svc_Peers svc s = (r'', s') \<Longrightarrow> peers s' = peers s"

sublocale peer_set_service \<subseteq> vpn_service svc "\<lambda>s. set (peers s)" "\<lambda>s. distinct (peers s)" True
proof unfold_locales
  fix s s' d b e r r'
  assume s: "distinct (peers s)"
  show "finite (set (peers s))" by simp
  show "svc_PeerCount svc s = card (set (peers s))" using s by (simp add: PeerCount_set ps_Len_card)
  show "svc_HasPeer svc d s = (session_key d \<in> set (peers s))" by (simp add: HasPeer_set)
  show "distinct (peers s') \<and> set (peers s') = insert (session_key d) (set (peers s))"
    if "svc_AddPeer svc d s = (Inr b, s')"
    using AddPeer_set [OF that] s by simp
  show "distinct (peers s') \<and> set (peers s') = set (peers s)" if "svc_AddPeer svc d s = (Inl e, s')"
    using AddPeer_set [OF that] s by simp
  show "set (peers s') = set (peers s) - {session_key d}" if "svc_RemovePeer svc d s = (ok, s')"
    using RemovePeer_set [OF that] by simp
  show "distinct (peers s') \<and> set (peers s) - {session_key d} \<subseteq> set (peers s') \<and> set (peers s') \<subseteq> set (peers s)"
    if "svc_RemovePeer svc d s = (r, s')"
    using RemovePeer_set [OF that] s by auto
  show "distinct (peers s') \<and> set (peers s') = set (peers s)" if "svc_Peers svc s = (r', s')"
    using Peers_set [OF that] s by simp
qed

end
