(* ===== verification/Session_Store.thy ===== *)
theory Session_Store
  imports Codec "HOL-Library.Multiset"
begin

text \<open>
  The local session table: the row of \<^verbatim>\<open>types/session.go\<close> with its derived quantities, and the
  database as the node uses it. The object-relational mapper is not part of the program; it is a
  record of operations that thread a database state, each of which may fail. What the node relies
  on is the documented behaviour \<^verbatim>\<open>gorm_doc\<close>, relative to an abstraction \<open>rows\<close> of the database
  state to the rows of the table.
\<close>

section \<open>Rows\<close>

record session =
  ses_ID :: "64 word"
  ses_Subscription :: "64 word"
  ses_Key :: string
  ses_Address :: string
  ses_Available :: int
  ses_Download :: int
  ses_Upload :: int
  ses_BaseDownload :: int
  ses_BaseUpload :: int
  ses_BaseDuration :: int
  ses_CreatedAt :: int
  ses_UpdatedAt :: int

definition zero_session :: session where
  "zero_session = \<lparr>ses_ID = 0, ses_Subscription = 0, ses_Key = [], ses_Address = [], ses_Available = 0,
    ses_Download = 0, ses_Upload = 0, ses_BaseDownload = 0, ses_BaseUpload = 0, ses_BaseDuration = 0,
    ses_CreatedAt = 0, ses_UpdatedAt = 0\<rparr>"

definition ServedBytes :: "session \<Rightarrow> int" where
  "ServedBytes s =
    i64 (i64 (ses_Download s - ses_BaseDownload s) + i64 (ses_Upload s - ses_BaseUpload s))"

text \<open>\<^verbatim>\<open>Time.Sub\<close> saturates at the limits of a duration; the addition after it wraps.\<close>

definition time_Sub :: "int \<Rightarrow> int \<Rightarrow> int" where
  "time_Sub t u = max i64_min (min i64_max (t - u))"

definition ses_Duration :: "session \<Rightarrow> int" where
  "ses_Duration s = i64 (ses_BaseDuration s + time_Sub (ses_UpdatedAt s) (ses_CreatedAt s))"

section \<open>The database\<close>

text \<open>A condition given as a struct only constrains the fields that are not zero.\<close>

definition where_matches :: "session \<Rightarrow> session \<Rightarrow> bool" where
  "where_matches w r \<longleftrightarrow>
    (ses_ID w = 0 \<or> ses_ID r = ses_ID w) \<and>
    (ses_Subscription w = 0 \<or> ses_Subscription r = ses_Subscription w) \<and>
    (ses_Key w = [] \<or> ses_Key r = ses_Key w) \<and>
    (ses_Address w = [] \<or> ses_Address r = ses_Address w)"

record 'd database =
  db_Find :: "session \<Rightarrow> 'd \<Rightarrow> session list result \<times> 'd"
  db_Count :: "session \<Rightarrow> 'd \<Rightarrow> nat result \<times> 'd"
  db_Create :: "session \<Rightarrow> 'd \<Rightarrow> unit result \<times> 'd"
  db_Updates :: "64 word \<Rightarrow> int \<Rightarrow> int \<Rightarrow> 'd \<Rightarrow> unit result \<times> 'd"
  db_Delete :: "64 word \<Rightarrow> 'd \<Rightarrow> unit result \<times> 'd"
  db_DeleteAll :: "'d \<Rightarrow> unit result \<times> 'd"
  db_Vacuum :: "'d \<Rightarrow> unit result \<times> 'd"

definition set_usage :: "64 word \<Rightarrow> int \<Rightarrow> int \<Rightarrow> int \<Rightarrow> session \<Rightarrow> session" where
  "set_usage i up down t r =
    (if ses_ID r = i then r\<lparr>ses_Upload := up, ses_Download := down, ses_UpdatedAt := t\<rparr> else r)"

text \<open>Reads return the matching rows and change nothing; a failed operation changes nothing. A
  created row gets its time stamps, and is refused when its identifier or key is taken (both are
  unique indexes). An update or deletion needs a condition, so a zero identifier is an error.\<close>

definition gorm_reads :: "'d database \<Rightarrow> ('d \<Rightarrow> session list) \<Rightarrow> bool" where
  "gorm_reads db rows \<longleftrightarrow>
    (\<forall>w d r d'. db_Find db w d = (r, d') \<longrightarrow> rows d' = rows d \<and>
      (\<forall>xs. r = Inr xs \<longrightarrow> mset xs = mset (filter (where_matches w) (rows d)))) \<and>
    (\<forall>w d r d'. db_Count db w d = (r, d') \<longrightarrow> rows d' = rows d \<and>
      (\<forall>n. r = Inr n \<longrightarrow> n = length (filter (where_matches w) (rows d)))) \<and>
    (\<forall>d r d'. db_Vacuum db d = (r, d') \<longrightarrow> rows d' = rows d)"

definition gorm_writes :: "'d database \<Rightarrow> ('d \<Rightarrow> session list) \<Rightarrow> bool" where
  "gorm_writes db rows \<longleftrightarrow>
    (\<forall>x d d'. ses_ID x \<noteq> 0 \<longrightarrow> db_Create db x d = (ok, d') \<longrightarrow>
      ses_ID x \<notin> ses_ID ` set (rows d) \<and> ses_Key x \<notin> ses_Key ` set (rows d) \<and>
      (\<exists>t. rows d' = rows d @ [x\<lparr>ses_CreatedAt := t, ses_UpdatedAt := t\<rparr>])) \<and>
    (\<forall>x e d d'. db_Create db x d = (Inl e, d') \<longrightarrow> rows d' = rows d) \<and>
    (\<forall>i up down d d'. db_Updates db i up down d = (ok, d') \<longrightarrow> i \<noteq> 0 \<and>
      (\<exists>t. rows d' = map (set_usage i up down t) (rows d))) \<and>
    (\<forall>i up down e d d'. db_Updates db i up down d = (Inl e, d') \<longrightarrow> rows d' = rows d) \<and>
    (\<forall>i d d'. db_Delete db i d = (ok, d') \<longrightarrow> i \<noteq> 0 \<and> rows d' = filter (\<lambda>r. ses_ID r \<noteq> i) (rows d)) \<and>
    (\<forall>i e d d'. db_Delete db i d = (Inl e, d') \<longrightarrow> rows d' = rows d) \<and>
    (\<forall>d d'. db_DeleteAll db d = (ok, d') \<longrightarrow> rows d' = []) \<and>
    (\<forall>e d d'. db_DeleteAll db d = (Inl e, d') \<longrightarrow> rows d' = rows d)"

definition gorm_doc :: "'d database \<Rightarrow> ('d \<Rightarrow> session list) \<Rightarrow> bool" where
  "gorm_doc db rows \<longleftrightarrow> gorm_reads db rows \<and> gorm_writes db rows"

text \<open>The table invariant: identifiers and keys are unique and no identifier is zero.\<close>

definition rows_inv :: "session list \<Rightarrow> bool" where
  "rows_inv rs \<longleftrightarrow>
    distinct (map ses_ID rs) \<and> distinct (map ses_Key rs) \<and> (\<forall>r \<in> set rs. ses_ID r \<noteq> 0)"

section \<open>An in-memory database\<close>

text \<open>A list of rows and a clock; it keeps the documented behaviour and serves the worked
  examples.\<close>

type_synonym mem = "session list \<times> int"

definition mem_db :: "mem database" where
  "mem_db =
    \<lparr>db_Find = (\<lambda>w (rs, t). (Inr (filter (where_matches w) rs), rs, t)),
     db_Count = (\<lambda>w (rs, t). (Inr (length (filter (where_matches w) rs)), rs, t)),
     db_Create = (\<lambda>x (rs, t).
        if ses_ID x = 0 \<or> ses_ID x \<in> ses_ID ` set rs \<or> ses_Key x \<in> ses_Key ` set rs
        then (Inl ''UNIQUE constraint failed'', rs, t)
        else (ok, rs @ [x\<lparr>ses_CreatedAt := t, ses_UpdatedAt := t\<rparr>], t + 1)),
     db_Updates = (\<lambda>i up down (rs, t).
        if i = 0 then (Inl ''WHERE conditions required'', rs, t)
        else (ok, map (set_usage i up down t) rs, t + 1)),
     db_Delete = (\<lambda>i (rs, t).
        if i = 0 then (Inl ''WHERE conditions required'', rs, t)
        else (ok, filter (\<lambda>r. ses_ID r \<noteq> i) rs, t)),
     db_DeleteAll = (\<lambda>(rs, t). (ok, [], t)),
     db_Vacuum = (\<lambda>(rs, t). (ok, rs, t))\<rparr>"

lemma mem_db_doc: "gorm_doc mem_db fst"
  by (auto simp: gorm_doc_def gorm_reads_def gorm_writes_def mem_db_def split: if_splits)

section \<open>Consequences of the documented behaviour\<close>

lemma gorm_Find_rows: "gorm_doc db rows \<Longrightarrow> db_Find db w d = (r, d') \<Longrightarrow> rows d' = rows d"
  by (auto simp: gorm_doc_def gorm_reads_def)

lemma gorm_Find_set:
  assumes "gorm_doc db rows" "db_Find db w d = (Inr xs, d')"
  shows "set xs = {r \<in> set (rows d). where_matches w r}"
proof -
  have "mset xs = mset (filter (where_matches w) (rows d))"
    using conjunct1 [OF conjunct1 [OF assms(1) [unfolded gorm_doc_def gorm_reads_def]], rule_format, OF assms(2)]
    by simp
  then show ?thesis by (metis mset_eq_setD set_filter)
qed

lemma gorm_Count_rows: "gorm_doc db rows \<Longrightarrow> db_Count db w d = (r, d') \<Longrightarrow> rows d' = rows d"
  by (auto simp: gorm_doc_def gorm_reads_def)

lemma gorm_Count_pos:
  assumes "gorm_doc db rows" "db_Count db w d = (Inr n, d')"
  shows "0 < n \<longleftrightarrow> (\<exists>r \<in> set (rows d). where_matches w r)"
proof -
  have "n = length (filter (where_matches w) (rows d))"
    using conjunct1 [OF conjunct2 [OF conjunct1 [OF assms(1) [unfolded gorm_doc_def gorm_reads_def]]],
        rule_format, OF assms(2)] by simp
  then show ?thesis by (auto simp: filter_empty_conv)
qed

lemma gorm_Create_ok:
  "gorm_doc db rows \<Longrightarrow> ses_ID x \<noteq> 0 \<Longrightarrow> db_Create db x d = (ok, d') \<Longrightarrow>
    ses_ID x \<notin> ses_ID ` set (rows d) \<and> ses_Key x \<notin> ses_Key ` set (rows d) \<and>
    (\<exists>t. rows d' = rows d @ [x\<lparr>ses_CreatedAt := t, ses_UpdatedAt := t\<rparr>])"
  by (simp add: gorm_doc_def gorm_writes_def)

lemma gorm_Create_err: "gorm_doc db rows \<Longrightarrow> db_Create db x d = (Inl e, d') \<Longrightarrow> rows d' = rows d"
  by (auto simp: gorm_doc_def gorm_writes_def)

lemma gorm_Updates_ok:
  "gorm_doc db rows \<Longrightarrow> db_Updates db i up down d = (ok, d') \<Longrightarrow>
    i \<noteq> 0 \<and> (\<exists>t. rows d' = map (set_usage i up down t) (rows d))"
  by (simp add: gorm_doc_def gorm_writes_def)

lemma gorm_Updates_err: "gorm_doc db rows \<Longrightarrow> db_Updates db i up down d = (Inl e, d') \<Longrightarrow> rows d' = rows d"
  by (auto simp: gorm_doc_def gorm_writes_def)

lemma gorm_Delete_ok:
  "gorm_doc db rows \<Longrightarrow> db_Delete db i d = (ok, d') \<Longrightarrow>
    i \<noteq> 0 \<and> rows d' = filter (\<lambda>r. ses_ID r \<noteq> i) (rows d)"
  by (simp add: gorm_doc_def gorm_writes_def)

lemma gorm_Delete_err: "gorm_doc db rows \<Longrightarrow> db_Delete db i d = (Inl e, d') \<Longrightarrow> rows d' = rows d"
  by (auto simp: gorm_doc_def gorm_writes_def)

lemma gorm_DeleteAll_ok: "gorm_doc db rows \<Longrightarrow> db_DeleteAll db d = (ok, d') \<Longrightarrow> rows d' = []"
  by (simp add: gorm_doc_def gorm_writes_def)

lemma gorm_DeleteAll_err: "gorm_doc db rows \<Longrightarrow> db_DeleteAll db d = (Inl e, d') \<Longrightarrow> rows d' = rows d"
  by (auto simp: gorm_doc_def gorm_writes_def)

lemma set_usage_fields [simp, row_simps]:
  "ses_ID (set_usage i up down t r) = ses_ID r" "ses_Key (set_usage i up down t r) = ses_Key r"
  "ses_Address (set_usage i up down t r) = ses_Address r"
  "ses_Subscription (set_usage i up down t r) = ses_Subscription r"
  "ses_Available (set_usage i up down t r) = ses_Available r"
  "ses_BaseUpload (set_usage i up down t r) = ses_BaseUpload r"
  "ses_BaseDownload (set_usage i up down t r) = ses_BaseDownload r"
  by (simp_all add: set_usage_def)

lemma rows_inv_update: "rows_inv (map (set_usage i up down t) rs) = rows_inv rs"
  by (simp add: rows_inv_def comp_def)

lemma rows_inv_filter: "rows_inv rs \<Longrightarrow> rows_inv (filter P rs)"
  by (auto simp: rows_inv_def distinct_map_filter')

lemma rows_inv_Nil [simp]: "rows_inv []"
  by (simp add: rows_inv_def)

lemma rows_inv_unique:
  "rows_inv rs \<Longrightarrow> r \<in> set rs \<Longrightarrow> r' \<in> set rs \<Longrightarrow> ses_ID r = ses_ID r' \<or> ses_Key r = ses_Key r' \<Longrightarrow> r = r'"
  by (auto simp: rows_inv_def dest: distinct_map_unique)

lemma rows_inv_Create:
  assumes "gorm_doc db rows" "ses_ID x \<noteq> 0" "db_Create db x d = (r, d')" "rows_inv (rows d)"
  shows "rows_inv (rows d')"
proof (cases r)
  case (Inl e)
  then show ?thesis using gorm_Create_err [OF assms(1)] assms by metis
next
  case (Inr u)
  then have "db_Create db x d = (ok, d')" using assms(3) by simp
  from gorm_Create_ok [OF assms(1,2) this] show ?thesis
    using assms(2,4) by (auto simp: rows_inv_def)
qed

end
