(* ===== verification/Admission.thy ===== *)
theory Admission
  imports Vpn_Service Session_Store
begin

text \<open>
  Session admission, \<^verbatim>\<open>api/session/admit.go\<close>. The state the admission lock guards is a record of
  the service and the database; the chain client is a record of queries that thread a world of
  their own. \<^verbatim>\<open>admit\<close> runs in two phases, as in the code: a pre-check and the chain queries
  without the lock, then everything that changes the node under it. The phases are separate
  definitions, so that the interleavings of concurrent handshakes can be stated.
\<close>

section \<open>What the chain holds\<close>

datatype status = StatusUnspecified | StatusActive | StatusInactivePending | StatusInactive

record chain_session =
  cs_ID :: "64 word"
  cs_AccAddress :: string
  cs_NodeAddress :: string
  cs_Status :: status
  cs_StatusAt :: int
  cs_DownloadBytes :: int
  cs_UploadBytes :: int
  cs_TotalBytes :: int
  cs_MaxBytes :: int
  cs_Duration :: int
  cs_SubscriptionID :: "64 word option"

record subscription =
  sub_ID :: "64 word"
  sub_Status :: status

record allocation =
  al_GrantedBytes :: int
  al_UtilisedBytes :: int

record msg_update_session =
  msg_From :: string
  msg_ID :: "64 word"
  msg_Download :: int
  msg_Upload :: int
  msg_Duration :: int

record 'c chain =
  ch_QuerySession :: "64 word \<Rightarrow> 'c \<Rightarrow> chain_session option result \<times> 'c"
  ch_QuerySubscription :: "64 word \<Rightarrow> 'c \<Rightarrow> subscription option result \<times> 'c"
  ch_QueryAllocation :: "64 word \<Rightarrow> string \<Rightarrow> 'c \<Rightarrow> allocation option result \<times> 'c"
  ch_Tx :: "msg_update_session list \<Rightarrow> 'c \<Rightarrow> unit result \<times> 'c"

section \<open>The node's state and settings\<close>

record ('s, 'd) node =
  nd_svc :: 's
  nd_db :: 'd

record settings =
  set_MaxPeers :: int
  set_Address :: string

record api_error =
  ae_Status :: nat
  ae_Code :: nat
  ae_Err :: gerror

definition newAPIError :: "nat \<Rightarrow> nat \<Rightarrow> gerror \<Rightarrow> api_error" where
  "newAPIError status code err = \<lparr>ae_Status = status, ae_Code = code, ae_Err = err\<rparr>"

definition InternalErrorMessage :: string where
  "InternalErrorMessage = ''the node could not complete the request; try again later''"

text \<open>The code and message a client sees: a failure of the node itself is not explained.\<close>

definition replyError :: "nat \<Rightarrow> nat \<Rightarrow> gerror \<Rightarrow> nat \<times> nat \<times> string" where
  "replyError status code err = (status, code, if 500 \<le> status then InternalErrorMessage else err)"

record admit_request =
  rq_AccAddress :: string
  rq_ID :: "64 word"
  rq_PeerData :: bytes

definition PeerKey :: "admit_request \<Rightarrow> string" where
  "PeerKey req = b64_encode (rq_PeerData req)"

record admit_result =
  res_Session :: chain_session
  res_Peer :: bytes

record admission =
  adm_session :: chain_session
  adm_subscriptionID :: "64 word"
  adm_remainingBytes :: int
  adm_alloc :: "allocation option"

section \<open>The pre-check\<close>

definition clampInt64 :: "int \<Rightarrow> int" where
  "clampInt64 v = (if v < 0 then 0 else if in_i64 v then v else i64_max)"

definition sessionExists :: "'d database \<Rightarrow> session \<Rightarrow> 'd \<Rightarrow> bool result \<times> 'd" where
  "sessionExists db w d =
    (case db_Count db w d of
       (Inl e, d') \<Rightarrow> (Inl e, d')
     | (Inr n, d') \<Rightarrow> (Inr (0 < n), d'))"

definition checkCapacity ::
  "settings \<Rightarrow> 's service \<Rightarrow> 'd database \<Rightarrow> admit_request \<Rightarrow> ('s, 'd) node \<Rightarrow>
    (api_error + unit) \<times> ('s, 'd) node"
where
  "checkCapacity env svc db req n =
    (if set_MaxPeers env \<le> int (svc_PeerCount svc (nd_svc n))
     then (Inl (newAPIError 400 1 ''reached maximum peers limit''), n)
     else
       (case sessionExists db (zero_session\<lparr>ses_ID := rq_ID req\<rparr>) (nd_db n) of
          (Inl e, d) \<Rightarrow> (Inl (newAPIError 500 3 e), n\<lparr>nd_db := d\<rparr>)
        | (Inr True, d) \<Rightarrow> (Inl (newAPIError 409 3 ''session already exists in database''), n\<lparr>nd_db := d\<rparr>)
        | (Inr False, d) \<Rightarrow>
            (case sessionExists db (zero_session\<lparr>ses_Key := PeerKey req\<rparr>) d of
               (Inl e, d') \<Rightarrow> (Inl (newAPIError 500 3 e), n\<lparr>nd_db := d'\<rparr>)
             | (Inr True, d') \<Rightarrow> (Inl (newAPIError 409 3 ''key for service already exists''), n\<lparr>nd_db := d'\<rparr>)
             | (Inr False, d') \<Rightarrow> (Inr (), n\<lparr>nd_db := d'\<rparr>))))"

section \<open>The chain queries\<close>

text \<open>The checks of the session itself, before the subscription is asked about.\<close>

definition session_refusal :: "settings \<Rightarrow> admit_request \<Rightarrow> chain_session \<Rightarrow> api_error option" where
  "session_refusal env req s =
    (if cs_Status s \<noteq> StatusActive then Some (newAPIError 404 5 ''invalid status for session'')
     else if cs_AccAddress s \<noteq> rq_AccAddress req then Some (newAPIError 400 5 ''account address mismatch'')
     else if cs_NodeAddress s \<noteq> set_Address env then Some (newAPIError 400 7 ''node address mismatch'')
     else if 0 < cs_MaxBytes s \<and> \<not> 0 < cs_MaxBytes s - cs_TotalBytes s
       then Some (newAPIError 400 8 ''session has used its bytes'')
     else None)"

definition session_cap :: "chain_session \<Rightarrow> int" where
  "session_cap s = (if 0 < cs_MaxBytes s then clampInt64 (cs_MaxBytes s - cs_TotalBytes s) else 0)"

definition queryAdmission ::
  "settings \<Rightarrow> 'c chain \<Rightarrow> admit_request \<Rightarrow> 'c \<Rightarrow> (api_error + admission) \<times> 'c"
where
  "queryAdmission env chain req c =
    (case ch_QuerySession chain (rq_ID req) c of
       (Inl e, c) \<Rightarrow> (Inl (newAPIError 500 5 e), c)
     | (Inr None, c) \<Rightarrow> (Inl (newAPIError 404 5 ''session does not exist''), c)
     | (Inr (Some s), c) \<Rightarrow>
        (case session_refusal env req s of
           Some e \<Rightarrow> (Inl e, c)
         | None \<Rightarrow>
            (case cs_SubscriptionID s of
               None \<Rightarrow> (Inr \<lparr>adm_session = s, adm_subscriptionID = 0,
                  adm_remainingBytes = session_cap s, adm_alloc = None\<rparr>, c)
             | Some sid \<Rightarrow>
                (case ch_QuerySubscription chain sid c of
                   (Inl e, c) \<Rightarrow> (Inl (newAPIError 500 6 e), c)
                 | (Inr None, c) \<Rightarrow> (Inl (newAPIError 404 6 ''subscription does not exist''), c)
                 | (Inr (Some u), c) \<Rightarrow>
                    if sub_Status u \<noteq> StatusActive
                    then (Inl (newAPIError 400 6 ''invalid status for subscription''), c)
                    else
                      (case ch_QueryAllocation chain (sub_ID u) (rq_AccAddress req) c of
                         (Inl e, c) \<Rightarrow> (Inl (newAPIError 500 8 e), c)
                       | (Inr None, c) \<Rightarrow> (Inl (newAPIError 404 8 ''allocation does not exist''), c)
                       | (Inr (Some al), c) \<Rightarrow>
                          (Inr \<lparr>adm_session = s, adm_subscriptionID = sid,
                             adm_remainingBytes = session_cap s, adm_alloc = Some al\<rparr>, c))))))"

section \<open>The locked phase\<close>

definition account_where :: "admission \<Rightarrow> admit_request \<Rightarrow> session" where
  "account_where a req =
    zero_session\<lparr>ses_Subscription := adm_subscriptionID a, ses_Address := rq_AccAddress req\<rparr>"

text \<open>The byte cap: the session's own, lowered to what is left of the allocation once the bytes this
  node served and has not reported are counted.\<close>

definition utilised_bytes :: "allocation \<Rightarrow> session list \<Rightarrow> int" where
  "utilised_bytes al items = al_UtilisedBytes al + (\<Sum>x\<leftarrow>items. ServedBytes x)"

definition remaining_bytes ::
  "'d database \<Rightarrow> admit_request \<Rightarrow> admission \<Rightarrow> 'd \<Rightarrow> (api_error + int) \<times> 'd"
where
  "remaining_bytes db req a d =
    (case adm_alloc a of
       None \<Rightarrow> (Inr (adm_remainingBytes a), d)
     | Some al \<Rightarrow>
        (case db_Find db (account_where a req) d of
           (Inl e, d') \<Rightarrow> (Inl (newAPIError 500 8 e), d')
         | (Inr items, d') \<Rightarrow>
            (let utilised = utilised_bytes al items;
                 left = clampInt64 (al_GrantedBytes al - utilised)
             in if al_GrantedBytes al \<le> utilised
                then (Inl (newAPIError 400 8 ''invalid allocation''), d')
                else (Inr (if adm_remainingBytes a = 0 \<or> left < adm_remainingBytes a
                           then left else adm_remainingBytes a), d'))))"

definition new_row :: "admit_request \<Rightarrow> admission \<Rightarrow> int \<Rightarrow> session" where
  "new_row req a remaining =
    (let down = clampInt64 (cs_DownloadBytes (adm_session a));
         up = clampInt64 (cs_UploadBytes (adm_session a))
     in zero_session\<lparr>ses_ID := rq_ID req, ses_Subscription := adm_subscriptionID a,
          ses_Key := PeerKey req, ses_Address := rq_AccAddress req, ses_Available := remaining,
          ses_Download := down, ses_Upload := up, ses_BaseDownload := down, ses_BaseUpload := up,
          ses_BaseDuration := cs_Duration (adm_session a)\<rparr>)"

text \<open>Eviction of the account's earlier peers, and the addition of the new one.\<close>

definition evict :: "'s service \<Rightarrow> session list \<Rightarrow> 's \<Rightarrow> unit result \<times> 's" where
  "evict svc items = for_each_err (\<lambda>it. ctx_RemovePeerIfExists svc (ses_Key it)) items"

definition add_and_record ::
  "'s service \<Rightarrow> 'd database \<Rightarrow> admit_request \<Rightarrow> admission \<Rightarrow> int \<Rightarrow> ('s, 'd) node \<Rightarrow>
    (api_error + admit_result) \<times> ('s, 'd) node"
where
  "add_and_record svc db req a remaining n =
    (case svc_AddPeer svc (rq_PeerData req) (nd_svc n) of
       (Inl e, s) \<Rightarrow> (Inl (newAPIError 500 10 e), n\<lparr>nd_svc := s\<rparr>)
     | (Inr peer, s) \<Rightarrow>
        (case db_Create db (new_row req a remaining) (nd_db n) of
           (Inl e, d) \<Rightarrow>
             (case svc_RemovePeer svc (rq_PeerData req) s of
                (_, s') \<Rightarrow> (Inl (newAPIError 500 10 e), n\<lparr>nd_svc := s', nd_db := d\<rparr>))
         | (Inr _, d) \<Rightarrow>
             (Inr \<lparr>res_Session = adm_session a, res_Peer = peer\<rparr>, n\<lparr>nd_svc := s, nd_db := d\<rparr>)))"

definition admit_locked ::
  "settings \<Rightarrow> 's service \<Rightarrow> 'd database \<Rightarrow> admit_request \<Rightarrow> admission \<Rightarrow> ('s, 'd) node \<Rightarrow>
    (api_error + admit_result) \<times> ('s, 'd) node"
where
  "admit_locked env svc db req a n =
    (case checkCapacity env svc db req n of
       (Inl e, n) \<Rightarrow> (Inl e, n)
     | (Inr _, n) \<Rightarrow>
        (case remaining_bytes db req a (nd_db n) of
           (Inl e, d) \<Rightarrow> (Inl e, n\<lparr>nd_db := d\<rparr>)
         | (Inr remaining, d) \<Rightarrow>
            (case db_Find db (account_where a req) d of
               (Inl e, d) \<Rightarrow> (Inl (newAPIError 500 9 e), n\<lparr>nd_db := d\<rparr>)
             | (Inr items, d) \<Rightarrow>
                (case evict svc items (nd_svc n) of
                   (Inl e, s) \<Rightarrow> (Inl (newAPIError 500 9 e), n\<lparr>nd_svc := s, nd_db := d\<rparr>)
                 | (Inr _, s) \<Rightarrow> add_and_record svc db req a remaining (n\<lparr>nd_svc := s, nd_db := d\<rparr>)))))"

definition admit ::
  "settings \<Rightarrow> 's service \<Rightarrow> 'd database \<Rightarrow> 'c chain \<Rightarrow> admit_request \<Rightarrow> ('s, 'd) node \<times> 'c \<Rightarrow>
    (api_error + admit_result) \<times> (('s, 'd) node \<times> 'c)"
where
  "admit env svc db chain req w =
    (case checkCapacity env svc db req (fst w) of
       (Inl e, n) \<Rightarrow> (Inl e, n, snd w)
     | (Inr _, n) \<Rightarrow>
        (case queryAdmission env chain req (snd w) of
           (Inl e, c) \<Rightarrow> (Inl e, n, c)
         | (Inr a, c) \<Rightarrow>
            (case admit_locked env svc db req a n of (r, n') \<Rightarrow> (r, n', c))))"

section \<open>Bounds of the byte caps\<close>

lemma clampInt64_bounds: "0 \<le> clampInt64 v" "clampInt64 v \<le> i64_max" "in_i64 (clampInt64 v)"
  by (auto simp: clampInt64_def in_i64_def)

lemma clampInt64_le: "0 \<le> v \<Longrightarrow> clampInt64 v \<le> v"
  by (auto simp: clampInt64_def in_i64_def)

lemma clampInt64_pos: "0 < v \<Longrightarrow> 0 < clampInt64 v"
  by (auto simp: clampInt64_def in_i64_def)

lemma session_cap_pos:
  "session_refusal env req s = None \<Longrightarrow> 0 < cs_MaxBytes s \<Longrightarrow>
    0 < session_cap s \<and> session_cap s \<le> cs_MaxBytes s - cs_TotalBytes s"
  by (auto simp: session_refusal_def session_cap_def clampInt64_pos clampInt64_le split: if_splits)

lemma session_cap_nonneg: "0 \<le> session_cap s"
  by (simp add: session_cap_def clampInt64_bounds)

text \<open>What a successful query says of the chain's answers.\<close>

lemma queryAdmission_Inr:
  assumes "queryAdmission env chain req c = (Inr a, c')"
  shows "(\<exists>c1. ch_QuerySession chain (rq_ID req) c = (Inr (Some (adm_session a)), c1)) \<and>
    session_refusal env req (adm_session a) = None \<and> adm_remainingBytes a = session_cap (adm_session a) \<and>
    (adm_alloc a = None \<longleftrightarrow> cs_SubscriptionID (adm_session a) = None)"
  using assms
  by (auto simp: queryAdmission_def split: prod.splits sum.splits option.splits if_splits)

lemma remaining_bytes_rows:
  "gorm_doc db rows \<Longrightarrow> remaining_bytes db req a d = (r, d') \<Longrightarrow> rows d' = rows d"
  by (auto simp: remaining_bytes_def Let_def split: option.splits prod.splits sum.splits if_splits
      dest: gorm_Find_rows)

text \<open>The cap is the smaller of the session's and the allocation's, where zero means none.\<close>

lemma remaining_bytes_cap:
  assumes "remaining_bytes db req a d = (Inr n, d')" "0 \<le> adm_remainingBytes a"
  shows "0 \<le> n \<and> (0 < adm_remainingBytes a \<longrightarrow> 0 < n \<and> n \<le> adm_remainingBytes a) \<and>
    (\<forall>al. adm_alloc a = Some al \<longrightarrow> 0 < n \<and>
      (\<exists>items d1. db_Find db (account_where a req) d = (Inr items, d1) \<and>
        n \<le> al_GrantedBytes al - utilised_bytes al items))"
proof (cases "adm_alloc a")
  case None
  then show ?thesis using assms by (auto simp: remaining_bytes_def)
next
  case (Some al)
  then obtain items where f: "db_Find db (account_where a req) d = (Inr items, d')"
    and gr: "utilised_bytes al items < al_GrantedBytes al"
    and n: "n = (let left = clampInt64 (al_GrantedBytes al - utilised_bytes al items)
      in if adm_remainingBytes a = 0 \<or> left < adm_remainingBytes a then left else adm_remainingBytes a)"
    using assms(1)
    by (auto simp: remaining_bytes_def Let_def split: prod.splits sum.splits if_splits)
  then show ?thesis
    using assms(2) Some clampInt64_pos [of "al_GrantedBytes al - utilised_bytes al items"]
      clampInt64_le [of "al_GrantedBytes al - utilised_bytes al items"]
    by (auto simp: Let_def)
qed

section \<open>Reads change nothing\<close>

lemma sessionExists_rows:
  assumes "gorm_doc db rows" "sessionExists db w d = (r, d')"
  shows "rows d' = rows d" and "r = Inr b \<Longrightarrow> b = (\<exists>x \<in> set (rows d). where_matches w x)"
proof -
  obtain q where c: "db_Count db w d = (q, d')" and r: "r = (case q of Inl e \<Rightarrow> Inl e | Inr n \<Rightarrow> Inr (0 < n))"
    using assms(2) by (auto simp: sessionExists_def split: prod.splits sum.splits)
  show "rows d' = rows d" by (rule gorm_Count_rows [OF assms(1) c])
  show "r = Inr b \<Longrightarrow> b = (\<exists>x \<in> set (rows d). where_matches w x)"
    using gorm_Count_pos [OF assms(1)] c r by (cases q) auto
qed

lemma where_ID: "where_matches (zero_session\<lparr>ses_ID := i\<rparr>) r \<longleftrightarrow> i = 0 \<or> ses_ID r = i"
  by (simp add: where_matches_def zero_session_def)

lemma where_Key: "where_matches (zero_session\<lparr>ses_Key := k\<rparr>) r \<longleftrightarrow> k = [] \<or> ses_Key r = k"
  by (simp add: where_matches_def zero_session_def)

lemma where_account:
  "where_matches (account_where a req) r \<longleftrightarrow>
    (adm_subscriptionID a = 0 \<or> ses_Subscription r = adm_subscriptionID a) \<and>
    (rq_AccAddress req = [] \<or> ses_Address r = rq_AccAddress req)"
  by (simp add: where_matches_def account_where_def zero_session_def)

lemmas where_simps [row_simps] = where_ID where_Key where_account

lemma checkCapacity_keeps:
  assumes "gorm_doc db rows" "checkCapacity env svc db req n = (r, n')"
  shows "nd_svc n' = nd_svc n" "rows (nd_db n') = rows (nd_db n)"
proof -
  obtain q1 d1 where e1: "sessionExists db (zero_session\<lparr>ses_ID := rq_ID req\<rparr>) (nd_db n) = (q1, d1)"
    by fastforce
  obtain q2 d2 where e2: "sessionExists db (zero_session\<lparr>ses_Key := PeerKey req\<rparr>) d1 = (q2, d2)"
    by fastforce
  note rows = sessionExists_rows(1) [OF assms(1) e1] sessionExists_rows(1) [OF assms(1) e2]
  show "nd_svc n' = nd_svc n" "rows (nd_db n') = rows (nd_db n)"
    using assms(2) rows by (auto simp: checkCapacity_def e1 e2 split: if_splits sum.splits bool.splits)
qed

text \<open>A passed check means room for one more peer, and a fresh session and key.\<close>

lemma checkCapacity_Inr:
  assumes "gorm_doc db rows" "checkCapacity env svc db req n = (Inr u, n')"
  shows "int (svc_PeerCount svc (nd_svc n)) < set_MaxPeers env"
    and "rq_ID req \<notin> ses_ID ` set (rows (nd_db n))"
    and "PeerKey req \<notin> ses_Key ` set (rows (nd_db n))"
proof -
  obtain q1 d1 where e1: "sessionExists db (zero_session\<lparr>ses_ID := rq_ID req\<rparr>) (nd_db n) = (q1, d1)"
    by fastforce
  obtain q2 d2 where e2: "sessionExists db (zero_session\<lparr>ses_Key := PeerKey req\<rparr>) d1 = (q2, d2)"
    by fastforce
  have free: "int (svc_PeerCount svc (nd_svc n)) < set_MaxPeers env" and "q1 = Inr False" "q2 = Inr False"
    using assms(2) by (auto simp: checkCapacity_def e1 e2 split: if_splits sum.splits bool.splits)
  then have n1: "\<not> (\<exists>x \<in> set (rows (nd_db n)). where_matches (zero_session\<lparr>ses_ID := rq_ID req\<rparr>) x)"
    and n2: "\<not> (\<exists>x \<in> set (rows (nd_db n)). where_matches (zero_session\<lparr>ses_Key := PeerKey req\<rparr>) x)"
    using sessionExists_rows(1) [OF assms(1) e1] sessionExists_rows(2) [OF assms(1) e1, of False]
      sessionExists_rows(2) [OF assms(1) e2, of False] by simp_all
  show "int (svc_PeerCount svc (nd_svc n)) < set_MaxPeers env" by (rule free)
  show "rq_ID req \<notin> ses_ID ` set (rows (nd_db n))" using n1 by (auto simp: where_ID)
  show "PeerKey req \<notin> ses_Key ` set (rows (nd_db n))" using n2 by (auto simp: where_Key)
qed

section \<open>Eviction and admission over any service that keeps the contract\<close>

text \<open>Rows written by the admission of non-empty peer data.\<close>

definition keyed :: "session list \<Rightarrow> bool" where
  "keyed rs \<longleftrightarrow> (\<forall>r \<in> set rs. \<exists>d. d \<noteq> [] \<and> ses_Key r = session_key d)"

lemma new_row_fields [simp, row_simps]:
  "ses_ID (new_row req a m) = rq_ID req" "ses_Key (new_row req a m) = PeerKey req"
  "ses_Address (new_row req a m) = rq_AccAddress req" "ses_Available (new_row req a m) = m"
  "ses_Subscription (new_row req a m) = adm_subscriptionID a"
  "ses_Upload (new_row req a m) = ses_BaseUpload (new_row req a m)"
  "ses_Download (new_row req a m) = ses_BaseDownload (new_row req a m)"
  "ses_BaseUpload (new_row req a m) = clampInt64 (cs_UploadBytes (adm_session a))"
  "ses_BaseDownload (new_row req a m) = clampInt64 (cs_DownloadBytes (adm_session a))"
  "ses_BaseDuration (new_row req a m) = cs_Duration (adm_session a)"
  by (simp_all add: new_row_def Let_def zero_session_def)

context vpn_service
begin

lemma evict_any:
  assumes "inv s" "evict svc items s = (r, s')"
  shows "inv s' \<and> keys s' \<subseteq> keys s"
proof -
  have "inv (snd (evict svc items s)) \<and> keys (snd (evict svc items s)) \<subseteq> keys s"
    unfolding evict_def
  proof (rule for_each_err_invariant [where P = "\<lambda>t. inv t \<and> keys t \<subseteq> keys s"])
    fix x t assume "inv t \<and> keys t \<subseteq> keys s"
    then show "inv (snd (ctx_RemovePeerIfExists svc (ses_Key x) t)) \<and>
        keys (snd (ctx_RemovePeerIfExists svc (ses_Key x) t)) \<subseteq> keys s"
      using ctx_RemovePeerIfExists_any [of t "ses_Key x"] by (metis order_trans prod.collapse)
  qed (simp add: assms)
  then show ?thesis using assms(2) by simp
qed

lemma evict_exact:
  assumes "inv s" "evict svc items s = (ok, s')" "keyed items"
  shows "keys s' = keys s - ses_Key ` set items"
  using assms
proof (induction items arbitrary: s)
  case (Cons x xs)
  obtain q t where e: "ctx_RemovePeerIfExists svc (ses_Key x) s = (q, t)" by fastforce
  obtain d where d: "d \<noteq> []" "ses_Key x = session_key d" using Cons.prems(3) by (auto simp: keyed_def)
  have q: "q = ok" and rest: "evict svc xs t = (ok, s')"
    using Cons.prems(2) e by (auto simp: evict_def split: sum.splits)
  have "inv t" using ctx_RemovePeerIfExists_any [OF Cons.prems(1) e] by simp
  moreover have "keys t = keys s - {ses_Key x}"
    using ctx_RemovePeerIfExists_law [OF Cons.prems(1) d(1)] e q d(2) by simp
  moreover have "keyed xs" using Cons.prems(3) by (simp add: keyed_def)
  ultimately show ?case using Cons.IH [OF _ rest] by auto
qed (simp add: evict_def)

lemma add_and_record_law:
  assumes doc: "gorm_doc db rows" and inv: "inv (nd_svc n)" and id: "rq_ID req \<noteq> 0"
    and fresh: "readd \<or> PeerKey req \<notin> keys (nd_svc n)"
    and run: "add_and_record svc db req a m n = (r, n')"
  shows "inv (nd_svc n')"
    and "keys (nd_svc n') \<subseteq> insert (PeerKey req) (keys (nd_svc n))"
    and "rows_inv (rows (nd_db n)) \<Longrightarrow> rows_inv (rows (nd_db n'))"
    and "r = Inr x \<Longrightarrow> keys (nd_svc n') = insert (PeerKey req) (keys (nd_svc n)) \<and>
      (\<exists>t. rows (nd_db n') = rows (nd_db n) @ [(new_row req a m)\<lparr>ses_CreatedAt := t, ses_UpdatedAt := t\<rparr>])"
    and "r = Inl e \<Longrightarrow> rows (nd_db n') = rows (nd_db n)"
proof -
  obtain q s where add: "svc_AddPeer svc (rq_PeerData req) (nd_svc n) = (q, s)" by fastforce
  obtain c d where cr: "db_Create db (new_row req a m) (nd_db n) = (c, d)" by fastforce
  obtain v s' where rm: "svc_RemovePeer svc (rq_PeerData req) s = (v, s')" by fastforce
  have fresh': "readd \<or> session_key (rq_PeerData req) \<notin> keys (nd_svc n)" using fresh by (simp add: PeerKey_def)
  have rows_inv: "rows_inv (rows (nd_db n)) \<Longrightarrow> rows_inv (rows d)"
    using rows_inv_Create [OF doc _ cr] id by simp
  have all: "inv (nd_svc n') \<and> keys (nd_svc n') \<subseteq> insert (PeerKey req) (keys (nd_svc n)) \<and>
      (rows_inv (rows (nd_db n)) \<longrightarrow> rows_inv (rows (nd_db n'))) \<and>
      (\<forall>x. r = Inr x \<longrightarrow> keys (nd_svc n') = insert (PeerKey req) (keys (nd_svc n)) \<and>
        (\<exists>t. rows (nd_db n') = rows (nd_db n) @ [(new_row req a m)\<lparr>ses_CreatedAt := t, ses_UpdatedAt := t\<rparr>])) \<and>
      (\<forall>e. r = Inl e \<longrightarrow> rows (nd_db n') = rows (nd_db n))"
  proof (cases q)
    case (Inl e)
    then have "n' = n\<lparr>nd_svc := s\<rparr>" "r = Inl (newAPIError 500 10 e)"
      using run add by (simp_all add: add_and_record_def)
    then show ?thesis using AddPeer_Inl [OF inv fresh'] add Inl by auto
  next
    case (Inr b)
    then have s: "inv s" "keys s = insert (PeerKey req) (keys (nd_svc n))"
      using AddPeer_Inr [OF inv fresh'] add by (auto simp: PeerKey_def)
    show ?thesis
    proof (cases c)
      case (Inl e)
      then have "n' = n\<lparr>nd_svc := s', nd_db := d\<rparr>" "r = Inl (newAPIError 500 10 e)"
        using run add cr rm Inr by (simp_all add: add_and_record_def)
      then show ?thesis
        using RemovePeer_law [OF s(1) rm] s(2) gorm_Create_err [OF doc] cr Inl rows_inv by auto
    next
      case (Inr u)
      then have n': "n' = n\<lparr>nd_svc := s, nd_db := d\<rparr>" and r: "\<exists>x. r = Inr x"
        using run add cr rm \<open>q = Inr b\<close> by (auto simp: add_and_record_def)
      have "db_Create db (new_row req a m) (nd_db n) = (ok, d)" using cr Inr by simp
      from gorm_Create_ok [OF doc _ this] show ?thesis
        using n' r s rows_inv id by auto
    qed
  qed
  show "inv (nd_svc n')" "keys (nd_svc n') \<subseteq> insert (PeerKey req) (keys (nd_svc n))"
    "rows_inv (rows (nd_db n)) \<Longrightarrow> rows_inv (rows (nd_db n'))"
    "r = Inr x \<Longrightarrow> keys (nd_svc n') = insert (PeerKey req) (keys (nd_svc n)) \<and>
      (\<exists>t. rows (nd_db n') = rows (nd_db n) @ [(new_row req a m)\<lparr>ses_CreatedAt := t, ses_UpdatedAt := t\<rparr>])"
    "r = Inl e \<Longrightarrow> rows (nd_db n') = rows (nd_db n)"
    using all by auto
qed

text \<open>A peer whose row could not be written is taken out again.\<close>

lemma add_and_record_undo:
  assumes doc: "gorm_doc db rows" and inv: "inv (nd_svc n)" and d: "rq_PeerData req \<noteq> []"
    and run: "add_and_record svc db req a m n = (Inl e, n')"
    and fresh: "PeerKey req \<notin> keys (nd_svc n)"
    and served: "PeerKey req \<in> keys (nd_svc n')"
  shows "\<exists>s peer s' err. svc_AddPeer svc (rq_PeerData req) (nd_svc n) = (Inr peer, s) \<and>
    svc_RemovePeer svc (rq_PeerData req) s = (Inl err, s')"
proof -
  obtain q s where add: "svc_AddPeer svc (rq_PeerData req) (nd_svc n) = (q, s)" by fastforce
  obtain c d where cr: "db_Create db (new_row req a m) (nd_db n) = (c, d)" by fastforce
  obtain v s' where rm: "svc_RemovePeer svc (rq_PeerData req) s = (v, s')" by fastforce
  have fresh': "readd \<or> session_key (rq_PeerData req) \<notin> keys (nd_svc n)" using fresh by (simp add: PeerKey_def)
  show ?thesis
  proof (cases q)
    case (Inl e')
    then have "nd_svc n' = s" using run add by (auto simp: add_and_record_def)
    then show ?thesis using AddPeer_Inl [OF inv fresh'] add Inl fresh served by auto
  next
    case (Inr b)
    then have s: "inv s" using AddPeer_Inr [OF inv fresh'] add by auto
    have n': "nd_svc n' = s'"
      using run add cr rm Inr by (auto simp: add_and_record_def split: sum.splits)
    show ?thesis
    proof (cases v)
      case (Inr u)
      then have "svc_RemovePeer svc (rq_PeerData req) s = (ok, s')" using rm by simp
      from RemovePeer_Inr [OF s assms(3) this] show ?thesis using served n' by (simp add: PeerKey_def)
    qed (use add rm Inr in auto)
  qed
qed

text \<open>The locked phase: what it reaches before the peer is added, and its outcome.\<close>

lemma admit_locked_cases:
  assumes doc: "gorm_doc db rows" and inv: "inv (nd_svc n)"
    and run: "admit_locked env svc db req a n = (r, n')"
  obtains
    (refused) e where "r = Inl e" "inv (nd_svc n')" "keys (nd_svc n') \<subseteq> keys (nd_svc n)"
      "rows (nd_db n') = rows (nd_db n)"
  | (add) m items s d d1 d2 where "int (svc_PeerCount svc (nd_svc n)) < set_MaxPeers env"
      "rq_ID req \<notin> ses_ID ` set (rows (nd_db n))" "PeerKey req \<notin> ses_Key ` set (rows (nd_db n))"
      "remaining_bytes db req a d1 = (Inr m, d2)" "rows d1 = rows (nd_db n)"
      "set items = {x \<in> set (rows (nd_db n)). where_matches (account_where a req) x}"
      "evict svc items (nd_svc n) = (ok, s)" "inv s" "keys s \<subseteq> keys (nd_svc n)"
      "rows d = rows (nd_db n)"
      "add_and_record svc db req a m (n\<lparr>nd_svc := s, nd_db := d\<rparr>) = (r, n')"
proof -
  obtain q n1 where c: "checkCapacity env svc db req n = (q, n1)" by fastforce
  note keep = checkCapacity_keeps [OF doc c]
  show thesis
  proof (cases q)
    case (Inl e)
    then have "r = Inl e" "n' = n1" using run c by (simp_all add: admit_locked_def)
    then show thesis using refused keep inv by simp
  next
    case (Inr u)
    note free = checkCapacity_Inr [OF doc c [unfolded Inr]]
    obtain v d2 where rb: "remaining_bytes db req a (nd_db n1) = (v, d2)" by fastforce
    note rb_rows = remaining_bytes_rows [OF doc rb]
    show thesis
    proof (cases v)
      case (Inl e)
      then have "r = Inl e" "n' = n1\<lparr>nd_db := d2\<rparr>" using run c rb Inr by (simp_all add: admit_locked_def)
      then show thesis using refused keep inv rb_rows by simp
    next
      case m: (Inr m)
      obtain f d3 where f: "db_Find db (account_where a req) d2 = (f, d3)" by fastforce
      note f_rows = gorm_Find_rows [OF doc f]
      show thesis
      proof (cases f)
        case (Inl e)
        then have "r = Inl (newAPIError 500 9 e)" "n' = n1\<lparr>nd_db := d3\<rparr>"
          using run c rb f Inr m by (simp_all add: admit_locked_def)
        then show thesis using refused keep inv rb_rows f_rows by simp
      next
        case items: (Inr items)
        obtain g s where ev: "evict svc items (nd_svc n1) = (g, s)" by fastforce
        have ev': "inv s \<and> keys s \<subseteq> keys (nd_svc n)" using evict_any [OF _ ev] keep inv by simp
        show thesis
        proof (cases g)
          case (Inl e)
          then have "r = Inl (newAPIError 500 9 e)" "n' = n1\<lparr>nd_svc := s, nd_db := d3\<rparr>"
            using run c rb f ev Inr m items by (simp_all add: admit_locked_def)
          then show thesis using refused keep ev' rb_rows f_rows by simp
        next
          case g: (Inr g')
          have "add_and_record svc db req a m (n1\<lparr>nd_svc := s, nd_db := d3\<rparr>) = (r, n')"
            using run c rb f ev Inr m items g by (simp add: admit_locked_def)
          moreover have "n1\<lparr>nd_svc := s, nd_db := d3\<rparr> = n\<lparr>nd_svc := s, nd_db := d3\<rparr>" by simp
          ultimately show thesis
            using add [OF free rb [unfolded m], of items s d3] keep rb_rows f_rows ev' ev g
              gorm_Find_set [OF doc f [unfolded items]] by simp
        qed
      qed
    qed
  qed
qed

lemma admit_locked_inv:
  assumes doc: "gorm_doc db rows" and inv: "inv (nd_svc n)" and id: "rq_ID req \<noteq> 0"
    and fresh: "PeerKey req \<in> ses_Key ` set (rows (nd_db n)) \<or> readd \<or> PeerKey req \<notin> keys (nd_svc n)"
    and run: "admit_locked env svc db req a n = (r, n')"
  shows "inv (nd_svc n')"
    and "rows_inv (rows (nd_db n)) \<Longrightarrow> rows_inv (rows (nd_db n'))"
    and "keys (nd_svc n') \<subseteq> insert (PeerKey req) (keys (nd_svc n))"
    and "int (svc_PeerCount svc (nd_svc n)) \<le> set_MaxPeers env \<Longrightarrow>
      int (svc_PeerCount svc (nd_svc n')) \<le> set_MaxPeers env"
proof -
  have "inv (nd_svc n') \<and> (rows_inv (rows (nd_db n)) \<longrightarrow> rows_inv (rows (nd_db n'))) \<and>
    keys (nd_svc n') \<subseteq> insert (PeerKey req) (keys (nd_svc n)) \<and>
    (int (card (keys (nd_svc n))) \<le> set_MaxPeers env \<longrightarrow> int (card (keys (nd_svc n'))) \<le> set_MaxPeers env)"
    using doc inv run
  proof (cases rule: admit_locked_cases)
    case (refused e)
    then show ?thesis using card_mono [OF finite_keys [OF inv] refused(3)] by auto
  next
    case (add m items s d d1 d2)
    have pre: "inv (nd_svc (n\<lparr>nd_svc := s, nd_db := d\<rparr>))"
      "readd \<or> PeerKey req \<notin> keys (nd_svc (n\<lparr>nd_svc := s, nd_db := d\<rparr>))" using fresh add(3,8,9) by auto
    note law = add_and_record_law [OF doc pre(1) id pre(2) add(11)]
    have "card (keys s) \<le> card (keys (nd_svc n))" by (rule card_mono [OF finite_keys [OF inv] add(9)])
    moreover have "card (keys (nd_svc n')) \<le> Suc (card (keys s))"
      using law(2) add(8) card_mono [of "insert (PeerKey req) (keys s)" "keys (nd_svc n')"]
        card_insert_le_Suc [of "PeerKey req" "keys s"] by (simp add: finite_keys)
    ultimately have "int (card (keys (nd_svc n'))) \<le> set_MaxPeers env"
      using add(1) by (simp add: PeerCount_law inv)
    then show ?thesis using law(1,2,3) add(8,9,10) by auto
  qed
  then show "inv (nd_svc n')" "rows_inv (rows (nd_db n)) \<Longrightarrow> rows_inv (rows (nd_db n'))"
    "keys (nd_svc n') \<subseteq> insert (PeerKey req) (keys (nd_svc n))"
    "int (svc_PeerCount svc (nd_svc n)) \<le> set_MaxPeers env \<Longrightarrow>
      int (svc_PeerCount svc (nd_svc n')) \<le> set_MaxPeers env"
    by (auto simp: PeerCount_law inv)
qed

text \<open>The outcome of an admission: the new row, the served peers and the cap.\<close>

lemma admit_locked_success:
  assumes doc: "gorm_doc db rows" and inv: "inv (nd_svc n)" and id: "rq_ID req \<noteq> 0"
    and keyed: "keyed (rows (nd_db n))" and cap: "0 \<le> adm_remainingBytes a"
    and fresh: "PeerKey req \<in> ses_Key ` set (rows (nd_db n)) \<or> readd \<or> PeerKey req \<notin> keys (nd_svc n)"
    and run: "admit_locked env svc db req a n = (Inr x, n')"
  shows "\<exists>m t. rows (nd_db n') = rows (nd_db n) @ [(new_row req a m)\<lparr>ses_CreatedAt := t, ses_UpdatedAt := t\<rparr>] \<and>
    0 \<le> m \<and> (0 < adm_remainingBytes a \<longrightarrow> 0 < m \<and> m \<le> adm_remainingBytes a) \<and>
    (\<forall>al. adm_alloc a = Some al \<longrightarrow> 0 < m)"
    and "keys (nd_svc n') = insert (PeerKey req)
      (keys (nd_svc n) - ses_Key ` {y \<in> set (rows (nd_db n)). where_matches (account_where a req) y})"
proof -
  have "(\<exists>m t. rows (nd_db n') = rows (nd_db n) @ [(new_row req a m)\<lparr>ses_CreatedAt := t, ses_UpdatedAt := t\<rparr>] \<and>
      0 \<le> m \<and> (0 < adm_remainingBytes a \<longrightarrow> 0 < m \<and> m \<le> adm_remainingBytes a) \<and>
      (\<forall>al. adm_alloc a = Some al \<longrightarrow> 0 < m)) \<and>
    keys (nd_svc n') = insert (PeerKey req)
      (keys (nd_svc n) - ses_Key ` {y \<in> set (rows (nd_db n)). where_matches (account_where a req) y})"
    using doc inv run
  proof (cases rule: admit_locked_cases)
    case (add m items s d d1 d2)
    have pre: "inv (nd_svc (n\<lparr>nd_svc := s, nd_db := d\<rparr>))"
      "readd \<or> PeerKey req \<notin> keys (nd_svc (n\<lparr>nd_svc := s, nd_db := d\<rparr>))" using fresh add(3,8,9) by auto
    note law = add_and_record_law(4) [OF doc pre(1) id pre(2) add(11) refl]
    have "keyed items" using keyed add(6) by (auto simp: keyed_def)
    then have "keys s = keys (nd_svc n) - ses_Key ` set items" by (rule evict_exact [OF inv add(7)])
    moreover have "0 \<le> m \<and> (0 < adm_remainingBytes a \<longrightarrow> 0 < m \<and> m \<le> adm_remainingBytes a) \<and>
      (\<forall>al. adm_alloc a = Some al \<longrightarrow> 0 < m)"
      using remaining_bytes_cap [OF add(4) cap] by blast
    ultimately show ?thesis using law add(6,8,10) by auto
  qed simp
  then show "\<exists>m t. rows (nd_db n') = rows (nd_db n) @ [(new_row req a m)\<lparr>ses_CreatedAt := t, ses_UpdatedAt := t\<rparr>] \<and>
      0 \<le> m \<and> (0 < adm_remainingBytes a \<longrightarrow> 0 < m \<and> m \<le> adm_remainingBytes a) \<and>
      (\<forall>al. adm_alloc a = Some al \<longrightarrow> 0 < m)"
    "keys (nd_svc n') = insert (PeerKey req)
      (keys (nd_svc n) - ses_Key ` {y \<in> set (rows (nd_db n)). where_matches (account_where a req) y})"
    by auto
qed

text \<open>A refusal leaves the table as it was, and serves no peer it did not serve before, unless the
  peer's row could not be written and its removal failed as well.\<close>

lemma admit_locked_refusal:
  assumes doc: "gorm_doc db rows" and inv: "inv (nd_svc n)" and id: "rq_ID req \<noteq> 0"
    and fresh: "PeerKey req \<in> ses_Key ` set (rows (nd_db n)) \<or> readd \<or> PeerKey req \<notin> keys (nd_svc n)"
    and run: "admit_locked env svc db req a n = (Inl e, n')"
  shows "rows (nd_db n') = rows (nd_db n)"
    and "rq_PeerData req \<noteq> [] \<Longrightarrow> \<not> keys (nd_svc n') \<subseteq> keys (nd_svc n) \<Longrightarrow>
      \<exists>s peer s1 s2 err. svc_AddPeer svc (rq_PeerData req) s = (Inr peer, s1) \<and>
        svc_RemovePeer svc (rq_PeerData req) s1 = (Inl err, s2)"
proof -
  have "rows (nd_db n') = rows (nd_db n) \<and> (rq_PeerData req \<noteq> [] \<longrightarrow> \<not> keys (nd_svc n') \<subseteq> keys (nd_svc n) \<longrightarrow>
      (\<exists>s peer s1 s2 err. svc_AddPeer svc (rq_PeerData req) s = (Inr peer, s1) \<and>
        svc_RemovePeer svc (rq_PeerData req) s1 = (Inl err, s2)))"
    using doc inv run
  proof (cases rule: admit_locked_cases)
    case (add m items s d d1 d2)
    have pre: "inv (nd_svc (n\<lparr>nd_svc := s, nd_db := d\<rparr>))"
      "readd \<or> PeerKey req \<notin> keys (nd_svc (n\<lparr>nd_svc := s, nd_db := d\<rparr>))" using fresh add(3,8,9) by auto
    note law = add_and_record_law(2,5) [OF doc pre(1) id pre(2) add(11)]
    have "rows (nd_db n') = rows (nd_db n)" using law(2) add(8,10) by simp
    moreover have "\<exists>s peer s1 s2 err. svc_AddPeer svc (rq_PeerData req) s = (Inr peer, s1) \<and>
        svc_RemovePeer svc (rq_PeerData req) s1 = (Inl err, s2)"
      if "rq_PeerData req \<noteq> []" "\<not> keys (nd_svc n') \<subseteq> keys (nd_svc n)"
    proof -
      have "PeerKey req \<in> keys (nd_svc n')" "PeerKey req \<notin> keys s" using that(2) law(1) add(8,9) by auto
      then show ?thesis using add_and_record_undo [OF doc _ that(1) add(11)] add(8) by fastforce
    qed
    ultimately show ?thesis by blast
  qed auto
  then show "rows (nd_db n') = rows (nd_db n)"
    "rq_PeerData req \<noteq> [] \<Longrightarrow> \<not> keys (nd_svc n') \<subseteq> keys (nd_svc n) \<Longrightarrow>
      \<exists>s peer s1 s2 err. svc_AddPeer svc (rq_PeerData req) s = (Inr peer, s1) \<and>
        svc_RemovePeer svc (rq_PeerData req) s1 = (Inl err, s2)"
    by auto
qed

end

end
