(* ===== verification/Net_Addr.thy ===== *)
theory Net_Addr
  imports Codec
begin

text \<open>
  Go's \<^verbatim>\<open>net.IP\<close> and \<^verbatim>\<open>net.IPNet\<close> as the program uses them: an address is a byte list of
  length 4 or 16, a network an address with a mask. Parsing and printing follow
  \<^verbatim>\<open>net/netip\<close>; addresses with a zone are refused, as \<^verbatim>\<open>net.ParseIP\<close> and \<^verbatim>\<open>net.ParseCIDR\<close> do.
\<close>

section \<open>Addresses, masks and networks\<close>

record ipnet =
  net_IP :: bytes
  net_Mask :: bytes

definition v4InV6Prefix :: bytes where
  "v4InV6Prefix = replicate 10 0 @ [255, 255]"

definition ip_To4 :: "bytes \<Rightarrow> bytes option" where
  "ip_To4 ip =
    (if length ip = 4 then Some ip
     else if length ip = 16 \<and> take 12 ip = v4InV6Prefix then Some (drop 12 ip)
     else None)"

text \<open>The idiom \<^verbatim>\<open>if x := ip.To4(); x != nil { ip = x }\<close>.\<close>

definition v4_or_self :: "bytes \<Rightarrow> bytes" where
  "v4_or_self ip = (case ip_To4 ip of Some x \<Rightarrow> x | None \<Rightarrow> ip)"

definition ip_To16 :: "bytes \<Rightarrow> bytes" where
  "ip_To16 ip =
    (if length ip = 4 then v4InV6Prefix @ ip else if length ip = 16 then ip else [])"

text \<open>\<^verbatim>\<open>net.CIDRMask(ones, 8 * n)\<close>, byte by byte.\<close>

primrec CIDRMask :: "nat \<Rightarrow> nat \<Rightarrow> bytes" where
  "CIDRMask ones 0 = []"
| "CIDRMask ones (Suc n) =
    (if 8 \<le> ones then 255 # CIDRMask (ones - 8) n
     else NOT (drop_bit ones 255) # CIDRMask 0 n)"

definition masked :: "bytes \<Rightarrow> bytes \<Rightarrow> bytes" where
  "masked ip m = map2 (AND) ip m"

text \<open>\<^verbatim>\<open>IP.Mask\<close>.\<close>

definition ip_Mask :: "bytes \<Rightarrow> bytes \<Rightarrow> bytes" where
  "ip_Mask ip m =
    (let m' = (if length m = 16 \<and> length ip = 4 \<and> take 12 m = replicate 12 255 then drop 12 m else m);
         ip' = (if length m' = 4 \<and> length ip = 16 \<and> take 12 ip = v4InV6Prefix then drop 12 ip else ip)
     in if length ip' = length m' then masked ip' m' else [])"

definition networkNumberAndMask :: "ipnet \<Rightarrow> bytes \<times> bytes" where
  "networkNumberAndMask n =
    (let ip = v4_or_self (net_IP n);
         m = net_Mask n
     in if length ip \<notin> {4, 16} then ([], [])
        else if length m = length ip then (ip, m)
        else if length m = 16 \<and> length ip = 4 then (ip, drop 12 m)
        else ([], []))"

definition net_Contains :: "ipnet \<Rightarrow> bytes \<Rightarrow> bool" where
  "net_Contains n ip =
    (let (nn, m) = networkNumberAndMask n;
         x = v4_or_self ip
     in length x = length nn \<and> masked nn m = masked x m)"

definition ip_IsPrivate :: "bytes \<Rightarrow> bool" where
  "ip_IsPrivate ip =
    (case ip_To4 ip of
       Some q \<Rightarrow> q ! 0 = 10 \<or> (q ! 0 = 172 \<and> q ! 1 AND 240 = 16) \<or> (q ! 0 = 192 \<and> q ! 1 = 168)
     | None \<Rightarrow> length ip = 16 \<and> ip ! 0 AND 254 = 252)"

definition ip_Equal :: "bytes \<Rightarrow> bytes \<Rightarrow> bool" where
  "ip_Equal a b \<longleftrightarrow>
    (if length a = length b then a = b
     else if length a = 4 \<and> length b = 16 then take 12 b = v4InV6Prefix \<and> a = drop 12 b
     else if length a = 16 \<and> length b = 4 then take 12 a = v4InV6Prefix \<and> drop 12 a = b
     else False)"

section \<open>Text\<close>

definition parse_octet :: "string \<Rightarrow> byte option" where
  "parse_octet s =
    (if 1 < length s \<and> hd s = CHR ''0'' then None
     else case parse_digits s of
            None \<Rightarrow> None
          | Some n \<Rightarrow> if n \<le> 255 then Some (of_nat n) else None)"

definition parse_ipv4 :: "string \<Rightarrow> bytes option" where
  "parse_ipv4 s =
    (let parts = map parse_octet (split_on (CHR ''.'') s) in
     if length parts = 4 \<and> None \<notin> set parts then Some (map the parts) else None)"

text \<open>The loop of \<^verbatim>\<open>netip.parseIPv6\<close>: bytes read so far, where the ellipsis stood, the rest
  of the text.\<close>

function parse_ipv6_loop ::
  "bytes \<Rightarrow> nat option \<Rightarrow> string \<Rightarrow> (bytes \<times> nat option \<times> string) option" where
  "parse_ipv6_loop acc ell s =
    (if 16 \<le> length acc then Some (acc, ell, s)
     else
       let d = takeWhile (\<lambda>c. hex_val c \<noteq> None) s; s1 = drop (length d) s in
       if d = [] \<or> 4 < length d then None
       else if s1 \<noteq> [] \<and> hd s1 = CHR ''.'' then
         (if (ell = None \<and> length acc \<noteq> 12) \<or> 16 < length acc + 4 then None
          else map_option (\<lambda>q. (acc @ q, ell, [])) (parse_ipv4 s))
       else
         let v = foldl (\<lambda>a c. 16 * a + the (hex_val c)) 0 d; acc' = acc @ be_bytes 2 v in
         case s1 of
           [] \<Rightarrow> Some (acc', ell, [])
         | c # s2 \<Rightarrow>
             if c \<noteq> CHR '':'' \<or> s2 = [] then None
             else if hd s2 = CHR '':'' then
               (if ell \<noteq> None then None
                else if tl s2 = [] then Some (acc', Some (length acc'), [])
                else parse_ipv6_loop acc' (Some (length acc')) (tl s2))
             else parse_ipv6_loop acc' ell s2)"
  by pat_completeness auto

lemma drop_Cons_length: "c # t = drop n s \<Longrightarrow> length t < length s"
  by (metis Suc_le_lessD length_Cons length_drop diff_le_self)

termination parse_ipv6_loop
proof (relation "measure (\<lambda>(acc, ell, s). length s)", goal_cases)
  case (2 acc ell s d s1 v acc' c s2)
  then have "length s2 < length s" using drop_Cons_length [of c s2 "length d" s] by metis
  then show ?case by simp
next
  case (3 acc ell s d s1 v acc' c s2)
  then have "length s2 < length s" using drop_Cons_length [of c s2 "length d" s] by metis
  then show ?case by simp
qed simp

declare parse_ipv6_loop.simps [simp del]

definition parse_ipv6 :: "string \<Rightarrow> bytes option" where
  "parse_ipv6 s =
    (if CHR ''%'' \<in> set s then None
     else if s = ''::'' then Some (replicate 16 0)
     else
       let start = (if take 2 s = ''::'' then parse_ipv6_loop [] (Some 0) (drop 2 s)
                    else parse_ipv6_loop [] None s)
       in case start of
            None \<Rightarrow> None
          | Some (acc, ell, rest) \<Rightarrow>
              if rest \<noteq> [] then None
              else if length acc < 16 then
                map_option (\<lambda>e. take e acc @ replicate (16 - length acc) 0 @ drop e acc) ell
              else if ell \<noteq> None then None else Some acc)"

text \<open>\<^verbatim>\<open>netip.ParseAddr\<close> without a zone: 4 or 16 bytes.\<close>

definition ParseAddr :: "string \<Rightarrow> bytes option" where
  "ParseAddr s =
    (case dropWhile (\<lambda>c. c \<notin> {CHR ''.'', CHR '':'', CHR ''%''}) s of
       [] \<Rightarrow> None
     | c # _ \<Rightarrow>
         if c = CHR ''.'' then parse_ipv4 s
         else if c = CHR '':'' then parse_ipv6 s
         else None)"

definition ParseIP :: "string \<Rightarrow> bytes option" where
  "ParseIP s = map_option ip_To16 (ParseAddr s)"

definition ParseCIDR :: "string \<Rightarrow> (bytes \<times> ipnet) option" where
  "ParseCIDR s =
    (case cut_at (CHR ''/'') s of
       None \<Rightarrow> None
     | Some (addr, bits) \<Rightarrow>
         (case (ParseAddr addr, parse_digits bits) of
            (Some ip, Some n) \<Rightarrow>
              if n \<le> 8 * length ip then
                let m = CIDRMask n (length ip); a = ip_To16 ip in
                Some (a, \<lparr>net_IP = ip_Mask a m, net_Mask = m\<rparr>)
              else None
          | _ \<Rightarrow> None))"

definition dotted :: "bytes \<Rightarrow> string" where
  "dotted q = join ''.'' (map (\<lambda>b. itoa (unat b)) q)"

text \<open>A 16-bit group in lower-case hex without leading zeros.\<close>

definition hex_group :: "byte \<Rightarrow> byte \<Rightarrow> string" where
  "hex_group h l =
    (let s = dropWhile (\<lambda>c. c = CHR ''0'') (hex_encode [h, l]) in if s = [] then ''0'' else s)"

fun byte_pairs :: "bytes \<Rightarrow> (byte \<times> byte) list" where
  "byte_pairs (a # b # rest) = (a, b) # byte_pairs rest"
| "byte_pairs _ = []"

definition zero_run :: "(byte \<times> byte) list \<Rightarrow> nat \<Rightarrow> nat" where
  "zero_run gs i = length (takeWhile (\<lambda>g. g = (0, 0)) (drop i gs))"

text \<open>The first longest run of at least two zero groups.\<close>

definition best_run :: "(byte \<times> byte) list \<Rightarrow> (nat \<times> nat) option" where
  "best_run gs =
    foldl (\<lambda>best i.
        let l = zero_run gs i; cur = (case best of None \<Rightarrow> 0 | Some (a, b) \<Rightarrow> b - a) in
        if 2 \<le> l \<and> cur < l then Some (i, i + l) else best)
      None [0..<length gs]"

definition ipv6_text :: "bytes \<Rightarrow> string" where
  "ipv6_text ip =
    (let gs = byte_pairs ip; hx = map (\<lambda>(h, l). hex_group h l) gs in
     case best_run gs of
       None \<Rightarrow> join '':'' hx
     | Some (a, b) \<Rightarrow> join '':'' (take a hx) @ ''::'' @ join '':'' (drop b hx))"

definition ip_String :: "bytes \<Rightarrow> string" where
  "ip_String ip =
    (case ip_To4 ip of
       Some q \<Rightarrow> dotted q
     | None \<Rightarrow>
         if ip = [] then ''<nil>''
         else if length ip = 16 then ipv6_text ip
         else ''?'' @ hex_encode ip)"

section \<open>Masks and membership\<close>

lemma length_CIDRMask [simp, net_simps]: "length (CIDRMask ones n) = n"
  by (induction n arbitrary: ones) auto

lemma length_masked [simp, net_simps]: "length (masked ip m) = min (length ip) (length m)"
  by (simp add: masked_def)

lemma CIDRMask_zero: "CIDRMask 0 n = replicate n 0"
  by (induction n) simp_all

lemma masked_Cons [simp]: "masked (a # x) (c # m) = (a AND c) # masked x m"
  by (simp add: masked_def)

lemma masked_Nil [simp]: "masked [] m = []"
  by (simp add: masked_def)

lemma masked_zero: "length x = n \<Longrightarrow> masked x (replicate n 0) = replicate n 0"
proof (induction n arbitrary: x)
  case (Suc n)
  then show ?case by (cases x) auto
qed (simp add: masked_def)

lemma byte_mask_of_ones:
  assumes "ones < 8" shows "drop_bit ones (255 :: byte) = mask (8 - ones)"
proof -
  from assms consider "ones = 0" | "ones = 1" | "ones = 2" | "ones = 3" | "ones = 4"
    | "ones = 5" | "ones = 6" | "ones = 7" by linarith
  then show ?thesis by cases (simp_all add: mask_eq_exp_minus_1)
qed

lemma and_not_mask_eq_iff:
  "(a AND NOT (mask k) :: byte) = b AND NOT (mask k) \<longleftrightarrow> drop_bit k a = drop_bit k b"
proof
  assume h: "(a AND NOT (mask k) :: byte) = b AND NOT (mask k)"
  show "drop_bit k a = drop_bit k b"
  proof (rule bit_word_eqI)
    fix n
    from h have "bit (a AND NOT (mask k)) (k + n) = bit (b AND NOT (mask k)) (k + n)" by simp
    then show "bit (drop_bit k a) n = bit (drop_bit k b) n"
      by (auto simp: bit_simps dest: bit_imp_le_length)
  qed
next
  assume h: "drop_bit k a = drop_bit k b"
  show "(a AND NOT (mask k) :: byte) = b AND NOT (mask k)"
  proof (rule bit_word_eqI)
    fix n assume "n < LENGTH(8)"
    from h have "bit (drop_bit k a) (n - k) = bit (drop_bit k b) (n - k)" by simp
    then show "bit (a AND NOT (mask k)) n = bit (b AND NOT (mask k)) n" by (auto simp: bit_simps)
  qed
qed

lemma byte_mask_eq_iff:
  assumes "ones < 8"
  shows "(a AND NOT (drop_bit ones 255) :: byte) = b AND NOT (drop_bit ones 255) \<longleftrightarrow>
    unat a div 2 ^ (8 - ones) = unat b div 2 ^ (8 - ones)"
proof -
  have "drop_bit k a = drop_bit k b \<longleftrightarrow> unat a div 2 ^ k = unat b div 2 ^ k" for k
    unfolding word_unat_eq_iff unat_drop_bit_eq by (simp only: drop_bit_eq_div)
  then show ?thesis
    unfolding byte_mask_of_ones [OF assms] and_not_mask_eq_iff by blast
qed

lemma byte_and_255 [simp, net_simps]: "(x :: byte) AND 255 = x"
proof -
  have "(255 :: byte) = - 1" by simp
  then show ?thesis by (simp only: and.right_neutral)
qed

lemma digit_split:
  assumes "r < M" "s < (M :: nat)"
  shows "u * M + r = v * M + s \<longleftrightarrow> u = v \<and> r = s"
proof
  assume "u * M + r = v * M + s"
  then have "(u * M + r) div M = (v * M + s) div M" "(u * M + r) mod M = (v * M + s) mod M"
    by simp_all
  with assms show "u = v \<and> r = s" by simp
qed simp

lemma pow256: "(256 :: nat) ^ n = 2 ^ (8 * n)"
  by (simp add: power_mult)

lemma masked_eq_iff:
  assumes "length a = n" "length b = n" "ones \<le> 8 * n"
  shows "masked a (CIDRMask ones n) = masked b (CIDRMask ones n) \<longleftrightarrow>
    big_of_bytes a div 2 ^ (8 * n - ones) = big_of_bytes b div 2 ^ (8 * n - ones)"
  using assms
proof (induction n arbitrary: ones a b)
  case (Suc n)
  then obtain x xs y ys where ab: "a = x # xs" "b = y # ys"
      and len: "length xs = n" "length ys = n"
    by (metis length_Suc_conv)
  show ?case
  proof (cases "8 \<le> ones")
    case True
    define k where "k = 8 * n - (ones - 8)"
    define M where "M = (2 :: nat) ^ (ones - 8)"
    have e: "8 * Suc n - ones = k" "(256 :: nat) ^ n = M * 2 ^ k"
      using True Suc.prems(3) by (simp_all add: k_def M_def pow256 flip: power_add)
    have small: "big_of_bytes zs div 2 ^ k < M" if "length zs = n" for zs
      using big_of_bytes_less [of zs] that e(2) by (simp add: less_mult_imp_div_less)
    have split: "(unat z * 256 ^ n + r) div 2 ^ k = unat z * M + r div 2 ^ k" for z :: byte and r
      by (simp add: e(2) flip: mult.assoc)
    have "masked xs (CIDRMask (ones - 8) n) = masked ys (CIDRMask (ones - 8) n) \<longleftrightarrow>
        big_of_bytes xs div 2 ^ k = big_of_bytes ys div 2 ^ k"
      using Suc.IH [OF len, of "ones - 8"] Suc.prems(3) by (simp add: k_def)
    then show ?thesis
      using digit_split [OF small [OF len(1)] small [OF len(2)], of "unat x" "unat y"] True
      by (simp only: ab len e(1) split big_of_bytes.simps CIDRMask.simps masked_Cons if_True
          byte_and_255 list.inject byte_eq_iff_unat)
  next
    case False
    have e: "8 * Suc n - ones = 8 * n + (8 - ones)" using False by simp
    have "(unat z * 256 ^ n + r) div 2 ^ (8 * n + (8 - ones)) = unat z div 2 ^ (8 - ones)"
      if "r < 256 ^ n" for z :: byte and r
      using that by (simp add: power_add div_mult2_eq flip: pow256)
    then show ?thesis
      using False byte_mask_eq_iff [of ones x y] big_of_bytes_less [of xs] big_of_bytes_less [of ys]
      by (simp only: ab len e big_of_bytes.simps CIDRMask.simps masked_Cons CIDRMask_zero)
        (simp add: len masked_zero)
  qed
qed (simp add: masked_def)

lemma div_eq_interval:
  assumes "0 < k"
  shows "x div k = q \<longleftrightarrow> q * k \<le> x \<and> x < q * k + (k :: nat)"
proof -
  have "x div k = q \<longleftrightarrow> q \<le> x div k \<and> x div k < Suc q" by auto
  then show ?thesis
    using assms by (simp add: less_eq_div_iff_mult_less_eq div_less_iff_less_mult add.commute)
qed

text \<open>Membership in a prefix network is membership in an interval of addresses.\<close>

definition prefix_net :: "bytes \<Rightarrow> nat \<Rightarrow> ipnet" where
  "prefix_net ip ones =
    \<lparr>net_IP = masked ip (CIDRMask ones (length ip)), net_Mask = CIDRMask ones (length ip)\<rparr>"

lemma masked_idem [simp]: "masked (masked ip m) m = masked ip m"
  by (induction ip m rule: list_induct2') (auto simp: masked_def)

lemma masked_masked: "length ip \<le> length m \<Longrightarrow> masked (masked ip m) m = masked ip m"
  by simp

lemma v4_or_self_4 [simp]: "length ip = 4 \<Longrightarrow> v4_or_self ip = ip"
  by (simp add: v4_or_self_def ip_To4_def)

lemma v4_or_self_6: "length ip = 16 \<Longrightarrow> hd ip \<noteq> 0 \<Longrightarrow> v4_or_self ip = ip"
  by (cases ip) (auto simp: v4_or_self_def ip_To4_def v4InV6Prefix_def numeral_eq_Suc)

lemma net_Contains_prefix:
  assumes "length ip \<in> {4, 16}" "ones \<le> 8 * length ip"
    and "v4_or_self (net_IP (prefix_net ip ones)) = net_IP (prefix_net ip ones)"
    and "length x = length ip" "v4_or_self x = x"
  shows "net_Contains (prefix_net ip ones) x \<longleftrightarrow>
    big_of_bytes x div 2 ^ (8 * length ip - ones) = big_of_bytes ip div 2 ^ (8 * length ip - ones)"
proof -
  have nn: "networkNumberAndMask (prefix_net ip ones) =
      (masked ip (CIDRMask ones (length ip)), CIDRMask ones (length ip))"
    using assms(1,3) unfolding networkNumberAndMask_def prefix_net_def Let_def by auto
  have "net_Contains (prefix_net ip ones) x \<longleftrightarrow>
      masked ip (CIDRMask ones (length ip)) = masked x (CIDRMask ones (length ip))"
    using assms(4,5) by (simp add: net_Contains_def nn)
  then show ?thesis
    using masked_eq_iff [OF assms(4) refl assms(2)] by auto
qed

end
