(* ===== verification/Url.thy ===== *)
theory Url
  imports Net_Addr
begin

text \<open>
  The part of Go's \<^verbatim>\<open>net/url\<close> the node uses: \<^verbatim>\<open>url.ParseRequestURI\<close> and \<^verbatim>\<open>url.Parse\<close> down to the
  scheme and the host, and \<^verbatim>\<open>Hostname\<close> and \<^verbatim>\<open>Port\<close>. Queries and fragments are cut off and not
  looked at any further.
\<close>

record url =
  url_Scheme :: string
  url_Opaque :: string
  url_Host :: string
  url_Path :: string

definition char_code :: "char \<Rightarrow> nat" where
  "char_code c = of_char c"

definition is_ctl :: "char \<Rightarrow> bool" where
  "is_ctl c \<longleftrightarrow> char_code c < 32 \<or> char_code c = 127"

definition is_letter :: "char \<Rightarrow> bool" where
  "is_letter c \<longleftrightarrow> 97 \<le> char_code c \<and> char_code c \<le> 122 \<or> 65 \<le> char_code c \<and> char_code c \<le> 90"

definition is_digit :: "char \<Rightarrow> bool" where
  "is_digit c \<longleftrightarrow> 48 \<le> char_code c \<and> char_code c \<le> 57"

definition to_lower :: "string \<Rightarrow> string" where
  "to_lower s = map (\<lambda>c. if 65 \<le> char_code c \<and> char_code c \<le> 90 then char_of (char_code c + 32) else c) s"

text \<open>The scheme and what follows its colon; no scheme when a character cannot be part of one, and an
  error when the colon comes first.\<close>

fun scan_scheme :: "string \<Rightarrow> string \<Rightarrow> (string \<times> string) option option" where
  "scan_scheme acc [] = Some None"
| "scan_scheme acc (c # s) =
    (if is_letter c then scan_scheme (acc @ [c]) s
     else if is_digit c \<or> c \<in> {CHR ''+'', CHR ''-'', CHR ''.''}
     then (if acc = [] then Some None else scan_scheme (acc @ [c]) s)
     else if c = CHR '':'' then (if acc = [] then None else Some (Some (acc, s)))
     else Some None)"

definition getScheme :: "string \<Rightarrow> (string \<times> string) option" where
  "getScheme raw = map_option (\<lambda>r. case r of None \<Rightarrow> ([], raw) | Some x \<Rightarrow> x) (scan_scheme [] raw)"

text \<open>Percent-decoding. In a host only a percent sign itself and bytes outside ASCII may be encoded, and
  the characters allowed bare are limited.\<close>

definition host_char :: "char \<Rightarrow> bool" where
  "host_char c \<longleftrightarrow> is_letter c \<or> is_digit c \<or> 128 \<le> char_code c \<or>
    c \<in> set ''-_.~!$&()*+,;=:[]<>'' \<or> c = CHR 0x27 \<or> c = CHR 0x22"

datatype escape_mode = EncPath | EncHost | EncZone

fun unescape :: "escape_mode \<Rightarrow> string \<Rightarrow> string option" where
  "unescape m [] = Some []"
| "unescape m (c # s) =
    (if c = CHR ''%'' then
       (case s of
          a # b # t \<Rightarrow>
            (case (hex_val a, hex_val b) of
               (Some x, Some y) \<Rightarrow>
                 if m = EncHost \<and> x < 8 \<and> \<not> (a = CHR ''2'' \<and> b = CHR ''5'') then None
                 else if m = EncZone \<and> \<not> (a = CHR ''2'' \<and> b = CHR ''5'') \<and> 16 * x + y \<noteq> 32 \<and>
                   (128 \<le> 16 * x + y \<or> \<not> host_char (char_of (16 * x + y))) then None
                 else map_option (\<lambda>r. char_of (16 * x + y) # r) (unescape m t)
             | _ \<Rightarrow> None)
        | _ \<Rightarrow> None)
     else if m \<noteq> EncPath \<and> \<not> host_char c then None
     else map_option (\<lambda>r. c # r) (unescape m s))"

definition validOptionalPort :: "string \<Rightarrow> bool" where
  "validOptionalPort p \<longleftrightarrow> p = [] \<or> (hd p = CHR '':'' \<and> (\<forall>c \<in> set (tl p). is_digit c))"

text \<open>Split before the first occurrence of an encoded percent sign, the start of an IPv6 zone.\<close>

fun zone_split :: "string \<Rightarrow> (string \<times> string) option" where
  "zone_split [] = None"
| "zone_split (c # s) =
    (if has_prefix (c # s) ''%25'' then Some ([], c # s)
     else map_option (\<lambda>(a, b). (c # a, b)) (zone_split s))"

text \<open>Split at the last occurrence of a character.\<close>

definition last_cut :: "char \<Rightarrow> string \<Rightarrow> (string \<times> string) option" where
  "last_cut c s =
    (let r = rev s; b = takeWhile (\<lambda>x. x \<noteq> c) r in
     if c \<in> set s then Some (rev (drop (Suc (length b)) r), rev b) else None)"

definition parseHost :: "string \<Rightarrow> string option" where
  "parseHost host =
    (if has_prefix host ''['' then
       (case last_cut (CHR '']'') host of
          None \<Rightarrow> None
        | Some (inner, colonPort) \<Rightarrow>
            if \<not> validOptionalPort colonPort then None
            else
              (case zone_split inner of
                 None \<Rightarrow> unescape EncHost host
               | Some (h1, h2) \<Rightarrow>
                  (case (unescape EncHost h1, unescape EncZone h2, unescape EncHost (CHR '']'' # colonPort)) of
                     (Some a, Some b, Some c) \<Rightarrow> Some (a @ b @ c)
                   | _ \<Rightarrow> None)))
     else
       (case last_cut (CHR '':'') host of
          None \<Rightarrow> unescape EncHost host
        | Some (_, port) \<Rightarrow> if validOptionalPort (CHR '':'' # port) then unescape EncHost host else None))"

definition valid_userinfo :: "string \<Rightarrow> bool" where
  "valid_userinfo s \<longleftrightarrow> (\<forall>c \<in> set s. is_letter c \<or> is_digit c \<or> c \<in> set ''-._:~!$&()*+,;=%@'' \<or> c = CHR 0x27)"

definition parseAuthority :: "string \<Rightarrow> string option" where
  "parseAuthority authority =
    (case last_cut (CHR ''@'') authority of
       None \<Rightarrow> parseHost authority
     | Some (user, host) \<Rightarrow>
        (case parseHost host of
           None \<Rightarrow> None
         | Some h \<Rightarrow> if valid_userinfo user \<and> unescape EncPath user \<noteq> None then Some h else None))"

definition cut_query :: "string \<Rightarrow> string" where
  "cut_query s = takeWhile (\<lambda>c. c \<noteq> CHR ''?'') s"

definition parse_url :: "bool \<Rightarrow> string \<Rightarrow> url option" where
  "parse_url viaRequest raw =
    (if (\<exists>c \<in> set raw. is_ctl c) then None
     else if raw = [] \<and> viaRequest then None
     else if raw = ''*'' then Some \<lparr>url_Scheme = [], url_Opaque = [], url_Host = [], url_Path = ''*''\<rparr>
     else
       (case getScheme raw of
          None \<Rightarrow> None
        | Some (sch, rest0) \<Rightarrow>
           (let scheme = to_lower sch; rest = cut_query rest0 in
            if \<not> has_prefix rest ''/'' \<and> scheme \<noteq> []
            then Some \<lparr>url_Scheme = scheme, url_Opaque = rest, url_Host = [], url_Path = []\<rparr>
            else if \<not> has_prefix rest ''/'' \<and> viaRequest then None
            else if \<not> has_prefix rest ''/'' \<and>
                CHR '':'' \<in> set (takeWhile (\<lambda>c. c \<noteq> CHR ''/'') rest) then None
            else if (scheme \<noteq> [] \<or> \<not> viaRequest \<and> \<not> has_prefix rest ''///'') \<and> has_prefix rest ''//''
            then (let authority = takeWhile (\<lambda>c. c \<noteq> CHR ''/'') (drop 2 rest);
                      path = dropWhile (\<lambda>c. c \<noteq> CHR ''/'') (drop 2 rest)
                  in case parseAuthority authority of
                       None \<Rightarrow> None
                     | Some h \<Rightarrow>
                        map_option (\<lambda>p. \<lparr>url_Scheme = scheme, url_Opaque = [], url_Host = h, url_Path = p\<rparr>)
                          (unescape EncPath path))
            else map_option (\<lambda>p. \<lparr>url_Scheme = scheme, url_Opaque = [], url_Host = [], url_Path = p\<rparr>)
                   (unescape EncPath rest))))"

definition ParseRequestURI :: "string \<Rightarrow> url option" where
  "ParseRequestURI raw = parse_url True raw"

text \<open>\<^verbatim>\<open>url.Parse\<close> first cuts off a fragment, which must be well encoded.\<close>

definition url_Parse :: "string \<Rightarrow> url option" where
  "url_Parse raw =
    (case cut_at (CHR ''#'') raw of
       None \<Rightarrow> parse_url False raw
     | Some (u, frag) \<Rightarrow>
        (case parse_url False u of
           None \<Rightarrow> None
         | Some r \<Rightarrow> if frag = [] \<or> unescape EncPath frag \<noteq> None then Some r else None))"

text \<open>\<^verbatim>\<open>Hostname\<close> and \<^verbatim>\<open>Port\<close>: the host with its optional port split off, and without brackets.\<close>

definition splitHostPort :: "string \<Rightarrow> string \<times> string" where
  "splitHostPort hostPort =
    (let (host, port) =
       (case last_cut (CHR '':'') hostPort of
          None \<Rightarrow> (hostPort, [])
        | Some (h, p) \<Rightarrow> if validOptionalPort (CHR '':'' # p) then (h, p) else (hostPort, []))
     in (if has_prefix host ''['' \<and> has_suffix host '']'' then butlast (tl host) else host, port))"

definition Hostname :: "url \<Rightarrow> string" where
  "Hostname u = fst (splitHostPort (url_Host u))"

definition url_Port :: "url \<Rightarrow> string" where
  "url_Port u = snd (splitHostPort (url_Host u))"

section \<open>Well-formed addresses\<close>

lemma last_cut_append: "c \<notin> set b \<Longrightarrow> last_cut c (a @ c # b) = Some (a, b)"
proof -
  assume c: "c \<notin> set b"
  have "takeWhile (\<lambda>x. x \<noteq> c) (rev b @ c # rev a) = rev b"
    using c by (subst takeWhile_append2) auto
  then show ?thesis by (simp add: last_cut_def Let_def)
qed

lemma last_cut_None: "c \<notin> set s \<Longrightarrow> last_cut c s = None"
  by (simp add: last_cut_def)

lemma unescape_plain:
  "\<forall>c \<in> set s. c \<noteq> CHR ''%'' \<and> (m \<noteq> EncPath \<longrightarrow> host_char c) \<Longrightarrow> unescape m s = Some s"
  by (induction s) auto

lemma cut_query_no: "CHR ''?'' \<notin> set s \<Longrightarrow> cut_query s = s"
  by (auto simp: cut_query_def takeWhile_eq_all_conv)

text \<open>A plain host name: letters, digits, dots and dashes.\<close>

definition plain_host :: "string \<Rightarrow> bool" where
  "plain_host h \<longleftrightarrow> h \<noteq> [] \<and> (\<forall>c \<in> set h. is_letter c \<or> is_digit c \<or> c = CHR ''.'' \<or> c = CHR ''-'')"

lemma plain_host_chars:
  "plain_host h \<Longrightarrow> c \<in> set h \<Longrightarrow> host_char c \<and> \<not> is_ctl c \<and>
    c \<notin> {CHR ''%'', CHR '':'', CHR ''/'', CHR ''?'', CHR ''@'', CHR ''['', CHR '']''}"
  unfolding plain_host_def host_char_def is_ctl_def is_letter_def is_digit_def char_code_def by auto

lemma digit_chars:
  "is_digit c \<Longrightarrow> host_char c \<and> \<not> is_ctl c \<and>
    c \<notin> {CHR ''%'', CHR '':'', CHR ''/'', CHR ''?'', CHR ''@'', CHR ''['', CHR '']''}"
  unfolding host_char_def is_ctl_def is_letter_def is_digit_def char_code_def by auto

lemma parseHost_plain:
  assumes "plain_host h" "\<forall>c \<in> set p. is_digit c"
  shows "parseHost (h @ CHR '':'' # p) = Some (h @ CHR '':'' # p)"
proof -
  have col: "CHR '':'' \<notin> set p" using assms(2) digit_chars by blast
  have "unescape EncHost (h @ CHR '':'' # p) = Some (h @ CHR '':'' # p)"
  proof (rule unescape_plain, intro ballI)
    fix c assume "c \<in> set (h @ CHR '':'' # p)"
    then consider "c \<in> set h" | "c = CHR '':''" | "c \<in> set p" by auto
    then show "c \<noteq> CHR ''%'' \<and> (EncHost \<noteq> EncPath \<longrightarrow> host_char c)"
    proof cases
      case 1
      from plain_host_chars [OF assms(1) this] show ?thesis by simp
    next
      case 2
      then show ?thesis by (simp add: host_char_def)
    next
      case 3
      with assms(2) have "is_digit c" by blast
      from digit_chars [OF this] show ?thesis by simp
    qed
  qed
  moreover have "\<not> has_prefix (h @ CHR '':'' # p) ''[''"
    using plain_host_chars [OF assms(1), of "hd h"] assms(1) by (cases h) (auto simp: has_prefix_def plain_host_def)
  ultimately show ?thesis
    using assms(2) by (simp add: parseHost_def last_cut_append [OF col] validOptionalPort_def)
qed

lemma split_plain:
  assumes "plain_host h" "\<forall>c \<in> set p. is_digit c"
  shows "splitHostPort (h @ CHR '':'' # p) = (h, p)"
proof -
  have col: "CHR '':'' \<notin> set p" using assms(2) digit_chars by blast
  have "\<not> has_prefix h ''[''"
    using plain_host_chars [OF assms(1), of "hd h"] assms(1) by (cases h) (auto simp: has_prefix_def plain_host_def)
  then show ?thesis using assms(2) by (simp add: splitHostPort_def last_cut_append [OF col] validOptionalPort_def)
qed

end
