(* ===== verification/Handshake.thy ===== *)
theory Handshake
  imports Admission Url
begin

text \<open>
  The handshake endpoints: the guards of \<^verbatim>\<open>api/session/guard.go\<close>, the current handshake of
  \<^verbatim>\<open>handshake.go\<close> with its signed reply (\<^verbatim>\<open>reply.go\<close>), and the legacy endpoint (\<^verbatim>\<open>requests.go\<close>,
  \<^verbatim>\<open>handlers.go\<close>). Signatures and SHA-256 are functions the definitions are given. Binding a
  request to its fields is the web framework's; the definitions start from the bound fields, or
  from \<^const>\<open>None\<close> when binding failed.
\<close>

section \<open>The attempt limit\<close>

record limiter =
  rl_limit :: int
  rl_window :: int
  rl_start :: int
  rl_counts :: "string \<Rightarrow> int"
  rl_warned :: bool

definition handshakeLimit :: int where
  "handshakeLimit = 30"

definition handshakeWindow :: int where
  "handshakeWindow = 60 * 1000000000"

definition newRateLimiter :: "int \<Rightarrow> int \<Rightarrow> int \<Rightarrow> limiter" where
  "newRateLimiter lim window zero_time =
    \<lparr>rl_limit = lim, rl_window = window, rl_start = zero_time, rl_counts = (\<lambda>_. 0), rl_warned = False\<rparr>"

definition allow :: "int \<Rightarrow> string \<Rightarrow> limiter \<Rightarrow> (bool \<times> int \<times> bool) \<times> limiter" where
  "allow now key l =
    (let l = (if rl_window l \<le> time_Sub now (rl_start l)
              then l\<lparr>rl_start := now, rl_counts := (\<lambda>_. 0), rl_warned := False\<rparr> else l)
     in if rl_limit l \<le> rl_counts l key
        then ((False, time_Sub (rl_start l + rl_window l) now, \<not> rl_warned l), l\<lparr>rl_warned := True\<rparr>)
        else ((True, 0, False), l\<lparr>rl_counts := (rl_counts l)(key := rl_counts l key + 1)\<rparr>))"

definition clientBlock :: "string \<Rightarrow> string" where
  "clientBlock remoteIP =
    (case ParseIP remoteIP of
       None \<Rightarrow> remoteIP
     | Some ip \<Rightarrow>
        (case ip_To4 ip of
           Some v4 \<Rightarrow> ip_String v4
         | None \<Rightarrow> ip_String (ip_Mask ip (CIDRMask 64 16))))"

text \<open>What a client is sent.\<close>

datatype 'r http_reply =
    Refused nat nat string "nat option"
  | Accepted nat 'r "string option"

definition requireTLS :: "bool \<Rightarrow> 'r http_reply option" where
  "requireTLS tls =
    (if tls then None else Some (Refused 403 11 ''the handshake must be made over https'' None))"

definition limitHandshakes :: "int \<Rightarrow> string \<Rightarrow> limiter \<Rightarrow> 'r http_reply option \<times> limiter" where
  "limitHandshakes now remoteIP l =
    (case allow now (clientBlock remoteIP) l of
       ((within, wait, first), l') \<Rightarrow>
         (if within then None
          else Some (Refused 429 12 ''too many handshake attempts; retry later''
            (Some (nat (wait div 1000000000 + 1)))), l'))"

section \<open>The current handshake\<close>

record crypto =
  cr_verify :: "bytes \<Rightarrow> bytes \<Rightarrow> bytes \<Rightarrow> bool"
  cr_account :: "bytes \<Rightarrow> string"
  cr_sha256 :: "bytes \<Rightarrow> bytes"

record handshake_body =
  hb_Data :: string
  hb_ID :: "64 word"
  hb_PubKey :: string
  hb_Signature :: string

record handshake_result =
  hr_Data :: string
  hr_Addrs :: "string list"

definition pubKeyPrefix :: string where
  "pubKeyPrefix = ''secp256k1:''"

definition PubKeySize :: nat where
  "PubKeySize = 33"

definition Uint64ToBigEndian :: "64 word \<Rightarrow> bytes" where
  "Uint64ToBigEndian i = be_bytes 8 (unat i)"

definition verifyHandshake :: "crypto \<Rightarrow> handshake_body \<Rightarrow> (string \<times> bytes) result" where
  "verifyHandshake cr body =
    (if \<not> has_prefix (hb_PubKey body) pubKeyPrefix then Inl ''pub_key must be secp256k1''
     else
       (case b64_decode (trim_prefix (hb_PubKey body) pubKeyPrefix) of
          None \<Rightarrow> Inl ''invalid pub_key''
        | Some raw \<Rightarrow>
           if length raw \<noteq> PubKeySize then Inl ''pub_key has the wrong size''
           else
             (case b64_decode (hb_Data body) of
                None \<Rightarrow> Inl ''invalid data''
              | Some data \<Rightarrow>
                 (case b64_decode (hb_Signature body) of
                    None \<Rightarrow> Inl ''invalid signature''
                  | Some signature \<Rightarrow>
                     if hb_ID body = 0 then Inl ''id cannot be zero''
                     else if \<not> cr_verify cr raw (Uint64ToBigEndian (hb_ID body) @ data) signature
                     then Inl ''signature does not verify''
                     else Inr (cr_account cr raw, data)))))"

definition replyDomain :: string where
  "replyDomain = ''dvpnd/handshake-reply/v1''"

text \<open>The bytes written into the outer hash, and the digest.\<close>

definition reply_preimage :: "(bytes \<Rightarrow> bytes) \<Rightarrow> 64 word \<Rightarrow> bytes \<Rightarrow> bytes \<Rightarrow> string list \<Rightarrow> bytes" where
  "reply_preimage sha i request reply addrs =
    bytes_of_string replyDomain @ Uint64ToBigEndian i @ sha request @ sha reply @
    bytes_of_string (join ''\<newline>'' addrs)"

definition replyDigest :: "(bytes \<Rightarrow> bytes) \<Rightarrow> 64 word \<Rightarrow> bytes \<Rightarrow> bytes \<Rightarrow> string list \<Rightarrow> bytes" where
  "replyDigest sha i request reply addrs = sha (reply_preimage sha i request reply addrs)"

definition signReply ::
  "(bytes \<Rightarrow> bytes) \<Rightarrow> (bytes \<Rightarrow> (bytes \<times> bytes) result) \<Rightarrow> 64 word \<Rightarrow> bytes \<Rightarrow> handshake_result \<Rightarrow> string result"
where
  "signReply sha SignBytes i request result =
    (case b64_decode (hr_Data result) of
       None \<Rightarrow> Inl ''illegal base64 data''
     | Some reply \<Rightarrow>
        (case SignBytes (replyDigest sha i request reply (hr_Addrs result)) of
           Inl e \<Rightarrow> Inl e
         | Inr (sig, pub) \<Rightarrow> Inr (pubKeyPrefix @ b64_encode pub @ '';'' @ b64_encode sig)))"

definition nodeAddrs :: "string \<Rightarrow> string \<Rightarrow> string list" where
  "nodeAddrs ipv4 remoteURL =
    (case url_Parse remoteURL of
       None \<Rightarrow> [ipv4]
     | Some u \<Rightarrow> if Hostname u \<noteq> [] \<and> Hostname u \<noteq> ipv4 then [ipv4, Hostname u] else [ipv4])"

text \<open>What the handlers ask of the service beside the peer operations, and of the signing key.\<close>

record 's handshake_ops =
  ho_ParsePeerRequest :: "bytes \<Rightarrow> 's \<Rightarrow> bytes result \<times> 's"
  ho_HandshakePayload :: "bytes \<Rightarrow> 's \<Rightarrow> bytes result \<times> 's"
  ho_Info :: "'s \<Rightarrow> bytes"
  ho_SignBytes :: "bytes \<Rightarrow> (bytes \<times> bytes) result"
  ho_IPv4 :: bytes
  ho_RemoteURL :: string

definition buildHandshakeResult :: "'s handshake_ops \<Rightarrow> bytes \<Rightarrow> 's \<Rightarrow> handshake_result result \<times> 's" where
  "buildHandshakeResult ho peer s =
    (case ho_HandshakePayload ho peer s of
       (Inl e, s) \<Rightarrow> (Inl e, s)
     | (Inr payload, s) \<Rightarrow>
        (Inr \<lparr>hr_Data = b64_encode payload, hr_Addrs = nodeAddrs (ip_String (ho_IPv4 ho)) (ho_RemoteURL ho)\<rparr>, s))"

definition refuse_reply :: "nat \<Rightarrow> nat \<Rightarrow> gerror \<Rightarrow> 'r http_reply" where
  "refuse_reply status code err =
    (case replyError status code err of (st, co, msg) \<Rightarrow> Refused st co msg None)"

definition HandlerHandshake ::
  "settings \<Rightarrow> crypto \<Rightarrow> 's handshake_ops \<Rightarrow> 's service \<Rightarrow> 'd database \<Rightarrow> 'c chain \<Rightarrow>
    handshake_body option \<Rightarrow> ('s, 'd) node \<times> 'c \<Rightarrow> handshake_result http_reply \<times> (('s, 'd) node \<times> 'c)"
where
  "HandlerHandshake env cr ho svc db chain bound w =
    (case bound of
       None \<Rightarrow> (refuse_reply 400 2 ''invalid request'', w)
     | Some body \<Rightarrow>
        (case verifyHandshake cr body of
           Inl e \<Rightarrow> (refuse_reply 400 4 e, w)
         | Inr (accAddr, data) \<Rightarrow>
            (case ho_ParsePeerRequest ho data (nd_svc (fst w)) of
               (Inl e, s) \<Rightarrow> (refuse_reply 400 2 e, (fst w)\<lparr>nd_svc := s\<rparr>, snd w)
             | (Inr peerData, s) \<Rightarrow>
                (case admit env svc db chain
                        \<lparr>rq_AccAddress = accAddr, rq_ID = hb_ID body, rq_PeerData = peerData\<rparr>
                        ((fst w)\<lparr>nd_svc := s\<rparr>, snd w) of
                   (Inl e, w) \<Rightarrow> (refuse_reply (ae_Status e) (ae_Code e) (ae_Err e), w)
                 | (Inr res, n, c) \<Rightarrow>
                    (case buildHandshakeResult ho (res_Peer res) (nd_svc n) of
                       (Inl e, s) \<Rightarrow> (refuse_reply 500 10 e, n\<lparr>nd_svc := s\<rparr>, c)
                     | (Inr result, s) \<Rightarrow>
                        (Accepted 200 result
                           (case signReply (cr_sha256 cr) (ho_SignBytes ho) (hb_ID body) data result of
                              Inl _ \<Rightarrow> None | Inr header \<Rightarrow> Some header),
                         n\<lparr>nd_svc := s\<rparr>, c))))))"

section \<open>The legacy endpoint\<close>

record add_request =
  ar_AccAddress :: string
  ar_ID :: "64 word"
  ar_Key :: bytes
  ar_Signature :: bytes

text \<open>\<open>bech32\<close> decodes and re-encodes the account address; \<^verbatim>\<open>binding:"gt=0"\<close> refuses a zero id.\<close>

definition NewRequestAddSession ::
  "(string \<Rightarrow> string result) \<Rightarrow> (string \<times> 64 word) option \<Rightarrow> (string \<times> string) option \<Rightarrow> add_request result"
where
  "NewRequestAddSession bech32 uri json =
    (case uri of
       None \<Rightarrow> Inl ''invalid uri''
     | Some (acc, i) \<Rightarrow>
        if i = 0 then Inl ''ID must be greater than 0''
        else
          (case json of
             None \<Rightarrow> Inl ''invalid body''
           | Some (key, signature) \<Rightarrow>
              (case bech32 acc of
                 Inl e \<Rightarrow> Inl e
               | Inr addr \<Rightarrow>
                  (case b64_decode key of
                     None \<Rightarrow> Inl ''illegal base64 data''
                   | Some k \<Rightarrow>
                      (case b64_decode signature of
                         None \<Rightarrow> Inl ''illegal base64 data''
                       | Some sig \<Rightarrow>
                          Inr \<lparr>ar_AccAddress = addr, ar_ID = i, ar_Key = k, ar_Signature = sig\<rparr>)))))"

text \<open>The account query answers with the account's public key, which may be missing.\<close>

definition HandlerAddSession ::
  "settings \<Rightarrow> crypto \<Rightarrow> 's handshake_ops \<Rightarrow> 's service \<Rightarrow> 'd database \<Rightarrow> 'c chain \<Rightarrow>
    (string \<Rightarrow> 'c \<Rightarrow> bytes option option result \<times> 'c) \<Rightarrow> add_request result \<Rightarrow>
    ('s, 'd) node \<times> 'c \<Rightarrow> bytes http_reply \<times> (('s, 'd) node \<times> 'c)"
where
  "HandlerAddSession env cr ho svc db chain QueryAccount bound w =
    (case bound of
       Inl e \<Rightarrow> (refuse_reply 400 2 e, w)
     | Inr req \<Rightarrow>
        (case QueryAccount (ar_AccAddress req) (snd w) of
           (Inl e, c) \<Rightarrow> (refuse_reply 500 4 e, fst w, c)
         | (Inr None, c) \<Rightarrow> (refuse_reply 404 4 ''account does not exist'', fst w, c)
         | (Inr (Some None), c) \<Rightarrow> (refuse_reply 404 4 ''public key for account does not exist'', fst w, c)
         | (Inr (Some (Some pub)), c) \<Rightarrow>
            if \<not> cr_verify cr pub (Uint64ToBigEndian (ar_ID req)) (ar_Signature req)
            then (refuse_reply 400 4 ''invalid signature'', fst w, c)
            else
              (case admit env svc db chain
                      \<lparr>rq_AccAddress = ar_AccAddress req, rq_ID = ar_ID req, rq_PeerData = ar_Key req\<rparr>
                      (fst w, c) of
                 (Inl e, w) \<Rightarrow> (refuse_reply (ae_Status e) (ae_Code e) (ae_Err e), w)
               | (Inr res, n, c) \<Rightarrow>
                  (Accepted 201 (res_Peer res @ ho_IPv4 ho @ ho_Info ho (nd_svc n)) None, n, c))))"

section \<open>The limit holds\<close>

text \<open>A run of attempts, each with its time and key, and how many of a key were let through.\<close>

fun allowed :: "string \<Rightarrow> (int \<times> string) list \<Rightarrow> limiter \<Rightarrow> int" where
  "allowed k [] l = 0"
| "allowed k ((t, key) # rest) l =
    (case allow t key l of ((within, _), l') \<Rightarrow> (if within \<and> key = k then 1 else 0) + allowed k rest l')"

definition in_window :: "limiter \<Rightarrow> int \<Rightarrow> bool" where
  "in_window l t \<longleftrightarrow> time_Sub t (rl_start l) < rl_window l"

lemma allow_in_window:
  assumes "in_window l t"
  shows "allow t key l =
    (if rl_limit l \<le> rl_counts l key
     then ((False, time_Sub (rl_start l + rl_window l) t, \<not> rl_warned l), l\<lparr>rl_warned := True\<rparr>)
     else ((True, 0, False), l\<lparr>rl_counts := (rl_counts l)(key := rl_counts l key + 1)\<rparr>))"
  using assms by (simp add: allow_def in_window_def)

lemma allow_reset:
  assumes "\<not> in_window l t"
  shows "allow t key l = allow t key (l\<lparr>rl_start := t, rl_counts := (\<lambda>_. 0), rl_warned := False\<rparr>)"
proof -
  have "time_Sub t t = 0" by (simp add: time_Sub_def)
  then show ?thesis using assms
    by (cases "0 < rl_window l") (simp_all add: allow_def in_window_def)
qed

lemma allowed_one_window:
  assumes "\<forall>(t, k') \<in> set atts. in_window l t" "rl_counts l k \<le> rl_limit l"
  shows "allowed k atts l + rl_counts l k \<le> rl_limit l"
  using assms
proof (induction k atts l rule: allowed.induct)
  case (2 k t key rest l)
  obtain within x l' where a: "allow t key l = ((within, x), l')" by (metis prod.collapse)
  have w: "in_window l t" using "2.prems"(1) by simp
  have l': "rl_start l' = rl_start l" "rl_window l' = rl_window l" "rl_limit l' = rl_limit l"
    "rl_counts l' k = (if within \<and> key = k then rl_counts l k + 1 else rl_counts l k)"
    "rl_counts l' k \<le> rl_limit l"
    using a "2.prems"(2) unfolding allow_in_window [OF w] by (auto split: if_splits)
  have "\<forall>(t, k') \<in> set rest. in_window l' t" using "2.prems"(1) l' by (auto simp: in_window_def)
  then have "allowed k rest l' + rl_counts l' k \<le> rl_limit l'"
    using "2.IH" [OF a [symmetric]] l' by (metis prod.collapse)
  then show ?case using a l' by (auto split: if_splits)
qed simp

lemma in_window_after_reset:
  assumes "rl_window l \<le> i64_max" "t \<le> t'" "t' < t + rl_window l"
  shows "in_window (l\<lparr>rl_start := t, rl_counts := c, rl_warned := b\<rparr>) t'"
  using assms by (auto simp: in_window_def time_Sub_def)

lemma allowed_reset:
  "\<not> in_window l t \<Longrightarrow> allowed k ((t, key) # rest) l =
    allowed k ((t, key) # rest) (l\<lparr>rl_start := t, rl_counts := (\<lambda>_. 0), rl_warned := False\<rparr>)"
  using allow_reset [of l t key] by simp

lemma allowed_two_windows:
  assumes "sorted (map fst atts)" "\<forall>(t, k') \<in> set atts. t0 \<le> t \<and> t < t0 + rl_window l"
    and "rl_counts l k \<le> rl_limit l" "0 \<le> rl_limit l" "rl_window l \<le> i64_max"
  shows "allowed k atts l + rl_counts l k \<le> 2 * rl_limit l"
  using assms
proof (induction atts arbitrary: l)
  case (Cons at rest)
  obtain t key where at: "at = (t, key)" by fastforce
  show ?case
  proof (cases "in_window l t")
    case True
    obtain within x l' where a: "allow t key l = ((within, x), l')" by (metis prod.collapse)
    have l': "rl_window l' = rl_window l" "rl_limit l' = rl_limit l"
      "rl_counts l' k = (if within \<and> key = k then rl_counts l k + 1 else rl_counts l k)"
      "rl_counts l' k \<le> rl_limit l"
      using a Cons.prems(3) unfolding allow_in_window [OF True] by (auto split: if_splits)
    have "allowed k rest l' + rl_counts l' k \<le> 2 * rl_limit l'"
      by (rule Cons.IH) (use Cons.prems l' in auto)
    then show ?thesis using a l' at by (auto split: if_splits)
  next
    case False
    let ?l = "l\<lparr>rl_start := t, rl_counts := (\<lambda>_. 0), rl_warned := False\<rparr>"
    have "\<forall>(t', k') \<in> set ((t, key) # rest). in_window ?l t'"
    proof (intro ballI, clarify)
      fix t' k' assume "(t', k') \<in> set ((t, key) # rest)"
      then have "t \<le> t'" "t' < t0 + rl_window l" "t0 \<le> t" using Cons.prems(1,2) at by force+
      then show "in_window ?l t'" by (intro in_window_after_reset Cons.prems(5)) auto
    qed
    from allowed_one_window [OF this, of k] show ?thesis
      using allowed_reset [OF False, of k key rest] at Cons.prems(3,4) by simp
  qed
qed simp



text \<open>A block is refused only after it used up its own limit in the window: the decision depends on
  its own count alone, and a refusal counts nothing.\<close>

lemma rate_limit_own_count:
  assumes "allow now key l = ((within, wait, first), l')"
  shows "within = (rl_counts (if rl_window l \<le> time_Sub now (rl_start l)
      then l\<lparr>rl_counts := (\<lambda>_. 0)\<rparr> else l) key < rl_limit l) \<and>
    (\<forall>k. k \<noteq> key \<longrightarrow> rl_counts l' k = 0 \<or> rl_counts l' k = rl_counts l k) \<and>
    (\<not> within \<longrightarrow> rl_counts l' key = 0 \<or> rl_counts l' key = rl_counts l key)"
  using assms by (auto simp: allow_def Let_def split: if_splits)

section \<open>Authentication\<close>

text \<open>C5: a handshake body that is accepted carries a key of the right size, a non-zero session id and a
  signature by that key over exactly this id and these request bytes; the account is that key's.\<close>

theorem verifyHandshake_sound:
  assumes "verifyHandshake cr body = Inr (acc, data)"
  shows "\<exists>raw sig. hb_PubKey body = pubKeyPrefix @ trim_prefix (hb_PubKey body) pubKeyPrefix \<and>
    b64_decode (trim_prefix (hb_PubKey body) pubKeyPrefix) = Some raw \<and> length raw = 33 \<and>
    b64_decode (hb_Data body) = Some data \<and> b64_decode (hb_Signature body) = Some sig \<and>
    hb_ID body \<noteq> 0 \<and> cr_verify cr raw (Uint64ToBigEndian (hb_ID body) @ data) sig \<and> acc = cr_account cr raw"
proof -
  have "hb_PubKey body = pubKeyPrefix @ trim_prefix (hb_PubKey body) pubKeyPrefix"
    using assms by (auto simp: verifyHandshake_def has_prefix_def trim_prefix_def
        split: if_splits) (metis append_take_drop_id)
  then show ?thesis
    using assms by (auto simp: verifyHandshake_def PubKeySize_def split: if_splits option.splits)
qed

lemma be8_inj: "Uint64ToBigEndian i = Uint64ToBigEndian j \<longleftrightarrow> i = j"
proof
  assume "Uint64ToBigEndian i = Uint64ToBigEndian j"
  then have "big_of_bytes (be_bytes 8 (unat i)) = big_of_bytes (be_bytes 8 (unat j))"
    by (simp add: Uint64ToBigEndian_def)
  moreover have "unat i < 256 ^ 8" "unat j < 256 ^ 8"
    using unsigned_less [of i] unsigned_less [of j] by simp_all
  ultimately show "i = j" by (simp add: big_of_be_bytes_id word_unat_eq_iff)
qed simp

lemma length_be8 [simp]: "length (Uint64ToBigEndian i) = 8"
  by (simp add: Uint64ToBigEndian_def)

lemma bytes_of_string_inj: "bytes_of_string a = bytes_of_string b \<longleftrightarrow> a = b"
proof -
  have "inj (\<lambda>c. of_nat (of_char c) :: byte)"
  proof (rule injI)
    fix x y :: char assume "(of_nat (of_char x) :: byte) = of_nat (of_char y)"
    then have "(of_char x :: nat) mod 256 = of_char y mod 256" by (metis unat_of_nat_byte)
    then show "x = y" by simp
  qed
  then show ?thesis unfolding bytes_of_string_def by (metis inj_map_eq_map)
qed

text \<open>C25: the reply signature binds the reply to the request: with a hash of fixed length, equal signed
  bytes mean the same session, the same hashes of request and reply, and the same addresses.\<close>

theorem reply_preimage_inj:
  assumes "\<And>x. length (sha x) = 32"
    and "reply_preimage sha i req rep addrs = reply_preimage sha j req' rep' addrs'"
    and "addrs \<noteq> []" "addrs' \<noteq> []" "\<forall>a \<in> set addrs \<union> set addrs'. CHR 0x0A \<notin> set a"
  shows "i = j \<and> sha req = sha req' \<and> sha rep = sha rep' \<and> addrs = addrs'"
proof -
  have eq: "Uint64ToBigEndian i = Uint64ToBigEndian j" "sha req = sha req'" "sha rep = sha rep'"
    "bytes_of_string (join ''\<newline>'' addrs) = bytes_of_string (join ''\<newline>'' addrs')"
    using assms(1,2) by (simp_all add: reply_preimage_def)
  have j: "join [CHR 0x0A] addrs = join [CHR 0x0A] addrs'"
    using iffD1 [OF bytes_of_string_inj eq(4)] .
  have "addrs = split_on (CHR 0x0A) (join [CHR 0x0A] addrs)"
    using assms(3,5) by (intro split_join [symmetric]) auto
  also have "\<dots> = split_on (CHR 0x0A) (join [CHR 0x0A] addrs')" unfolding j ..
  also have "\<dots> = addrs'" using assms(4,5) by (intro split_join) auto
  finally show ?thesis using eq(1-3) by (simp add: be8_inj)
qed

lemma reply_preimage_inj_witness:
  "reply_preimage (\<lambda>x. replicate 32 7) 5 [1] [2] [''192.0.2.1''] =
     reply_preimage (\<lambda>x. replicate 32 7) 5 [1] [3] [''192.0.2.1''] \<and> [''192.0.2.1''] = [''192.0.2.1'']"
  using reply_preimage_inj [of "\<lambda>x. replicate 32 7" 5 "[1]" "[2]" "[''192.0.2.1'']" 5 "[1]" "[3]" "[''192.0.2.1'']"]
  by (simp add: reply_preimage_def)

section \<open>Client blocks\<close>

lemma CIDRMask_bytes: "CIDRMask (8 * k) (k + n) = replicate k 255 @ replicate n 0"
  by (induction k) (simp_all add: CIDRMask_zero)

lemma masked_append: "length a = length m \<Longrightarrow> masked (a @ b) (m @ m') = masked a m @ masked b m'"
  by (simp add: masked_def)

lemma mask64: "length x = 16 \<Longrightarrow> ip_Mask x (CIDRMask 64 16) = take 8 x @ replicate 8 0"
proof -
  assume x: "length x = 16"
  have m: "CIDRMask 64 16 = replicate 8 255 @ replicate 8 0" using CIDRMask_bytes [of 8 8] by simp
  have "masked (take 8 x @ drop 8 x) (CIDRMask 64 16) =
      masked (take 8 x) (replicate 8 255) @ masked (drop 8 x) (replicate 8 0)"
    unfolding m using x by (intro masked_append) simp
  moreover have "masked (take 8 x) (replicate 8 255) = take 8 x"
    using x by (intro nth_equalityI) (simp_all add: masked_def)
  moreover have "masked (drop 8 x) (replicate 8 0) = replicate 8 0" using x by (simp add: masked_zero)
  ultimately show ?thesis using x by (simp add: ip_Mask_def Let_def)
qed

text \<open>Two IPv6 clients in the same /64 count as one, and so cannot multiply their attempts.\<close>

lemma clientBlock_same_64:
  assumes "ParseIP a = Some x" "ParseIP b = Some y" "ip_To4 x = None" "ip_To4 y = None" "take 8 x = take 8 y"
  shows "clientBlock a = clientBlock b"
proof -
  have len: "length z = 16 \<or> z = []" if "ParseIP s = Some z" for s z
    using that by (auto simp: ParseIP_def ip_To16_def v4InV6Prefix_def split: if_splits)
  have "ip_Mask x (CIDRMask 64 16) = ip_Mask y (CIDRMask 64 16)"
    using len [OF assms(1)] len [OF assms(2)] assms(5) mask64 by force
  then show ?thesis using assms by (simp add: clientBlock_def)
qed

section \<open>From the request to the served session\<close>

lemma admit_Inr:
  assumes "admit env svc db chain req (n, c) = (Inr res, n', c')"
  shows "\<exists>c1 c2 s. ch_QuerySession chain (rq_ID req) c1 = (Inr (Some s), c2) \<and> session_refusal env req s = None"
proof -
  obtain n1 a c1 where "queryAdmission env chain req c = (Inr a, c1)"
    using assms by (auto simp: admit_def split: prod.splits sum.splits)
  from queryAdmission_Inr [OF this] show ?thesis by blast
qed


section \<open>Worked examples\<close>

definition demo_crypto :: crypto where
  "demo_crypto = \<lparr>cr_verify = (\<lambda>pub msg sig. sig = msg), cr_account = (\<lambda>pub. ''sent1''), cr_sha256 = (\<lambda>x. replicate 32 0)\<rparr>"

definition demo_body :: handshake_body where
  "demo_body = \<lparr>hb_Data = b64_encode [9], hb_ID = 1, hb_PubKey = pubKeyPrefix @ b64_encode (replicate 33 2),
    hb_Signature = b64_encode (Uint64ToBigEndian 1 @ [9])\<rparr>"

lemma demo_body_ID: "hb_ID demo_body = 1"
  by (simp add: demo_body_def)

lemma demo_verifies: "verifyHandshake demo_crypto demo_body = Inr (''sent1'', [9])"
  by (simp add: verifyHandshake_def demo_crypto_def demo_body_def PubKeySize_def del: b64_encode.simps)

lemma verifyHandshake_sound_witness:
  "verifyHandshake demo_crypto demo_body = Inr (''sent1'', [9]) \<and> b64_decode (hb_Data demo_body) = Some [9]"
  using verifyHandshake_sound [OF demo_verifies] demo_verifies by blast

text \<open>A service that only keeps the list of its peers.\<close>

definition list_service :: "bytes list service" where
  "list_service =
    \<lparr>svc_AddPeer = (\<lambda>d s. (Inr [10, 8, 0, 2], d # s)), svc_HasPeer = (\<lambda>d s. d \<in> set s),
     svc_RemovePeer = (\<lambda>d s. (ok, filter (\<lambda>x. x \<noteq> d) s)),
     svc_Peers = (\<lambda>s. (Inr (map (\<lambda>d. \<lparr>peer_Key = b64_encode d, peer_Upload = 0, peer_Download = 0\<rparr>) s), s)),
     svc_PeerCount = length\<rparr>"

definition list_ops :: "bytes list handshake_ops" where
  "list_ops =
    \<lparr>ho_ParsePeerRequest = (\<lambda>d s. (Inr d, s)), ho_HandshakePayload = (\<lambda>p s. (Inr p, s)), ho_Info = (\<lambda>s. []),
     ho_SignBytes = (\<lambda>m. Inr ([1], [2])), ho_IPv4 = [192, 0, 2, 1], ho_RemoteURL = ''https://192.0.2.1:8585''\<rparr>"

definition one_session_chain :: "unit chain" where
  "one_session_chain =
    \<lparr>ch_QuerySession = (\<lambda>i c. (Inr (Some
        \<lparr>cs_ID = i, cs_AccAddress = ''sent1'', cs_NodeAddress = ''sentnode1'', cs_Status = StatusActive,
         cs_StatusAt = 0, cs_DownloadBytes = 0, cs_UploadBytes = 0, cs_TotalBytes = 0, cs_MaxBytes = 500,
         cs_Duration = 0, cs_SubscriptionID = None\<rparr>), c)),
     ch_QuerySubscription = (\<lambda>i c. (Inr None, c)), ch_QueryAllocation = (\<lambda>i a c. (Inr None, c)),
     ch_Tx = (\<lambda>ms c. (ok, c))\<rparr>"

lemma demo_handshake_runs:
  "\<exists>result header w'. HandlerHandshake \<lparr>set_MaxPeers = 2, set_Address = ''sentnode1''\<rparr> demo_crypto list_ops
     list_service mem_db one_session_chain (Some demo_body) (\<lparr>nd_svc = [], nd_db = ([], 0)\<rparr>, ()) =
     (Accepted 200 result header, w')"
  by (simp add: HandlerHandshake_def demo_verifies list_ops_def admit_def checkCapacity_def sessionExists_def
      mem_db_def queryAdmission_def one_session_chain_def session_refusal_def session_cap_def admit_locked_def
      remaining_bytes_def evict_def add_and_record_def list_service_def buildHandshakeResult_def
      demo_body_ID del: b64_encode.simps)


end
