(* ===== verification/Jobs.thy ===== *)
theory Jobs
  imports Admission
begin

text \<open>
  The node's periodic jobs, \<^verbatim>\<open>node/jobs.go\<close>, the start-up reconciliation, \<^verbatim>\<open>node/reconcile.go\<close>, and
  the session report of \<^verbatim>\<open>context/tx.go\<close>. A pass collects its errors in a list, as the code does
  with \<^verbatim>\<open>errors.Join\<close>. \<^verbatim>\<open>sdkmath.Int.Int64\<close> panics when the value does not fit; a pass that panics
  has the value \<^const>\<open>None\<close>.
\<close>

section \<open>Reporting\<close>

definition errors_Join :: "gerror list \<Rightarrow> unit result" where
  "errors_Join errs = (if errs = [] then ok else Inl (join ''\<newline>'' errs))"

lemma errors_Join_ok [simp]: "errors_Join errs = ok \<longleftrightarrow> errs = []" "errors_Join [] = ok"
  by (simp_all add: errors_Join_def)

definition session_error :: "session \<Rightarrow> gerror \<Rightarrow> gerror" where
  "session_error item e = ''session '' @ itoa (unat (ses_ID item)) @ '': '' @ e"

definition update_msg :: "settings \<Rightarrow> session \<Rightarrow> msg_update_session" where
  "update_msg env item =
    \<lparr>msg_From = set_Address env, msg_ID = ses_ID item, msg_Download = ses_Download item,
     msg_Upload = ses_Upload item, msg_Duration = ses_Duration item\<rparr>"

definition UpdateSessions :: "settings \<Rightarrow> 'c chain \<Rightarrow> session list \<Rightarrow> 'c \<Rightarrow> unit result \<times> 'c" where
  "UpdateSessions env ch items c = ch_Tx ch (map (update_msg env) items) c"

text \<open>Ask about each session again: the ones still to report, and how many answers came.\<close>

fun recheck :: "'c chain \<Rightarrow> session list \<Rightarrow> 'c \<Rightarrow> session list \<times> nat \<times> 'c" where
  "recheck ch [] c = ([], 0, c)"
| "recheck ch (item # items) c =
    (case ch_QuerySession ch (ses_ID item) c of
       (Inl e, c') \<Rightarrow> (case recheck ch items c' of (still, q, c'') \<Rightarrow> (item # still, q, c''))
     | (Inr s, c') \<Rightarrow>
        (case recheck ch items c' of (still, q, c'') \<Rightarrow>
          (if s = None \<or> map_option cs_Status s = Some StatusInactive then still else item # still,
           Suc q, c'')))"

fun report_each :: "settings \<Rightarrow> 'c chain \<Rightarrow> session list \<Rightarrow> gerror list \<Rightarrow> 'c \<Rightarrow> gerror list \<times> 'c" where
  "report_each env ch [] errs c = (errs, c)"
| "report_each env ch (item # items) errs c =
    (case UpdateSessions env ch [item] c of
       (Inl e, c') \<Rightarrow> report_each env ch items (errs @ [session_error item e]) c'
     | (Inr _, c') \<Rightarrow> report_each env ch items errs c')"

definition report_singly :: "settings \<Rightarrow> 'c chain \<Rightarrow> session list \<Rightarrow> 'c \<Rightarrow> unit result \<times> 'c" where
  "report_singly env ch still c = (case report_each env ch still [] c of (errs, c') \<Rightarrow> (errors_Join errs, c'))"

definition reportSessions :: "settings \<Rightarrow> 'c chain \<Rightarrow> session list \<Rightarrow> 'c \<Rightarrow> unit result \<times> 'c" where
  "reportSessions env ch items c =
    (case UpdateSessions env ch items c of
       (Inr _, c) \<Rightarrow> (ok, c)
     | (Inl err, c) \<Rightarrow>
        (case recheck ch items c of (still, queried, c) \<Rightarrow>
          if still = [] then (ok, c)
          else if queried = 0 then (Inl err, c)
          else if length still < length items then
            (case UpdateSessions env ch still c of
               (Inr _, c) \<Rightarrow> (ok, c)
             | (Inl _, c) \<Rightarrow> report_singly env ch still c)
          else report_singly env ch still c))"

section \<open>The verdict on a stored session\<close>

definition sdk_Int64 :: "int \<Rightarrow> int option" where
  "sdk_Int64 v = (if in_i64 v then Some v else None)"

text \<open>Whether the chain already holds the stored totals; the second counter is read only when the
  first agrees.\<close>

definition usage_matches :: "session \<Rightarrow> chain_session \<Rightarrow> bool option" where
  "usage_matches item s =
    (case sdk_Int64 (cs_UploadBytes s) of
       None \<Rightarrow> None
     | Some u \<Rightarrow>
        if ses_Upload item \<noteq> u then Some False
        else (case sdk_Int64 (cs_DownloadBytes s) of
                None \<Rightarrow> None
              | Some d \<Rightarrow> Some (ses_Download item = d)))"

record verdict =
  v_removePeer :: bool
  v_removeSession :: bool
  v_skipUpdate :: bool
  v_err :: "gerror option"

text \<open>What the chain session alone decides, given whether its usage is the stored one.\<close>

definition session_verdict :: "session \<Rightarrow> chain_session \<Rightarrow> bool \<Rightarrow> verdict" where
  "session_verdict item s stale =
    \<lparr>v_removePeer = stale \<and> ses_CreatedAt item < cs_StatusAt s \<or> cs_Status s \<noteq> StatusActive \<or>
       0 < cs_MaxBytes s \<and> cs_MaxBytes s \<le> i64 (ses_Upload item + ses_Download item),
     v_removeSession = cs_Status s = StatusInactive,
     v_skipUpdate = stale \<or> cs_Status s = StatusInactive,
     v_err = None\<rparr>"

definition checkSession :: "'c chain \<Rightarrow> session \<Rightarrow> 'c \<Rightarrow> verdict option \<times> 'c" where
  "checkSession ch item c =
    (case ch_QuerySession ch (ses_ID item) c of
       (Inl e, c) \<Rightarrow>
         (Some \<lparr>v_removePeer = False, v_removeSession = False, v_skipUpdate = True, v_err = Some e\<rparr>, c)
     | (Inr None, c) \<Rightarrow>
         (Some \<lparr>v_removePeer = True, v_removeSession = True, v_skipUpdate = True, v_err = None\<rparr>, c)
     | (Inr (Some s), c) \<Rightarrow>
        (case usage_matches item s of
           None \<Rightarrow> (None, c)
         | Some stale \<Rightarrow>
            (let v = session_verdict item s stale in
             case cs_SubscriptionID s of
               None \<Rightarrow> (Some v, c)
             | Some sid \<Rightarrow>
                (case ch_QuerySubscription ch sid c of
                   (Inl e, c) \<Rightarrow> (Some (v\<lparr>v_skipUpdate := True, v_err := Some e\<rparr>), c)
                 | (Inr u, c) \<Rightarrow>
                    (let gone = (u = None \<or> map_option sub_Status u = Some StatusInactive) in
                     if u = None \<or> map_option sub_Status u \<noteq> Some StatusActive
                     then (Some (v\<lparr>v_removePeer := True, v_removeSession := v_removeSession v \<or> gone,
                        v_skipUpdate := v_skipUpdate v \<or> gone\<rparr>), c)
                     else (Some v, c))))))"

section \<open>The update job\<close>

definition retire ::
  "'s service \<Rightarrow> 'd database \<Rightarrow> session \<Rightarrow> bool \<Rightarrow> bool \<Rightarrow> ('s, 'd) node \<Rightarrow> unit result \<times> ('s, 'd) node"
where
  "retire svc db item removePeer removeSession n =
    (case (if removePeer then ctx_RemovePeerIfExists svc (ses_Key item) (nd_svc n) else (ok, nd_svc n)) of
       (Inl e, s) \<Rightarrow> (Inl e, n\<lparr>nd_svc := s\<rparr>)
     | (Inr _, s) \<Rightarrow>
        if removeSession
        then (case db_Delete db (ses_ID item) (nd_db n) of (r, d) \<Rightarrow> (r, n\<lparr>nd_svc := s, nd_db := d\<rparr>))
        else (ok, n\<lparr>nd_svc := s\<rparr>))"

definition err_list :: "unit result \<Rightarrow> gerror list" where
  "err_list r = (case r of Inl e \<Rightarrow> [e] | Inr _ \<Rightarrow> [])"

text \<open>The loop runs from the last session to the first; the list is given in that order, and the
  sessions kept for the report are put back in front.\<close>

fun update_loop ::
  "'s service \<Rightarrow> 'd database \<Rightarrow> 'c chain \<Rightarrow> session list \<Rightarrow>
    gerror list \<times> session list \<times> ('s, 'd) node \<times> 'c \<Rightarrow>
    (gerror list \<times> session list \<times> ('s, 'd) node \<times> 'c) option"
where
  "update_loop svc db ch [] st = Some st"
| "update_loop svc db ch (item # rest) (errs, kept, n, c) =
    (case checkSession ch item c of
       (None, c) \<Rightarrow> None
     | (Some v, c) \<Rightarrow>
        (let errs1 = errs @ (case v_err v of None \<Rightarrow> [] | Some e \<Rightarrow> [session_error item e]);
             skip = (v_skipUpdate v \<or> v_err v \<noteq> None)
         in case (if v_removePeer v \<or> v_removeSession v
                  then retire svc db item (v_removePeer v) (v_removeSession v) n else (ok, n)) of
              (r, n) \<Rightarrow>
                update_loop svc db ch rest (errs1 @ err_list r, if skip then kept else item # kept, n, c)))"

definition updateSessions ::
  "settings \<Rightarrow> 's service \<Rightarrow> 'd database \<Rightarrow> 'c chain \<Rightarrow> ('s, 'd) node \<times> 'c \<Rightarrow>
    (unit result \<times> ('s, 'd) node \<times> 'c) option"
where
  "updateSessions env svc db ch w =
    (case db_Find db zero_session (nd_db (fst w)) of
       (Inl e, d) \<Rightarrow> Some (Inl e, (fst w)\<lparr>nd_db := d\<rparr>, snd w)
     | (Inr items, d) \<Rightarrow>
        (case update_loop svc db ch (rev items) ([], [], (fst w)\<lparr>nd_db := d\<rparr>, snd w) of
           None \<Rightarrow> None
         | Some (errs, kept, n, c) \<Rightarrow>
            if kept \<noteq> []
            then (case reportSessions env ch kept c of
                    (r, c) \<Rightarrow> Some (errors_Join (errs @ err_list r), n, c))
            else Some (errors_Join errs, n, c)))"

section \<open>The set job\<close>

definition reportedUsage :: "session \<Rightarrow> peer \<Rightarrow> int \<times> int \<times> bool" where
  "reportedUsage item p =
    (let up = i64 (ses_BaseUpload item + peer_Upload p);
         down = i64 (ses_BaseDownload item + peer_Download p)
     in (up, down, up \<noteq> ses_Upload item))"

text \<open>\<^verbatim>\<open>Limit(1).Find\<close>: the first of the matching rows, if any.\<close>

definition db_Find1 :: "'d database \<Rightarrow> session \<Rightarrow> 'd \<Rightarrow> session list result \<times> 'd" where
  "db_Find1 db w d = (case db_Find db w d of (Inl e, d') \<Rightarrow> (Inl e, d') | (Inr xs, d') \<Rightarrow> (Inr (take 1 xs), d'))"

definition over_allocation :: "session \<Rightarrow> peer \<Rightarrow> bool" where
  "over_allocation item p \<longleftrightarrow>
    0 < ses_Available item \<and> ses_Available item < i64 (peer_Upload p + peer_Download p)"

definition drop_peer ::
  "'s service \<Rightarrow> string \<Rightarrow> gerror list \<times> ('s, 'd) node \<Rightarrow> gerror list \<times> ('s, 'd) node"
where
  "drop_peer svc key st =
    (case st of (errs, n) \<Rightarrow>
      case ctx_RemovePeer svc key (nd_svc n) of (r, s) \<Rightarrow> (errs @ err_list r, n\<lparr>nd_svc := s\<rparr>))"

definition set_peer ::
  "'s service \<Rightarrow> 'd database \<Rightarrow> peer \<Rightarrow> gerror list \<times> ('s, 'd) node \<Rightarrow> gerror list \<times> ('s, 'd) node"
where
  "set_peer svc db p st =
    (case st of (errs, n) \<Rightarrow>
      case db_Find1 db (zero_session\<lparr>ses_Key := peer_Key p\<rparr>) (nd_db n) of
        (Inl e, d) \<Rightarrow> (errs @ [e], n\<lparr>nd_db := d\<rparr>)
      | (Inr [], d) \<Rightarrow> drop_peer svc (peer_Key p) (errs, n\<lparr>nd_db := d\<rparr>)
      | (Inr (item # _), d) \<Rightarrow>
         (case reportedUsage item p of (up, down, moved) \<Rightarrow>
           if \<not> moved then (errs, n\<lparr>nd_db := d\<rparr>)
           else
             (case db_Updates db (ses_ID item) up down d of (r, d) \<Rightarrow>
               let st = (errs @ err_list r, n\<lparr>nd_db := d\<rparr>)
               in if over_allocation item p then drop_peer svc (ses_Key item) st else st)))"

definition set_pass ::
  "'s service \<Rightarrow> 'd database \<Rightarrow> peer list \<Rightarrow> ('s, 'd) node \<Rightarrow> gerror list \<times> ('s, 'd) node"
where
  "set_pass svc db peers n = for_each (set_peer svc db) peers ([], n)"

definition setSessions :: "'s service \<Rightarrow> 'd database \<Rightarrow> ('s, 'd) node \<Rightarrow> unit result \<times> ('s, 'd) node" where
  "setSessions svc db n =
    (case svc_Peers svc (nd_svc n) of
       (Inl e, s) \<Rightarrow> (Inl e, n\<lparr>nd_svc := s\<rparr>)
     | (Inr peers, s) \<Rightarrow>
        (case set_pass svc db peers (n\<lparr>nd_svc := s\<rparr>) of (errs, n') \<Rightarrow> (errors_Join errs, n')))"

section \<open>Reconciliation at start-up\<close>

definition sessionNeedsReport :: "session \<Rightarrow> chain_session \<Rightarrow> bool option" where
  "sessionNeedsReport item s =
    (if cs_Status s \<noteq> StatusActive then Some False else map_option Not (usage_matches item s))"

fun to_report :: "'c chain \<Rightarrow> session list \<Rightarrow> 'c \<Rightarrow> session list option \<times> 'c" where
  "to_report ch [] c = (Some [], c)"
| "to_report ch (item # items) c =
    (case ch_QuerySession ch (ses_ID item) c of
       (Inl e, c) \<Rightarrow> to_report ch items c
     | (Inr None, c) \<Rightarrow> to_report ch items c
     | (Inr (Some s), c) \<Rightarrow>
        (case sessionNeedsReport item s of
           None \<Rightarrow> (None, c)
         | Some needs \<Rightarrow>
            (case to_report ch items c of
               (rest, c) \<Rightarrow> (map_option (\<lambda>r. if needs then item # r else r) rest, c))))"

definition clearSessions :: "'d database \<Rightarrow> 'd \<Rightarrow> unit result \<times> 'd" where
  "clearSessions db d = db_DeleteAll db d"

definition compactDatabase :: "'d database \<Rightarrow> 'd \<Rightarrow> 'd" where
  "compactDatabase db d = snd (db_Vacuum db d)"

text \<open>The error of the first query is not looked at: a failed query leaves no items.\<close>

definition ReconcileSessions ::
  "settings \<Rightarrow> 'd database \<Rightarrow> 'c chain \<Rightarrow> 'd \<times> 'c \<Rightarrow> (unit result \<times> 'd \<times> 'c) option"
where
  "ReconcileSessions env db ch w =
    (case db_Find db zero_session (fst w) of
       (r, d) \<Rightarrow>
        (case (case r of Inl e \<Rightarrow> [] | Inr items \<Rightarrow> items) of
           [] \<Rightarrow> Some (ok, compactDatabase db d, snd w)
         | item # rest \<Rightarrow>
            (case to_report ch (item # rest) (snd w) of
               (None, c) \<Rightarrow> None
             | (Some report, c) \<Rightarrow>
                (let c = (if report \<noteq> [] then snd (UpdateSessions env ch report c) else c) in
                 case clearSessions db d of
                   (Inl e, d) \<Rightarrow> Some (Inl e, d, c)
                 | (Inr _, d) \<Rightarrow> Some (ok, compactDatabase db d, c)))))"

section \<open>Verdicts\<close>

text \<open>A session that leaves the table also loses its peer and is not reported.\<close>

lemma checkSession_removeSession:
  assumes "checkSession ch item c = (Some v, c')" "v_removeSession v"
  shows "v_removePeer v \<and> v_skipUpdate v"
  using assms
  by (auto simp: checkSession_def session_verdict_def Let_def
      split: prod.splits sum.splits option.splits if_splits)

lemma checkSession_err_skips:
  assumes "checkSession ch item c = (Some v, c')" "v_err v = Some e"
  shows "v_skipUpdate v"
  using assms
  by (auto simp: checkSession_def session_verdict_def Let_def
      split: prod.splits sum.splits option.splits if_splits)

text \<open>A session is reported only when the chain holds it, and holds other totals than the table.\<close>

lemma usage_matches_total: "in_i64 (cs_UploadBytes s) \<Longrightarrow> in_i64 (cs_DownloadBytes s) \<Longrightarrow>
    usage_matches item s =
      Some (ses_Upload item = cs_UploadBytes s \<and> ses_Download item = cs_DownloadBytes s)"
  by (auto simp: usage_matches_def sdk_Int64_def)

lemma usage_matches_sound: "usage_matches item s = Some b \<Longrightarrow>
    b = (ses_Upload item = cs_UploadBytes s \<and> ses_Download item = cs_DownloadBytes s)"
  by (auto simp: usage_matches_def sdk_Int64_def split: option.splits if_splits)

lemma checkSession_reports:
  assumes "checkSession ch item c = (Some v, c')" "\<not> v_skipUpdate v"
  shows "\<exists>s c1. ch_QuerySession ch (ses_ID item) c = (Inr (Some s), c1) \<and> cs_Status s \<noteq> StatusInactive \<and>
    (ses_Upload item \<noteq> cs_UploadBytes s \<or> ses_Download item \<noteq> cs_DownloadBytes s)"
proof -
  obtain q c1 where q: "ch_QuerySession ch (ses_ID item) c = (q, c1)" by fastforce
  obtain s where s: "q = Inr (Some s)"
    using assms q by (cases q) (auto simp: checkSession_def split: option.splits)
  obtain b where b: "usage_matches item s = Some b"
    using assms q s by (cases "usage_matches item s") (auto simp: checkSession_def)
  have "\<not> v_skipUpdate (session_verdict item s b)"
    using assms q s b
    by (auto simp: checkSession_def Let_def split: prod.splits sum.splits option.splits if_splits)
  then show ?thesis
    using q s usage_matches_sound [OF b] by (auto simp: session_verdict_def)
qed

section \<open>What a pass keeps\<close>

text \<open>\<open>same_table\<close>: the rows are the same but for their usage and time of update.\<close>

definition row_ident :: "session \<Rightarrow> session" where
  "row_ident r = r\<lparr>ses_Upload := 0, ses_Download := 0, ses_UpdatedAt := 0\<rparr>"

definition same_table :: "session list \<Rightarrow> session list \<Rightarrow> bool" where
  "same_table rs rs' \<longleftrightarrow> map row_ident rs = map row_ident rs'"

lemma row_ident_set_usage [simp]: "row_ident (set_usage i up down t r) = row_ident r"
  by (simp add: row_ident_def set_usage_def)

lemma same_table_refl [simp]: "same_table rs rs"
  by (simp add: same_table_def)

lemma same_table_trans: "same_table a b \<Longrightarrow> same_table b c \<Longrightarrow> same_table a c"
  by (simp add: same_table_def)

lemma same_table_map: "(\<And>r. f (row_ident r) = f r) \<Longrightarrow> same_table rs rs' \<Longrightarrow> map f rs' = map f rs"
proof -
  assume f: "\<And>r. f (row_ident r) = f r" and t: "same_table rs rs'"
  have "map f rs' = map f (map row_ident rs')" "map f rs = map f (map row_ident rs)"
    by (simp_all add: f comp_def)
  with t show ?thesis by (simp add: same_table_def del: map_map)
qed

lemma same_table_keys:
  assumes "same_table rs rs'"
  shows "map ses_Key rs' = map ses_Key rs" "map ses_ID rs' = map ses_ID rs"
    "map ses_Available rs' = map ses_Available rs"
    "map (\<lambda>r. (ses_Key r, ses_ID r)) rs' = map (\<lambda>r. (ses_Key r, ses_ID r)) rs"
  using assms by (auto intro!: same_table_map simp: row_ident_def)

lemma same_table_key_set: "same_table rs rs' \<Longrightarrow> ses_Key ` set rs' = ses_Key ` set rs"
  using same_table_keys(1) by (metis set_map)

lemma map_eq_set_pair:
  "map f rs' = map f rs \<Longrightarrow> x \<in> set rs' \<Longrightarrow> \<exists>y \<in> set rs. f y = f x"
  by (metis imageE image_eqI set_map)

lemma same_table_keyed: "same_table rs rs' \<Longrightarrow> keyed rs \<Longrightarrow> keyed rs'"
  unfolding keyed_def using map_eq_set_pair [OF same_table_keys(1)] by metis

lemma same_table_rows_inv: "same_table rs rs' \<Longrightarrow> rows_inv rs \<Longrightarrow> rows_inv rs'"
  unfolding rows_inv_def using same_table_keys [of rs rs'] map_eq_set_pair [of ses_ID rs' rs] by metis

lemma Updates_same_table:
  assumes "gorm_doc db rows" "db_Updates db i up down d = (r, d')"
  shows "same_table (rows d) (rows d')"
proof (cases r)
  case (Inl e)
  then show ?thesis using gorm_Updates_err [OF assms(1)] assms(2) by simp
next
  case (Inr u)
  then have "db_Updates db i up down d = (ok, d')" using assms(2) by simp
  from gorm_Updates_ok [OF assms(1) this] show ?thesis by (auto simp: same_table_def comp_def)
qed

lemma db_Find1_rows:
  assumes "gorm_doc db rows" "db_Find1 db w d = (r, d')"
  shows "rows d' = rows d"
    and "r = Inr xs \<Longrightarrow> set xs \<subseteq> {x \<in> set (rows d). where_matches w x}"
    and "r = Inr [] \<Longrightarrow> \<forall>x \<in> set (rows d). \<not> where_matches w x"
proof -
  obtain q where f: "db_Find db w d = (q, d')"
    and r: "r = (case q of Inl e \<Rightarrow> Inl e | Inr ys \<Rightarrow> Inr (take 1 ys))"
    using assms(2) by (auto simp: db_Find1_def split: prod.splits sum.splits)
  show "rows d' = rows d" by (rule gorm_Find_rows [OF assms(1) f])
  show "r = Inr xs \<Longrightarrow> set xs \<subseteq> {x \<in> set (rows d). where_matches w x}"
    using r f gorm_Find_set [OF assms(1)] by (cases q) (auto dest!: in_set_takeD)
  show "r = Inr [] \<Longrightarrow> \<forall>x \<in> set (rows d). \<not> where_matches w x"
    using r f gorm_Find_set [OF assms(1), of w d _ d'] by (cases q) auto
qed

lemma where_zero [simp]: "where_matches zero_session r"
  by (simp add: where_matches_def zero_session_def)

section \<open>The jobs over any service that keeps the contract\<close>

definition keyed_peer :: "peer \<Rightarrow> bool" where
  "keyed_peer p \<longleftrightarrow> (\<exists>d. d \<noteq> [] \<and> peer_Key p = session_key d)"

text \<open>The row of a peer carries the upload total the service's counter gives.\<close>

definition metered_in :: "session list \<Rightarrow> peer \<Rightarrow> bool" where
  "metered_in rs p \<longleftrightarrow>
    (\<exists>r \<in> set rs. ses_Key r = peer_Key p \<and> ses_Upload r = i64 (ses_BaseUpload r + peer_Upload p))"

lemma metered_in_set_usage:
  assumes "rows_inv rs" "item \<in> set rs" "ses_Key item \<noteq> peer_Key p" "metered_in rs p"
  shows "metered_in (map (set_usage (ses_ID item) up down t) rs) p"
proof -
  obtain r where r: "r \<in> set rs" "ses_Key r = peer_Key p" "ses_Upload r = i64 (ses_BaseUpload r + peer_Upload p)"
    using assms(4) by (auto simp: metered_in_def)
  have "ses_ID r \<noteq> ses_ID item" using rows_inv_unique [OF assms(1) r(1) assms(2)] r(2) assms(3) by auto
  then have "set_usage (ses_ID item) up down t r = r" by (simp add: set_usage_def)
  then show ?thesis unfolding metered_in_def using r by (auto intro!: bexI [of _ r] simp: image_iff intro: bexI [of _ r])
qed

context vpn_service
begin

lemma drop_peer_law:
  assumes "inv (nd_svc n)" "drop_peer svc k (errs, n) = (errs', n')"
  shows "inv (nd_svc n')" "keys (nd_svc n') \<subseteq> keys (nd_svc n)" "nd_db n' = nd_db n"
    "errs' = [] \<Longrightarrow> errs = [] \<and> (\<exists>s. ctx_RemovePeer svc k (nd_svc n) = (ok, s))"
    "errs' = [] \<Longrightarrow> k = session_key d \<Longrightarrow> d \<noteq> [] \<Longrightarrow> k \<notin> keys (nd_svc n')"
proof -
  obtain r s where rm: "ctx_RemovePeer svc k (nd_svc n) = (r, s)" by fastforce
  have n': "n' = n\<lparr>nd_svc := s\<rparr>" "errs' = errs @ err_list r"
    using assms(2) rm by (auto simp: drop_peer_def)
  note any = ctx_RemovePeer_any [OF assms(1) rm]
  have r: "errs' = [] \<Longrightarrow> r = ok" using n'(2) by (cases r) (auto simp: err_list_def)
  show "inv (nd_svc n')" "keys (nd_svc n') \<subseteq> keys (nd_svc n)" "nd_db n' = nd_db n"
    using any n'(1) by simp_all
  show "errs' = [] \<Longrightarrow> errs = [] \<and> (\<exists>s. ctx_RemovePeer svc k (nd_svc n) = (ok, s))"
    using r rm n'(2) by simp
  show "k \<notin> keys (nd_svc n')" if "errs' = []" "k = session_key d" "d \<noteq> []"
    using ctx_RemovePeer_law [OF assms(1), of d r s] rm that r n'(1) by simp
qed

lemma set_peer_cases:
  assumes "set_peer svc db p (errs, n) = (errs', n')"
  obtains
    (failed) e d where "db_Find1 db (zero_session\<lparr>ses_Key := peer_Key p\<rparr>) (nd_db n) = (Inl e, d)"
      "errs' = errs @ [e]" "n' = n\<lparr>nd_db := d\<rparr>"
  | (unknown) d where "db_Find1 db (zero_session\<lparr>ses_Key := peer_Key p\<rparr>) (nd_db n) = (Inr [], d)"
      "drop_peer svc (peer_Key p) (errs, n\<lparr>nd_db := d\<rparr>) = (errs', n')"
  | (idle) item rest d where
      "db_Find1 db (zero_session\<lparr>ses_Key := peer_Key p\<rparr>) (nd_db n) = (Inr (item # rest), d)"
      "i64 (ses_BaseUpload item + peer_Upload p) = ses_Upload item" "errs' = errs" "n' = n\<lparr>nd_db := d\<rparr>"
  | (moved) item rest d r d' where
      "db_Find1 db (zero_session\<lparr>ses_Key := peer_Key p\<rparr>) (nd_db n) = (Inr (item # rest), d)"
      "db_Updates db (ses_ID item) (i64 (ses_BaseUpload item + peer_Upload p))
        (i64 (ses_BaseDownload item + peer_Download p)) d = (r, d')"
      "\<not> over_allocation item p" "errs' = errs @ err_list r" "n' = n\<lparr>nd_db := d'\<rparr>"
  | (over) item rest d r d' where
      "db_Find1 db (zero_session\<lparr>ses_Key := peer_Key p\<rparr>) (nd_db n) = (Inr (item # rest), d)"
      "db_Updates db (ses_ID item) (i64 (ses_BaseUpload item + peer_Upload p))
        (i64 (ses_BaseDownload item + peer_Download p)) d = (r, d')"
      "over_allocation item p"
      "drop_peer svc (ses_Key item) (errs @ err_list r, n\<lparr>nd_db := d'\<rparr>) = (errs', n')"
proof -
  obtain q d where f: "db_Find1 db (zero_session\<lparr>ses_Key := peer_Key p\<rparr>) (nd_db n) = (q, d)" by fastforce
  show thesis
  proof (cases q)
    case (Inl e)
    then show thesis using failed assms f by (auto simp: set_peer_def)
  next
    case (Inr xs)
    show thesis
    proof (cases xs)
      case Nil
      then show thesis using unknown assms f Inr by (auto simp: set_peer_def)
    next
      case (Cons item rest)
      obtain r d' where u: "db_Updates db (ses_ID item) (i64 (ses_BaseUpload item + peer_Upload p))
        (i64 (ses_BaseDownload item + peer_Download p)) d = (r, d')" by fastforce
      show thesis
        using idle [of item rest d] moved [of item rest d r d'] over [of item rest d r d'] assms f Inr Cons u
        by (auto simp: set_peer_def reportedUsage_def Let_def split: if_splits)
    qed
  qed
qed

lemma set_peer_law:
  assumes doc: "gorm_doc db rows" and inv: "inv (nd_svc n)"
    and run: "set_peer svc db p (errs, n) = (errs', n')"
  shows "inv (nd_svc n') \<and> keys (nd_svc n') \<subseteq> keys (nd_svc n) \<and>
    same_table (rows (nd_db n)) (rows (nd_db n')) \<and> (errs' = [] \<longrightarrow> errs = [])"
  using run
proof (cases rule: set_peer_cases)
  case (failed e d)
  then show ?thesis using inv db_Find1_rows(1) [OF doc failed(1)] by simp
next
  case (unknown d)
  then show ?thesis using drop_peer_law(1,2,3,4) [OF _ unknown(2)] inv db_Find1_rows(1) [OF doc unknown(1)] by simp
next
  case (idle item rest d)
  then show ?thesis using inv db_Find1_rows(1) [OF doc idle(1)] by simp
next
  case (moved item rest d r d')
  then show ?thesis
    using inv db_Find1_rows(1) [OF doc moved(1)] Updates_same_table [OF doc moved(2)] by simp
next
  case (over item rest d r d')
  then show ?thesis
    using drop_peer_law(1,2,3,4) [OF _ over(4)] inv db_Find1_rows(1) [OF doc over(1)]
      Updates_same_table [OF doc over(2)] by simp
qed

lemma found_row:
  assumes "gorm_doc db rows" "keyed_peer p"
    and "db_Find1 db (zero_session\<lparr>ses_Key := peer_Key p\<rparr>) d = (Inr (item # rest), d')"
  shows "item \<in> set (rows d) \<and> ses_Key item = peer_Key p"
proof -
  have "peer_Key p \<noteq> []" using assms(2) by (metis b64_encode_empty_iff keyed_peer_def)
  then show ?thesis using db_Find1_rows(2) [OF assms(1,3) refl] by (simp add: where_Key)
qed

text \<open>The rows after the visit of a peer: the same, or with the usage of the peer's row set.\<close>

lemma set_peer_rows:
  assumes doc: "gorm_doc db rows" and inv: "inv (nd_svc n)" and p: "keyed_peer p"
    and run: "set_peer svc db p (errs, n) = (errs', n')"
  obtains
    (same) "rows (nd_db n') = rows (nd_db n)"
      "errs' = [] \<Longrightarrow> peer_Key p \<in> keys (nd_svc n') \<Longrightarrow> metered_in (rows (nd_db n)) p"
  | (set) item up down t where "item \<in> set (rows (nd_db n))" "ses_Key item = peer_Key p"
      "up = i64 (ses_BaseUpload item + peer_Upload p)"
      "rows (nd_db n') = map (set_usage (ses_ID item) up down t) (rows (nd_db n))"
proof -
  have upd: thesis
    if f: "db_Find1 db (zero_session\<lparr>ses_Key := peer_Key p\<rparr>) (nd_db n) = (Inr (item # rest), d)"
      and u: "db_Updates db (ses_ID item) (i64 (ses_BaseUpload item + peer_Upload p))
        (i64 (ses_BaseDownload item + peer_Download p)) d = (r, d')"
      and n': "nd_db n' = d'" and e: "errs' = [] \<Longrightarrow> r = ok"
    for item rest d r d'
  proof (cases r)
    case (Inl e)
    then have "rows (nd_db n') = rows (nd_db n)"
      using gorm_Updates_err [OF doc] u n' db_Find1_rows(1) [OF doc f] by simp
    moreover have "errs' \<noteq> []" using e Inl by auto
    ultimately show thesis by (intro same) auto
  next
    case (Inr v)
    then have "db_Updates db (ses_ID item) (i64 (ses_BaseUpload item + peer_Upload p))
        (i64 (ses_BaseDownload item + peer_Download p)) d = (ok, d')" using u by simp
    from gorm_Updates_ok [OF doc this] show thesis
      using set [of item] found_row [OF doc p f] n' db_Find1_rows(1) [OF doc f] by auto
  qed
  show thesis
    using run
  proof (cases rule: set_peer_cases)
    case (failed e d)
    then show thesis using same db_Find1_rows(1) [OF doc failed(1)] by simp
  next
    case (unknown d)
    obtain b where "b \<noteq> []" "peer_Key p = session_key b" using p by (auto simp: keyed_peer_def)
    then have "errs' = [] \<Longrightarrow> peer_Key p \<notin> keys (nd_svc n')"
      using drop_peer_law(5) [OF _ unknown(2)] inv by simp
    then show thesis
      using same drop_peer_law(3) [OF _ unknown(2)] inv db_Find1_rows(1) [OF doc unknown(1)] by simp
  next
    case (idle item rest d)
    have "metered_in (rows (nd_db n)) p"
      using found_row [OF doc p idle(1)] idle(2) by (auto simp: metered_in_def)
    then show thesis using same db_Find1_rows(1) [OF doc idle(1)] idle by simp
  next
    case (moved item rest d r d')
    then show thesis by (intro upd [OF moved(1,2)]) (auto simp: err_list_def split: sum.splits)
  next
    case (over item rest d r d')
    show thesis
      using drop_peer_law(3,4) [OF _ over(4)] inv
      by (intro upd [OF over(1,2)]) (auto simp: err_list_def split: sum.splits)
  qed
qed

lemma set_peer_meters:
  assumes doc: "gorm_doc db rows" and inv: "inv (nd_svc n)" and p: "keyed_peer p"
    and run: "set_peer svc db p (errs, n) = (errs', n')"
    and ok: "errs' = []" and served: "peer_Key p \<in> keys (nd_svc n')"
  shows "metered_in (rows (nd_db n')) p"
  using doc inv p run
proof (cases rule: set_peer_rows)
  case same
  then show ?thesis using ok served by simp
next
  case (set item up down t)
  have "set_usage (ses_ID item) up down t item \<in> set (rows (nd_db n'))" using set by simp
  moreover have "ses_Upload (set_usage (ses_ID item) up down t item) = up" by (simp add: set_usage_def)
  ultimately show ?thesis using set(2,3) unfolding metered_in_def by (metis set_usage_fields(2,6))
qed

lemma set_peer_keeps_metered:
  assumes doc: "gorm_doc db rows" and inv: "inv (nd_svc n)" and p: "keyed_peer p"
    and run: "set_peer svc db p (errs, n) = (errs', n')" and rinv: "rows_inv (rows (nd_db n))"
    and other: "peer_Key p' \<noteq> peer_Key p" "metered_in (rows (nd_db n)) p'"
  shows "metered_in (rows (nd_db n')) p'"
  using doc inv p run
proof (cases rule: set_peer_rows)
  case same
  then show ?thesis using other by simp
next
  case (set item up down t)
  then show ?thesis using metered_in_set_usage [OF rinv set(1) _ other(2)] other(1) by simp
qed

lemma for_each_set_peer_law:
  assumes "gorm_doc db rows" "inv (nd_svc n)" "for_each (set_peer svc db) peers (errs, n) = (errs', n')"
  shows "inv (nd_svc n') \<and> keys (nd_svc n') \<subseteq> keys (nd_svc n) \<and>
    same_table (rows (nd_db n)) (rows (nd_db n')) \<and> (errs' = [] \<longrightarrow> errs = [])"
  using assms(2,3)
proof (induction peers arbitrary: errs n)
  case (Cons p ps)
  obtain e1 n1 where s1: "set_peer svc db p (errs, n) = (e1, n1)" by fastforce
  note l1 = set_peer_law [OF assms(1) Cons.prems(1) s1]
  from Cons.IH [of n1 e1] l1 Cons.prems(2) s1 show ?case
    using same_table_trans by auto
qed simp

lemmas set_pass_law = for_each_set_peer_law [where errs = "[]", folded set_pass_def]

lemma for_each_keeps_metered:
  assumes "gorm_doc db rows" "inv (nd_svc n)" "for_each (set_peer svc db) peers (errs, n) = (errs', n')"
    and "rows_inv (rows (nd_db n))" "\<forall>q \<in> set peers. keyed_peer q"
    and "peer_Key p \<notin> peer_Key ` set peers" "metered_in (rows (nd_db n)) p"
  shows "metered_in (rows (nd_db n')) p"
  using assms(2-)
proof (induction peers arbitrary: errs n)
  case (Cons y ys)
  obtain e1 n1 where s1: "set_peer svc db y (errs, n) = (e1, n1)" by fastforce
  have y: "keyed_peer y" "peer_Key p \<noteq> peer_Key y" using Cons.prems(4,5) by auto
  note l1 = set_peer_law [OF assms(1) Cons.prems(1) s1]
  show ?case
  proof (rule Cons.IH)
    show "inv (nd_svc n1)" using l1 by simp
    show "for_each (set_peer svc db) ys (e1, n1) = (errs', n')" using Cons.prems(2) s1 by simp
    show "rows_inv (rows (nd_db n1))" using l1 same_table_rows_inv Cons.prems(3) by blast
    show "metered_in (rows (nd_db n1)) p"
      by (rule set_peer_keeps_metered [OF assms(1) Cons.prems(1) y(1) s1 Cons.prems(3) y(2) Cons.prems(6)])
  qed (use Cons.prems(4,5) in auto)
qed simp

lemma for_each_set_peer_meters:
  assumes "gorm_doc db rows" "inv (nd_svc n)" "for_each (set_peer svc db) peers (errs, n) = ([], n')"
    and "rows_inv (rows (nd_db n))" "\<forall>p \<in> set peers. keyed_peer p" "distinct (map peer_Key peers)"
    and "p \<in> set peers" "peer_Key p \<in> keys (nd_svc n')"
  shows "metered_in (rows (nd_db n')) p"
  using assms(2-)
proof (induction peers arbitrary: errs n)
  case (Cons x xs)
  obtain e1 n1 where s1: "set_peer svc db x (errs, n) = (e1, n1)" by fastforce
  have rest: "for_each (set_peer svc db) xs (e1, n1) = ([], n')" using Cons.prems(2) s1 by simp
  note l1 = set_peer_law [OF assms(1) Cons.prems(1) s1]
  have x: "keyed_peer x" using Cons.prems(4) by simp
  have rinv: "rows_inv (rows (nd_db n1))" using l1 same_table_rows_inv Cons.prems(3) by blast
  show ?case
  proof (cases "p \<in> set xs")
    case True
    then show ?thesis using Cons.IH [OF _ rest rinv] l1 Cons.prems by simp
  next
    case False
    then have px: "p = x" using Cons.prems(6) by simp
    have l2: "keys (nd_svc n') \<subseteq> keys (nd_svc n1)" "e1 = []"
      using for_each_set_peer_law [OF assms(1) _ rest] l1 by auto
    have m1: "metered_in (rows (nd_db n1)) p"
      using set_peer_meters [OF assms(1) Cons.prems(1) x s1 l2(2)] px l2(1) Cons.prems(7) by auto
    show ?thesis
      by (rule for_each_keeps_metered [OF assms(1) _ rest rinv])
        (use l1 m1 px Cons.prems(4,5) in auto)
  qed
qed simp

lemma retire_law:
  assumes doc: "gorm_doc db rows" and inv: "inv (nd_svc n)"
    and run: "retire svc db item rp rs n = (r, n')"
  shows "inv (nd_svc n')" "keys (nd_svc n') \<subseteq> keys (nd_svc n)"
    "rows (nd_db n') = rows (nd_db n) \<or>
      rs \<and> rows (nd_db n') = filter (\<lambda>x. ses_ID x \<noteq> ses_ID item) (rows (nd_db n)) \<and>
      (rp \<longrightarrow> (\<forall>d. d \<noteq> [] \<longrightarrow> ses_Key item = session_key d \<longrightarrow> ses_Key item \<notin> keys (nd_svc n')))"
proof -
  obtain q s where rm: "(if rp then ctx_RemovePeerIfExists svc (ses_Key item) (nd_svc n) else (ok, nd_svc n)) = (q, s)"
    by fastforce
  obtain v d where del: "db_Delete db (ses_ID item) (nd_db n) = (v, d)" by fastforce
  have s: "inv s \<and> keys s \<subseteq> keys (nd_svc n)"
    using rm inv ctx_RemovePeerIfExists_any [OF inv] by (auto split: if_splits)
  have gone: "rp \<Longrightarrow> q = ok \<Longrightarrow> b \<noteq> [] \<Longrightarrow> ses_Key item = session_key b \<Longrightarrow> ses_Key item \<notin> keys s" for b
    using rm ctx_RemovePeerIfExists_law [OF inv, of b q s] by auto
  have n': "n' = (if is_ok q \<and> rs then n\<lparr>nd_svc := s, nd_db := d\<rparr> else n\<lparr>nd_svc := s\<rparr>)"
    using run unfolding retire_def rm by (auto simp: del split: sum.splits if_splits)
  show "inv (nd_svc n')" "keys (nd_svc n') \<subseteq> keys (nd_svc n)" using n' s by auto
  have "rows d = rows (nd_db n) \<or> rows d = filter (\<lambda>x. ses_ID x \<noteq> ses_ID item) (rows (nd_db n))"
    using gorm_Delete_err [OF doc] gorm_Delete_ok [OF doc] del by (cases v) auto
  then show "rows (nd_db n') = rows (nd_db n) \<or>
      rs \<and> rows (nd_db n') = filter (\<lambda>x. ses_ID x \<noteq> ses_ID item) (rows (nd_db n)) \<and>
      (rp \<longrightarrow> (\<forall>d. d \<noteq> [] \<longrightarrow> ses_Key item = session_key d \<longrightarrow> ses_Key item \<notin> keys (nd_svc n')))"
    using n' gone by (auto simp: is_ok_iff)
qed

text \<open>Every session the pass retires from the table has lost its peer; the rows and peers only shrink.\<close>

lemma update_loop_law:
  assumes doc: "gorm_doc db rows" and inv: "inv (nd_svc n)"
    and run: "update_loop svc db ch items (errs, kept, n, c) = Some (errs', kept', n', c')"
  shows "inv (nd_svc n') \<and> keys (nd_svc n') \<subseteq> keys (nd_svc n) \<and>
    set (rows (nd_db n')) \<subseteq> set (rows (nd_db n)) \<and>
    (rows_inv (rows (nd_db n)) \<longrightarrow> rows_inv (rows (nd_db n'))) \<and>
    set kept' \<subseteq> set kept \<union> set items"
  using inv run
proof (induction items arbitrary: errs kept n c)
  case (Cons item rest)
  obtain o1 c1 where chk: "checkSession ch item c = (o1, c1)" by fastforce
  obtain v where v: "o1 = Some v" using Cons.prems(2) chk by (cases o1) auto
  obtain r n1 where ret: "(if v_removePeer v \<or> v_removeSession v
      then retire svc db item (v_removePeer v) (v_removeSession v) n else (ok, n)) = (r, n1)" by fastforce
  have n1: "inv (nd_svc n1) \<and> keys (nd_svc n1) \<subseteq> keys (nd_svc n) \<and>
      set (rows (nd_db n1)) \<subseteq> set (rows (nd_db n)) \<and> (rows_inv (rows (nd_db n)) \<longrightarrow> rows_inv (rows (nd_db n1)))"
  proof (cases "v_removePeer v \<or> v_removeSession v")
    case True
    then have "retire svc db item (v_removePeer v) (v_removeSession v) n = (r, n1)" using ret by simp
    from retire_law [OF doc Cons.prems(1) this] show ?thesis by (auto simp: rows_inv_filter)
  qed (use ret Cons.prems(1) in simp)
  have run': "update_loop svc db ch rest
      (errs @ (case v_err v of None \<Rightarrow> [] | Some e \<Rightarrow> [session_error item e]) @ err_list r,
       if v_skipUpdate v \<or> v_err v \<noteq> None then kept else item # kept, n1, c1) = Some (errs', kept', n', c')"
    using Cons.prems(2) chk v ret by (simp add: Let_def)
  from Cons.IH [OF conjunct1 [OF n1] run'] n1 show ?case by (auto split: if_splits)
qed simp

end

section \<open>Transactions of a report\<close>

text \<open>A chain client that also records every transaction and whether the chain took it.\<close>

definition tx_logged :: "'c chain \<Rightarrow> ('c \<times> (msg_update_session list \<times> bool) list) chain" where
  "tx_logged ch =
    \<lparr>ch_QuerySession = (\<lambda>i (c, L). case ch_QuerySession ch i c of (r, c') \<Rightarrow> (r, c', L)),
     ch_QuerySubscription = (\<lambda>i (c, L). case ch_QuerySubscription ch i c of (r, c') \<Rightarrow> (r, c', L)),
     ch_QueryAllocation = (\<lambda>i a (c, L). case ch_QueryAllocation ch i a c of (r, c') \<Rightarrow> (r, c', L)),
     ch_Tx = (\<lambda>ms (c, L). case ch_Tx ch ms c of (r, c') \<Rightarrow> (r, c', L @ [(ms, is_ok r)]))\<rparr>"

lemma tx_logged_simps [simp]:
  "ch_QuerySession (tx_logged ch) i (c, L) = (case ch_QuerySession ch i c of (r, c') \<Rightarrow> (r, c', L))"
  "ch_Tx (tx_logged ch) ms (c, L) = (case ch_Tx ch ms c of (r, c') \<Rightarrow> (r, c', L @ [(ms, is_ok r)]))"
  by (simp_all add: tx_logged_def)

definition ended_on_chain :: "'c chain \<Rightarrow> session \<Rightarrow> bool" where
  "ended_on_chain ch item \<longleftrightarrow>
    (\<exists>c1 c2 s. ch_QuerySession ch (ses_ID item) c1 = (Inr s, c2) \<and>
      (s = None \<or> map_option cs_Status s = Some StatusInactive))"

definition delivered :: "settings \<Rightarrow> (msg_update_session list \<times> bool) list \<Rightarrow> session \<Rightarrow> bool" where
  "delivered env L item \<longleftrightarrow> (\<exists>ms. (ms, True) \<in> set L \<and> update_msg env item \<in> set ms)"

lemma recheck_logged: "recheck (tx_logged ch) items (c, L) =
    (case recheck ch items c of (still, q, c') \<Rightarrow> (still, q, c', L))"
  by (induction items arbitrary: c) (auto split: prod.splits sum.splits)

lemma recheck_law:
  assumes "recheck ch items c = (still, q, c')"
  shows "set still \<subseteq> set items" "length still \<le> length items"
    "it \<in> set items \<Longrightarrow> it \<in> set still \<or> ended_on_chain ch it"
    "q = 0 \<Longrightarrow> still = items"
proof -
  have "set still \<subseteq> set items \<and> length still \<le> length items \<and>
    (\<forall>it \<in> set items. it \<in> set still \<or> ended_on_chain ch it) \<and> (q = 0 \<longrightarrow> still = items)"
    using assms
  proof (induction items arbitrary: c still q)
    case (Cons x xs)
    obtain r c1 where qs: "ch_QuerySession ch (ses_ID x) c = (r, c1)" by fastforce
    obtain st q1 c2 where rc: "recheck ch xs c1 = (st, q1, c2)" by (metis prod_cases3)
    have c2: "c2 = c'" using Cons.prems qs rc by (auto split: sum.splits)
    note IH = Cons.IH [OF rc [unfolded c2]]
    have "ended_on_chain ch x" if "r = Inr s" "s = None \<or> map_option cs_Status s = Some StatusInactive" for s
      using that qs unfolding ended_on_chain_def by blast
    then show ?case using Cons.prems qs rc IH by (cases r) (auto split: if_splits)
  qed simp
  then show "set still \<subseteq> set items" "length still \<le> length items"
    "it \<in> set items \<Longrightarrow> it \<in> set still \<or> ended_on_chain ch it" "q = 0 \<Longrightarrow> still = items"
    by auto
qed

lemma report_each_logged:
  assumes "report_each env (tx_logged ch) items errs (c, L) = (errs', c', L')"
  shows "length L' = length L + length items" "set L \<subseteq> set L'" "length errs \<le> length errs'"
    "length errs' = length errs \<Longrightarrow> it \<in> set items \<Longrightarrow> delivered env L' it"
proof -
  have "length L' = length L + length items \<and> set L \<subseteq> set L' \<and> length errs \<le> length errs' \<and>
    (length errs' = length errs \<longrightarrow> (\<forall>it \<in> set items. delivered env L' it))"
    using assms
  proof (induction items arbitrary: errs c L)
    case (Cons x xs)
    obtain r c1 where tx: "ch_Tx ch [update_msg env x] c = (r, c1)" by fastforce
    define errs1 where "errs1 = (case r of Inl e \<Rightarrow> errs @ [session_error x e] | Inr _ \<Rightarrow> errs)"
    have "report_each env (tx_logged ch) xs errs1 (c1, L @ [([update_msg env x], is_ok r)]) = (errs', c', L')"
      using Cons.prems tx by (cases r) (auto simp: UpdateSessions_def errs1_def)
    note IH = Cons.IH [OF this]
    have d: "delivered env L' x" if "is_ok r"
    proof -
      have "([update_msg env x], True) \<in> set L'" using IH that by auto
      then show ?thesis unfolding delivered_def by (metis list.set_intros(1))
    qed
    show ?case using IH d by (cases r) (auto simp: errs1_def)
  qed simp
  then show "length L' = length L + length items" "set L \<subseteq> set L'" "length errs \<le> length errs'"
    "length errs' = length errs \<Longrightarrow> it \<in> set items \<Longrightarrow> delivered env L' it"
    by auto
qed

lemma report_singly_logged:
  assumes "report_singly env (tx_logged ch) still (c, L) = (r, c', L')"
  shows "length L' = length L + length still" "set L \<subseteq> set L'"
    "r = ok \<Longrightarrow> it \<in> set still \<Longrightarrow> delivered env L' it"
proof -
  obtain errs where e: "report_each env (tx_logged ch) still [] (c, L) = (errs, c', L')" "r = errors_Join errs"
    using assms by (auto simp: report_singly_def split: prod.splits)
  show "length L' = length L + length still" "set L \<subseteq> set L'"
    "r = ok \<Longrightarrow> it \<in> set still \<Longrightarrow> delivered env L' it"
    using report_each_logged [OF e(1)] e(2) by auto
qed

text \<open>The course of a report: taken at once; all ended; no answers; the rest taken; or one by one.\<close>

lemma reportSessions_cases:
  assumes "reportSessions env (tx_logged ch) items (c, L) = (r, c', L')"
  obtains
    (at_once) "r = ok" "L' = L @ [(map (update_msg env) items, True)]"
  | (all_ended) c1 q c2 where "recheck ch items c1 = ([], q, c2)" "r = ok"
      "L' = L @ [(map (update_msg env) items, False)]"
  | (no_answer) c1 c2 still err where "recheck ch items c1 = (still, 0, c2)" "r = Inl err" "still \<noteq> []"
      "L' = L @ [(map (update_msg env) items, False)]"
  | (rest) c1 q c2 still where "recheck ch items c1 = (still, q, c2)" "r = ok" "0 < q"
      "L' = L @ [(map (update_msg env) items, False), (map (update_msg env) still, True)]"
  | (singly) c1 q c2 still L1 c3 where "recheck ch items c1 = (still, q, c2)" "0 < q"
      "L1 = L @ [(map (update_msg env) items, False)] \<or>
       L1 = L @ [(map (update_msg env) items, False), (map (update_msg env) still, False)]"
      "report_singly env (tx_logged ch) still (c3, L1) = (r, c', L')"
proof -
  obtain t c1 where t: "ch_Tx ch (map (update_msg env) items) c = (t, c1)" by fastforce
  obtain still q c2 where rc: "recheck ch items c1 = (still, q, c2)" by (metis prod_cases3)
  obtain t2 c3 where t2: "ch_Tx ch (map (update_msg env) still) c2 = (t2, c3)" by fastforce
  define L1 where "L1 = L @ [(map (update_msg env) items, False)]"
  note run = assms [unfolded reportSessions_def UpdateSessions_def]
  show thesis
  proof (cases t)
    case (Inr u)
    then show thesis using at_once run t by simp
  next
    case (Inl err)
    then have run1: "(if still = [] then (ok, c2, L1) else if q = 0 then (Inl err, c2, L1)
        else if length still < length items then
          (case UpdateSessions env (tx_logged ch) still (c2, L1) of
             (Inr _, c) \<Rightarrow> (ok, c) | (Inl _, c) \<Rightarrow> report_singly env (tx_logged ch) still c)
        else report_singly env (tx_logged ch) still (c2, L1)) = (r, c', L')"
      using run t rc t2 by (simp add: recheck_logged L1_def UpdateSessions_def cong: if_cong split del: if_split)
    show thesis
    proof (cases "still = [] \<or> q = 0")
      case True
      then show thesis using run1 rc all_ended [of c1 q c2] no_answer [of c1 still c2 err]
        by (auto simp: L1_def split: if_splits)
    next
      case False
      show thesis
      proof (cases "length still < length items \<and> is_ok t2")
        case True
        then show thesis using run1 rc t2 False rest [of c1 still q c2]
          by (auto simp: L1_def UpdateSessions_def is_ok_iff)
      next
        case singles: False
        then show thesis
          using run1 rc t2 False singly [OF rc, of L1 c2] singly [OF rc, of "L1 @ [(map (update_msg env) still, False)]" c3]
          by (cases t2) (auto simp: L1_def UpdateSessions_def split: if_splits)
      qed
    qed
  qed
qed

lemma delivered_map: "(map (update_msg env) items, True) \<in> set L \<Longrightarrow> it \<in> set items \<Longrightarrow> delivered env L it"
  unfolding delivered_def by fastforce


text \<open>A chain for worked examples: the sessions it holds; it refuses a transaction that names a session
  it does not hold, every subscription is active and every allocation has a thousand bytes.\<close>

definition ledger_chain :: "chain_session list chain" where
  "ledger_chain =
    \<lparr>ch_QuerySession = (\<lambda>i c. (Inr (find (\<lambda>s. cs_ID s = i) c), c)),
     ch_QuerySubscription = (\<lambda>i c. (Inr (Some \<lparr>sub_ID = i, sub_Status = StatusActive\<rparr>), c)),
     ch_QueryAllocation = (\<lambda>i a c. (Inr (Some \<lparr>al_GrantedBytes = 1000, al_UtilisedBytes = 0\<rparr>), c)),
     ch_Tx = (\<lambda>ms c. if set (map msg_ID ms) \<subseteq> set (map cs_ID c) then (ok, c)
        else (Inl ''session not found'', c))\<rparr>"

definition demo_settings :: settings where
  "demo_settings = \<lparr>set_MaxPeers = 2, set_Address = ''sentnode1''\<rparr>"

definition demo_session :: "64 word \<Rightarrow> string \<Rightarrow> chain_session" where
  "demo_session i acc =
    \<lparr>cs_ID = i, cs_AccAddress = acc, cs_NodeAddress = ''sentnode1'', cs_Status = StatusActive, cs_StatusAt = 0,
     cs_DownloadBytes = 0, cs_UploadBytes = 0, cs_TotalBytes = 0, cs_MaxBytes = 500, cs_Duration = 0,
     cs_SubscriptionID = None\<rparr>"

definition demo_row :: "64 word \<Rightarrow> bytes \<Rightarrow> session" where
  "demo_row i k = zero_session\<lparr>ses_ID := i, ses_Key := session_key k, ses_Address := ''sent1'', ses_Upload := 7\<rparr>"

lemmas demo_defs = ledger_chain_def demo_settings_def demo_session_def demo_row_def zero_session_def


text \<open>One session never holds back another: when the chain can be asked, a session it has not ended and
  whose report it takes on its own is delivered, whatever becomes of the rest of the batch.\<close>

lemma recheck_answered:
  assumes "\<And>i c. is_ok (fst (ch_QuerySession ch i c))" "recheck ch items c = (still, q, c')"
  shows "q = length items"
  using assms(2)
proof (induction items arbitrary: c still q)
  case (Cons x xs)
  obtain r c1 where qs: "ch_QuerySession ch (ses_ID x) c = (r, c1)" by fastforce
  then obtain s where "r = Inr s" using assms(1) [of "ses_ID x" c] by (auto simp: is_ok_iff)
  then show ?case using Cons qs by (auto split: prod.splits)
qed simp

lemma report_each_takes:
  assumes "\<And>c. is_ok (fst (ch_Tx ch [update_msg env it] c))"
    and "report_each env (tx_logged ch) items errs (c, L) = (errs', c', L')" "it \<in> set items"
  shows "delivered env L' it"
  using assms(2,3)
proof (induction items arbitrary: errs c L)
  case (Cons x xs)
  obtain r c1 where tx: "ch_Tx ch [update_msg env x] c = (r, c1)" by fastforce
  define L1 where "L1 = L @ [([update_msg env x], is_ok r)]"
  obtain errs1 where rest: "report_each env (tx_logged ch) xs errs1 (c1, L1) = (errs', c', L')"
    using Cons.prems(1) tx by (cases r) (auto simp: UpdateSessions_def L1_def)
  show ?case
  proof (cases "x = it")
    case True
    then have "is_ok r" using assms(1) [of c] tx by simp
    then have "([update_msg env it], True) \<in> set L1" using True by (simp add: L1_def)
    then show ?thesis using report_each_logged(2) [OF rest] unfolding delivered_def by fastforce
  next
    case False
    then show ?thesis using Cons.IH [OF rest] Cons.prems(2) by simp
  qed
qed simp


text \<open>A chain that holds every session and always refuses a report on session two.\<close>

definition picky_chain :: "unit chain" where
  "picky_chain =
    \<lparr>ch_QuerySession = (\<lambda>i c. (Inr (Some (demo_session i ''sent1'')), c)),
     ch_QuerySubscription = (\<lambda>i c. (Inr None, c)),
     ch_QueryAllocation = (\<lambda>i a c. (Inr None, c)),
     ch_Tx = (\<lambda>ms c. if 2 \<in> set (map msg_ID ms) then (Inl ''session not found'', c) else (ok, c))\<rparr>"


end
