(* ===== verification/Interleaving.thy ===== *)
theory Interleaving
  imports Jobs
begin

text \<open>
  Concurrent handshakes and jobs. Everything that changes the peers or the session table runs under
  the admission lock, so a run of the node is an interleaving of locked sections with the work done
  between them: a handshake that passed the pre-check and holds the chain's answer, a snapshot of
  the peers taken by \<^verbatim>\<open>setSessions\<close>, and the sessions \<^verbatim>\<open>updateSessions\<close> has read and not yet
  settled. \<^verbatim>\<open>sys_step\<close> is that transition system; the chain may change at any moment.
\<close>

section \<open>The transition system\<close>

record ('s, 'd, 'c) sys =
  sy_node :: "('s, 'd) node"
  sy_chain :: 'c
  sy_pending :: "(admit_request \<times> admission) list"
  sy_peers :: "peer list option"
  sy_items :: "session list"
  sy_verdict :: "(session \<times> verdict) option"
  sy_leaked :: "string set"

text \<open>\<open>sy_leaked\<close> only records, for the statement of the metering property, the keys that a refused
  handshake left in the service.\<close>

definition leaves_behind :: "'s service \<Rightarrow> admit_request \<Rightarrow> api_error + admit_result \<Rightarrow> 's \<Rightarrow> 's \<Rightarrow> string set" where
  "leaves_behind svc req r s s' =
    (if \<not> is_ok r \<and> \<not> svc_HasPeer svc (rq_PeerData req) s \<and> svc_HasPeer svc (rq_PeerData req) s'
     then {PeerKey req} else {})"

inductive sys_step ::
  "settings \<Rightarrow> 's service \<Rightarrow> 'd database \<Rightarrow> 'c chain \<Rightarrow> ('s, 'd, 'c) sys \<Rightarrow> ('s, 'd, 'c) sys \<Rightarrow> bool"
  for env svc db ch
where
  refuse: "checkCapacity env svc db req (sy_node S) = (Inl e, n) \<Longrightarrow>
    sys_step env svc db ch S (S\<lparr>sy_node := n\<rparr>)"
| begin_admit: "checkCapacity env svc db req (sy_node S) = (Inr u, n) \<Longrightarrow>
    queryAdmission env ch req (sy_chain S) = (Inr a, c) \<Longrightarrow> rq_ID req \<noteq> 0 \<Longrightarrow> rq_PeerData req \<noteq> [] \<Longrightarrow>
    sys_step env svc db ch S (S\<lparr>sy_node := n, sy_chain := c, sy_pending := (req, a) # sy_pending S\<rparr>)"
| commit: "sy_pending S = xs @ (req, a) # ys \<Longrightarrow>
    admit_locked env svc db req a (sy_node S) = (r, n) \<Longrightarrow>
    sys_step env svc db ch S (S\<lparr>sy_node := n, sy_pending := xs @ ys,
      sy_leaked := sy_leaked S \<union> leaves_behind svc req r (nd_svc (sy_node S)) (nd_svc n)\<rparr>)"
| snapshot: "sy_peers S = None \<Longrightarrow> svc_Peers svc (nd_svc (sy_node S)) = (r, s) \<Longrightarrow>
    sys_step env svc db ch S (S\<lparr>sy_node := (sy_node S)\<lparr>nd_svc := s\<rparr>,
      sy_peers := (case r of Inl _ \<Rightarrow> None | Inr ps \<Rightarrow> Some ps)\<rparr>)"
| set_sessions: "sy_peers S = Some ps \<Longrightarrow> set_pass svc db ps (sy_node S) = (errs, n) \<Longrightarrow>
    sys_step env svc db ch S (S\<lparr>sy_node := n, sy_peers := None\<rparr>)"
| load: "sy_items S = [] \<Longrightarrow> sy_verdict S = None \<Longrightarrow>
    db_Find db zero_session (nd_db (sy_node S)) = (Inr items, d) \<Longrightarrow>
    sys_step env svc db ch S (S\<lparr>sy_node := (sy_node S)\<lparr>nd_db := d\<rparr>, sy_items := rev items\<rparr>)"
| check: "sy_items S = item # rest \<Longrightarrow> sy_verdict S = None \<Longrightarrow>
    checkSession ch item (sy_chain S) = (Some v, c) \<Longrightarrow>
    sys_step env svc db ch S (S\<lparr>sy_chain := c, sy_items := rest, sy_verdict := Some (item, v)\<rparr>)"
| settle: "sy_verdict S = Some (item, v) \<Longrightarrow>
    (if v_removePeer v \<or> v_removeSession v
     then retire svc db item (v_removePeer v) (v_removeSession v) (sy_node S) else (ok, sy_node S)) = (r, n) \<Longrightarrow>
    sys_step env svc db ch S (S\<lparr>sy_node := n, sy_verdict := None\<rparr>)"
| chain_moves: "sys_step env svc db ch S (S\<lparr>sy_chain := c\<rparr>)"

inductive_cases sys_step_elim: "sys_step env svc db ch S S'"

inductive sys_reach ::
  "settings \<Rightarrow> 's service \<Rightarrow> 'd database \<Rightarrow> 'c chain \<Rightarrow> ('s, 'd, 'c) sys \<Rightarrow> ('s, 'd, 'c) sys \<Rightarrow> bool"
  for env svc db ch
where
  reach_refl: "sys_reach env svc db ch S S"
| reach_step: "sys_reach env svc db ch S T \<Longrightarrow> sys_step env svc db ch T U \<Longrightarrow> sys_reach env svc db ch S U"

text \<open>A peer left behind stays on record.\<close>

lemma sys_step_leaks: "sys_step env svc db ch S T \<Longrightarrow> sy_leaked S \<subseteq> sy_leaked T"
  by (cases rule: sys_step.cases) auto

definition sys_start :: "('s, 'd) node \<Rightarrow> 'c \<Rightarrow> ('s, 'd, 'c) sys" where
  "sys_start n c = \<lparr>sy_node = n, sy_chain = c, sy_pending = [], sy_peers = None, sy_items = [],
    sy_verdict = None, sy_leaked = {}\<rparr>"

section \<open>The invariant\<close>

definition work :: "('s, 'd, 'c) sys \<Rightarrow> session list" where
  "work S = (case sy_verdict S of None \<Rightarrow> [] | Some (it, _) \<Rightarrow> [it]) @ sy_items S"

text \<open>The sessions the update job holds are still in the table, each under its own key.\<close>

definition work_ok :: "session list \<Rightarrow> session list \<Rightarrow> bool" where
  "work_ok rs its \<longleftrightarrow> distinct (map ses_ID its) \<and>
    (\<forall>it \<in> set its. (ses_ID it, ses_Key it) \<in> (\<lambda>r. (ses_ID r, ses_Key r)) ` set rs)"

definition sys_inv ::
  "settings \<Rightarrow> ('s \<Rightarrow> string set) \<Rightarrow> ('s \<Rightarrow> bool) \<Rightarrow> ('d \<Rightarrow> session list) \<Rightarrow> ('s, 'd, 'c) sys \<Rightarrow> bool"
where
  "sys_inv env keys good rows S \<longleftrightarrow>
    (let s = nd_svc (sy_node S); rs = rows (nd_db (sy_node S)) in
     good s \<and> rows_inv rs \<and> keyed rs \<and> work_ok rs (work S) \<and>
     (\<forall>(req, a) \<in> set (sy_pending S). rq_ID req \<noteq> 0 \<and> rq_PeerData req \<noteq> []) \<and>
     (\<forall>it v. sy_verdict S = Some (it, v) \<longrightarrow> v_removeSession v \<longrightarrow> v_removePeer v) \<and>
     int (card (keys s)) \<le> set_MaxPeers env \<and> keys s \<subseteq> ses_Key ` set rs \<union> sy_leaked S)"

lemma work_ok_mono: "work_ok rs its \<Longrightarrow> set rs \<subseteq> set rs' \<Longrightarrow> work_ok rs' its"
  unfolding work_ok_def using image_mono [of "set rs" "set rs'" "\<lambda>r. (ses_ID r, ses_Key r)"] by (meson subsetD)

lemma work_ok_same: "work_ok rs its \<Longrightarrow> same_table rs rs' \<Longrightarrow> work_ok rs' its"
proof -
  assume w: "work_ok rs its" and t: "same_table rs rs'"
  have "map (\<lambda>r. (ses_ID r, ses_Key r)) rs' = map (\<lambda>r. (ses_ID r, ses_Key r)) rs"
    using t by (auto intro!: same_table_map simp: row_ident_def)
  then have "(\<lambda>r. (ses_ID r, ses_Key r)) ` set rs' = (\<lambda>r. (ses_ID r, ses_Key r)) ` set rs"
    by (simp only: set_map [symmetric])
  with w show ?thesis by (simp add: work_ok_def)
qed

lemma work_ok_delete:
  assumes "work_ok rs (it # its)"
  shows "work_ok (filter (\<lambda>r. ses_ID r \<noteq> ses_ID it) rs) its"
  using assms unfolding work_ok_def by (fastforce simp: image_iff)

lemma work_ok_tail: "work_ok rs (it # its) \<Longrightarrow> work_ok rs its"
  by (simp add: work_ok_def)

lemma keyed_filter: "keyed rs \<Longrightarrow> keyed (filter P rs)"
  by (simp add: keyed_def)

lemma Find_work_ok:
  assumes "gorm_doc db rows" "db_Find db zero_session d = (Inr items, d')" "rows_inv (rows d)"
  shows "work_ok (rows d) (rev items)"
proof -
  have m: "mset items = mset (rows d)"
    using conjunct1 [OF conjunct1 [OF assms(1) [unfolded gorm_doc_def gorm_reads_def]], rule_format, OF assms(2)]
    by (simp add: filter_True)
  then have "mset (map ses_ID items) = mset (map ses_ID (rows d))" by simp
  then have "distinct (map ses_ID items)"
    using assms(3) unfolding rows_inv_def by (metis mset_eq_imp_distinct_iff)
  moreover have "set items = set (rows d)" using m by (rule mset_eq_setD)
  ultimately show ?thesis by (auto simp: work_ok_def rev_map [symmetric])
qed

section \<open>Preservation\<close>

context vpn_service
begin

text \<open>A change that serves no new peer and keeps the table's identities keeps the invariant.\<close>

lemma sys_inv_shrink:
  assumes "sys_inv env keys inv rows S" "inv (nd_svc n)" "keys (nd_svc n) \<subseteq> keys (nd_svc (sy_node S))"
    and "same_table (rows (nd_db (sy_node S))) (rows (nd_db n))"
  shows "sys_inv env keys inv rows (S\<lparr>sy_node := n\<rparr>)"
proof -
  have i: "inv (nd_svc (sy_node S))" using assms(1) by (simp add: sys_inv_def Let_def)
  have "card (keys (nd_svc n)) \<le> card (keys (nd_svc (sy_node S)))"
    by (rule card_mono [OF finite_keys [OF i] assms(3)])
  moreover have "work (S\<lparr>sy_node := n\<rparr>) = work S" by (simp add: work_def)
  ultimately show ?thesis
    using assms same_table_key_set [OF assms(4)] same_table_keyed [OF assms(4)] same_table_rows_inv [OF assms(4)]
      work_ok_same [OF _ assms(4)]
    by (auto simp: sys_inv_def Let_def)
qed

lemma sys_inv_ghost:
  assumes "sys_inv env keys inv rows S"
  shows "sys_inv env keys inv rows (S\<lparr>sy_peers := ps\<rparr>)" "sys_inv env keys inv rows (S\<lparr>sy_chain := c\<rparr>)"
  using assms by (simp_all add: sys_inv_def Let_def work_def)

lemma commit_keeps:
  assumes doc: "gorm_doc db rows" and I: "sys_inv env keys inv rows S"
    and leaks: "readd \<or> sy_leaked S = {}"
    and pend: "sy_pending S = xs @ (req, a) # ys"
    and run: "admit_locked env svc db req a (sy_node S) = (r, n)"
  shows "sys_inv env keys inv rows (S\<lparr>sy_node := n, sy_pending := xs @ ys,
      sy_leaked := sy_leaked S \<union> leaves_behind svc req r (nd_svc (sy_node S)) (nd_svc n)\<rparr>)"
proof -
  let ?s = "nd_svc (sy_node S)" and ?rs = "rows (nd_db (sy_node S))"
  have i: "inv ?s" and id: "rq_ID req \<noteq> 0" and d: "rq_PeerData req \<noteq> []"
    using I pend by (auto simp: sys_inv_def Let_def)
  have fresh: "PeerKey req \<in> ses_Key ` set ?rs \<or> readd \<or> PeerKey req \<notin> keys ?s"
    using I leaks by (auto simp: sys_inv_def Let_def)
  note law = admit_locked_inv [OF doc i id fresh run]
  have cap: "int (card (keys (nd_svc n))) \<le> set_MaxPeers env"
    using law(1,4) I i by (simp add: sys_inv_def Let_def PeerCount_law)
  have key: "PeerKey req = session_key (rq_PeerData req)" by (simp add: PeerKey_def)
  have rows_cases: "rows (nd_db n) = ?rs \<and> \<not> is_ok r \<or>
      (\<exists>x. rows (nd_db n) = ?rs @ [x] \<and> ses_Key x = PeerKey req)"
    using doc i run
  proof (cases rule: admit_locked_cases)
    case (add m items s d' d1 d2)
    have pre: "inv (nd_svc ((sy_node S)\<lparr>nd_svc := s, nd_db := d'\<rparr>))"
      "readd \<or> PeerKey req \<notin> keys (nd_svc ((sy_node S)\<lparr>nd_svc := s, nd_db := d'\<rparr>))"
      using fresh add(3,8,9) by auto
    note add_law = add_and_record_law(4,5) [OF doc pre(1) id pre(2) add(11)]
    show ?thesis
    proof (cases r)
      case (Inl e)
      then show ?thesis using add_law(2) add(10) by simp
    next
      case (Inr x)
      then show ?thesis using add_law(1) add(10) by fastforce
    qed
  qed auto
  have meter: "keys (nd_svc n) \<subseteq> ses_Key ` set (rows (nd_db n)) \<union> sy_leaked S \<union>
      leaves_behind svc req r ?s (nd_svc n)"
  proof
    fix k assume k: "k \<in> keys (nd_svc n)"
    have old: "k \<in> keys ?s \<Longrightarrow> k \<in> ses_Key ` set (rows (nd_db n)) \<union> sy_leaked S"
      using I rows_cases by (auto simp: sys_inv_def Let_def)
    show "k \<in> ses_Key ` set (rows (nd_db n)) \<union> sy_leaked S \<union> leaves_behind svc req r ?s (nd_svc n)"
    proof (cases "k \<in> keys ?s \<or> is_ok r")
      case True
      then show ?thesis using old rows_cases law(3) k by auto
    next
      case False
      then have "k = PeerKey req" using law(3) k by auto
      then show ?thesis
        using False k key HasPeer_law [OF i d] HasPeer_law [OF law(1) d] by (auto simp: leaves_behind_def)
    qed
  qed
  have "set ?rs \<subseteq> set (rows (nd_db n))" using rows_cases by auto
  then have "work_ok (rows (nd_db n)) (work S)"
    using I work_ok_mono by (auto simp: sys_inv_def Let_def)
  moreover have "keyed (rows (nd_db n))"
    using I rows_cases key d by (auto simp: sys_inv_def Let_def keyed_def)
  ultimately show ?thesis
    using I law(1,2) cap meter pend by (auto simp: sys_inv_def Let_def work_def)
qed

lemma settle_keeps:
  assumes doc: "gorm_doc db rows" and I: "sys_inv env keys inv rows S"
    and v: "sy_verdict S = Some (item, v)"
    and run: "(if v_removePeer v \<or> v_removeSession v
     then retire svc db item (v_removePeer v) (v_removeSession v) (sy_node S) else (ok, sy_node S)) = (r, n)"
  shows "sys_inv env keys inv rows (S\<lparr>sy_node := n, sy_verdict := None\<rparr>)"
proof -
  let ?s = "nd_svc (sy_node S)" and ?rs = "rows (nd_db (sy_node S))"
  have i: "inv ?s" and rinv: "rows_inv ?rs" and kd: "keyed ?rs" and w: "work_ok ?rs (item # sy_items S)"
    and rs_rp: "v_removeSession v \<Longrightarrow> v_removePeer v"
    using I v by (auto simp: sys_inv_def Let_def work_def)
  have "inv (nd_svc n) \<and> keys (nd_svc n) \<subseteq> keys ?s \<and> (rows (nd_db n) = ?rs \<or>
      rows (nd_db n) = filter (\<lambda>x. ses_ID x \<noteq> ses_ID item) ?rs \<and>
      (\<forall>d. d \<noteq> [] \<longrightarrow> ses_Key item = session_key d \<longrightarrow> ses_Key item \<notin> keys (nd_svc n)))"
  proof (cases "v_removePeer v \<or> v_removeSession v")
    case True
    then have "retire svc db item (v_removePeer v) (v_removeSession v) (sy_node S) = (r, n)" using run by simp
    from retire_law [OF doc i this] rs_rp show ?thesis by auto
  qed (use run i in auto)
  note law = this
  obtain row where row: "row \<in> set ?rs" "ses_ID row = ses_ID item" "ses_Key row = ses_Key item"
    using w by (auto simp: work_ok_def)
  obtain b where b: "b \<noteq> []" "ses_Key item = session_key b" using kd row by (auto simp: keyed_def)
  have meter: "keys (nd_svc n) \<subseteq> ses_Key ` set (rows (nd_db n)) \<union> sy_leaked S"
  proof
    fix k assume k: "k \<in> keys (nd_svc n)"
    then have k': "k \<in> ses_Key ` set ?rs \<union> sy_leaked S" using law I by (auto simp: sys_inv_def Let_def)
    show "k \<in> ses_Key ` set (rows (nd_db n)) \<union> sy_leaked S"
    proof (cases "rows (nd_db n) = ?rs \<or> k \<in> sy_leaked S")
      case True
      then show ?thesis using k' by auto
    next
      case False
      then obtain x where x: "x \<in> set ?rs" "k = ses_Key x" using k' by auto
      have "k \<noteq> ses_Key item" using law False b k by auto
      then have "ses_ID x \<noteq> ses_ID item" using rows_inv_unique [OF rinv x(1) row(1)] row x(2) by auto
      then show ?thesis using law False x by auto
    qed
  qed
  have "card (keys (nd_svc n)) \<le> card (keys ?s)" using law card_mono [OF finite_keys [OF i]] by blast
  then have cap: "int (card (keys (nd_svc n))) \<le> set_MaxPeers env"
    using I by (auto simp: sys_inv_def Let_def)
  have "rows_inv (rows (nd_db n))" "keyed (rows (nd_db n))" "work_ok (rows (nd_db n)) (sy_items S)"
    using law rinv kd w rows_inv_filter keyed_filter work_ok_delete work_ok_tail by metis+
  then show ?thesis using I law cap meter by (auto simp: sys_inv_def Let_def work_def)
qed

lemma sys_inv_inv: "sys_inv env keys inv rows S \<Longrightarrow> inv (nd_svc (sy_node S))"
  by (simp add: sys_inv_def Let_def)

lemma sys_inv_pending:
  "sys_inv env keys inv rows S \<Longrightarrow> rq_ID req \<noteq> 0 \<Longrightarrow> rq_PeerData req \<noteq> [] \<Longrightarrow>
    sys_inv env keys inv rows (S\<lparr>sy_chain := c, sy_pending := (req, a) # sy_pending S\<rparr>)"
  by (simp add: sys_inv_def Let_def work_def)

lemma sys_inv_check:
  "sys_inv env keys inv rows S \<Longrightarrow> sy_items S = item # rest \<Longrightarrow> sy_verdict S = None \<Longrightarrow>
    (v_removeSession v \<Longrightarrow> v_removePeer v) \<Longrightarrow>
    sys_inv env keys inv rows (S\<lparr>sy_chain := c, sy_items := rest, sy_verdict := Some (item, v)\<rparr>)"
  by (simp add: sys_inv_def Let_def work_def)

lemma sys_step_keeps:
  assumes doc: "gorm_doc db rows" and I: "sys_inv env keys inv rows S" and step: "sys_step env svc db ch S T"
    and leaks: "readd \<or> sy_leaked S = {}"
  shows "sys_inv env keys inv rows T"
  using step
proof (cases rule: sys_step.cases)
  case (refuse req e n)
  then show ?thesis
    using checkCapacity_keeps [OF doc refuse(2)] by (auto intro!: sys_inv_shrink [OF I] simp: sys_inv_inv [OF I])
next
  case (begin_admit req u n a c)
  have "sys_inv env keys inv rows (S\<lparr>sy_node := n\<rparr>)"
    using checkCapacity_keeps [OF doc begin_admit(2)]
    by (auto intro!: sys_inv_shrink [OF I] simp: sys_inv_inv [OF I])
  from sys_inv_pending [OF this begin_admit(4,5)] show ?thesis using begin_admit(1) by simp
next
  case (commit xs req a ys r n)
  from commit_keeps [OF doc I leaks commit(2) commit(3)] show ?thesis by (rule ssubst [OF commit(1)])
next
  case (snapshot r s)
  note law = Peers_law [OF sys_inv_inv [OF I] snapshot(3)]
  have "sys_inv env keys inv rows (S\<lparr>sy_node := (sy_node S)\<lparr>nd_svc := s\<rparr>\<rparr>)"
    by (rule sys_inv_shrink [OF I]) (simp_all add: law)
  from sys_inv_ghost(1) [OF this] snapshot(1) show ?thesis by simp
next
  case (set_sessions ps errs n)
  note law = set_pass_law [OF doc sys_inv_inv [OF I] set_sessions(3)]
  have "sys_inv env keys inv rows (S\<lparr>sy_node := n\<rparr>)" by (rule sys_inv_shrink [OF I]) (simp_all add: law)
  from sys_inv_ghost(1) [OF this] set_sessions(1) show ?thesis by simp
next
  case (load items d)
  have rows: "rows d = rows (nd_db (sy_node S))" by (rule gorm_Find_rows [OF doc load(4)])
  have "rows_inv (rows (nd_db (sy_node S)))" using I by (simp add: sys_inv_def Let_def)
  from Find_work_ok [OF doc load(4) this] show ?thesis
    using I load(1,3) rows by (simp add: sys_inv_def Let_def work_def)
next
  case (check item rest v c)
  have "v_removeSession v \<Longrightarrow> v_removePeer v" using checkSession_removeSession [OF check(4)] by simp
  from sys_inv_check [OF I check(2,3) this] show ?thesis using check(1) by simp
next
  case (settle item v r n)
  from settle_keeps [OF doc I settle(2) settle(3)] show ?thesis by (rule ssubst [OF settle(1)])
next
  case (chain_moves c)
  then show ?thesis using sys_inv_ghost(2) [OF I] by simp
qed

lemma sys_inv_start:
  assumes "inv (nd_svc n)" "keys (nd_svc n) = {}" "rows_inv (rows (nd_db n))" "keyed (rows (nd_db n))"
    and "0 \<le> set_MaxPeers env"
  shows "sys_inv env keys inv rows (sys_start n c)"
  using assms by (simp add: sys_inv_def Let_def sys_start_def work_def work_ok_def)

lemma sys_reach_inv:
  assumes "gorm_doc db rows" "sys_reach env svc db ch S T" "sys_inv env keys inv rows S"
    and "readd \<or> sy_leaked T = {}"
  shows "sys_inv env keys inv rows T"
  using assms(2-)
proof (induction rule: sys_reach.induct)
  case (reach_step S T U)
  have "sy_leaked T \<subseteq> sy_leaked U" by (rule sys_step_leaks [OF reach_step.hyps(2)])
  then have "readd \<or> sy_leaked T = {}" using reach_step.prems(2) by blast
  then show ?case
    using sys_step_keeps [OF assms(1) _ reach_step.hyps(2)] reach_step.IH [OF reach_step.prems(1)] by blast
qed

text \<open>The consequences, in the words of the code.\<close>

lemma sys_reach_safe:
  assumes "gorm_doc db rows" "sys_reach env svc db ch (sys_start n c) T"
    and "inv (nd_svc n)" "keys (nd_svc n) = {}" "rows_inv (rows (nd_db n))" "keyed (rows (nd_db n))"
    and "0 \<le> set_MaxPeers env"
    and "readd \<or> sy_leaked T = {}"
  shows "int (svc_PeerCount svc (nd_svc (sy_node T))) \<le> set_MaxPeers env"
    and "distinct (map ses_ID (rows (nd_db (sy_node T))))"
    and "distinct (map ses_Key (rows (nd_db (sy_node T))))"
    and "d \<noteq> [] \<Longrightarrow> svc_HasPeer svc d (nd_svc (sy_node T)) \<Longrightarrow>
      session_key d \<in> ses_Key ` set (rows (nd_db (sy_node T))) \<union> sy_leaked T"
  using sys_reach_inv [OF assms(1,2) sys_inv_start [of n rows env c, OF assms(3-7)] assms(8)]
  by (auto simp: sys_inv_def Let_def PeerCount_law rows_inv_def HasPeer_law)

end

end
