(* ===== verification/Config.thy ===== *)
theory Config
  imports Url Complex_Main
begin

text \<open>
  The node's configuration, \<^verbatim>\<open>types/config.go\<close>, and the registered protocol names,
  \<^verbatim>\<open>types/nodetype.go\<close>: the sections, their defaults and their validation, in the order of the
  code's checks. Coins, prices and account addresses are parsed by the chain's libraries; those
  parsers are a record the definitions are given. A duration is a number of nanoseconds.
\<close>

section \<open>Floating point numbers\<close>

text \<open>The values of a \<^verbatim>\<open>float64\<close>; every comparison with a NaN is false.\<close>

datatype f64 = Fin rat | PosInf | NegInf | NaN

fun f64_less :: "f64 \<Rightarrow> f64 \<Rightarrow> bool" where
  "f64_less (Fin a) (Fin b) = (a < b)"
| "f64_less NegInf (Fin b) = True"
| "f64_less (Fin a) PosInf = True"
| "f64_less NegInf PosInf = True"
| "f64_less _ _ = False"

definition f64_le :: "f64 \<Rightarrow> f64 \<Rightarrow> bool" where
  "f64_le a b \<longleftrightarrow> f64_less a b \<or> (a = b \<and> a \<noteq> NaN)"

section \<open>Limits\<close>

definition MinPeers :: int where "MinPeers = 1"
definition MaxPeers :: int where "MaxPeers = 250"
definition MinMonikerLength :: nat where "MinMonikerLength = 4"
definition MaxMonikerLength :: nat where "MaxMonikerLength = 32"

abbreviation second :: int where
  "second \<equiv> 1000000000"

definition MinIntervalSetSessions :: int where "MinIntervalSetSessions = 2 * second"
definition MaxIntervalSetSessions :: int where "MaxIntervalSetSessions = 2 * 60 * second"
definition MinIntervalUpdateSessions :: int where "MinIntervalUpdateSessions = 10 * second"
definition MaxIntervalUpdateSessions :: int where "MaxIntervalUpdateSessions = (2 * 3600 - 5 * 60) * second"
definition MinIntervalUpdateStatus :: int where "MinIntervalUpdateStatus = 10 * second"
definition MaxIntervalUpdateStatus :: int where "MaxIntervalUpdateStatus = (3600 - 5 * 60) * second"
definition MaxBandwidthMbps :: rat where "MaxBandwidthMbps = 1000000"

lemmas limit_defs = MinPeers_def MaxPeers_def MinMonikerLength_def MaxMonikerLength_def
  MinIntervalSetSessions_def MaxIntervalSetSessions_def MinIntervalUpdateSessions_def
  MaxIntervalUpdateSessions_def MinIntervalUpdateStatus_def MaxIntervalUpdateStatus_def MaxBandwidthMbps_def

section \<open>Protocol names\<close>

text \<open>The registered names with whether the Handshake resolver may run next to them.\<close>

type_synonym node_types = "(string \<times> bool) list"

definition RegisterNodeType :: "string \<Rightarrow> bool \<Rightarrow> node_types \<Rightarrow> node_types" where
  "RegisterNodeType name dns ts = (name, dns) # filter (\<lambda>x. fst x \<noteq> name) ts"

definition nodeTypeKnown :: "node_types \<Rightarrow> string \<Rightarrow> bool" where
  "nodeTypeKnown ts name \<longleftrightarrow> ts = [] \<or> name \<in> fst ` set ts"

definition nodeTypeAllowsHandshakeDNS :: "node_types \<Rightarrow> string \<Rightarrow> bool" where
  "nodeTypeAllowsHandshakeDNS ts name = (case map_of ts name of None \<Rightarrow> True | Some dns \<Rightarrow> dns)"

section \<open>Sections\<close>

record bandwidth_config =
  bw_DownloadMbps :: f64
  bw_UploadMbps :: f64

record chain_config =
  cc_Gas :: "64 word"
  cc_GasAdjustment :: f64
  cc_GasPrices :: string
  cc_ID :: string
  cc_RPCAddresses :: string
  cc_RPCQueryTimeout :: "64 word"
  cc_RPCTxTimeout :: "64 word"
  cc_SimulateAndExecute :: bool

record egress_config =
  ec_AllowSMTP :: bool

record geoip_config =
  gc_Provider :: string
  gc_URL :: string
  gc_Token :: string
  gc_City :: string
  gc_Country :: string
  gc_Latitude :: f64
  gc_Longitude :: f64

record handshake_config =
  hc_Enable :: bool
  hc_Peers :: "64 word"

record keyring_config =
  kc_Backend :: string
  kc_From :: string
  kc_Granter :: string

record node_config =
  nc_IntervalSetSessions :: int
  nc_IntervalUpdateSessions :: int
  nc_IntervalUpdateStatus :: int
  nc_IPv4Address :: string
  nc_ListenOn :: string
  nc_Moniker :: string
  nc_GigabytePrices :: string
  nc_HourlyPrices :: string
  nc_RemoteURL :: string
  nc_Type :: string
  nc_LegacyHandshake :: bool

record qos_config =
  qc_MaxPeers :: int

record config =
  cfg_Bandwidth :: bandwidth_config
  cfg_Chain :: chain_config
  cfg_Egress :: egress_config
  cfg_GeoIP :: geoip_config
  cfg_Handshake :: handshake_config
  cfg_Keyring :: keyring_config
  cfg_Node :: node_config
  cfg_QOS :: qos_config

text \<open>The chain library's parsers: whether they accept a string, and for prices what they make of it.\<close>

record 'p parsers =
  pa_CoinsNormalized :: "string \<Rightarrow> 'p result"
  pa_PricesFromString :: "string \<Rightarrow> 'p result"
  pa_PricesFromCoins :: "'p \<Rightarrow> 'p result"
  pa_NoPrices :: 'p
  pa_AccAddress :: "string \<Rightarrow> unit result"

definition ParsePrices :: "'p parsers \<Rightarrow> string \<Rightarrow> 'p result" where
  "ParsePrices pa s =
    (let s = trim_space s in
     if s = [] then Inr (pa_NoPrices pa)
     else if CHR '':'' \<in> set s then pa_PricesFromString pa s
     else rbind (pa_CoinsNormalized pa s) (pa_PricesFromCoins pa))"

section \<open>Validation\<close>

definition mbps_checks :: "string \<Rightarrow> f64 \<Rightarrow> (bool \<times> gerror) list" where
  "mbps_checks name v =
    [(v \<in> {NaN, PosInf, NegInf}, name @ '' must be a number''),
     (f64_less v (Fin 0), name @ '' cannot be negative''),
     (f64_less (Fin MaxBandwidthMbps) v, name @ '' cannot be greater than 1000000'')]"

definition bw_Validate :: "bandwidth_config \<Rightarrow> unit result" where
  "bw_Validate c =
    first_error (mbps_checks ''download_mbps'' (bw_DownloadMbps c) @ mbps_checks ''upload_mbps'' (bw_UploadMbps c) @
      [(f64_less (Fin 0) (bw_DownloadMbps c) \<noteq> f64_less (Fin 0) (bw_UploadMbps c),
        ''set both download_mbps and upload_mbps, or neither'')])"

definition bw_WithDefaultValues :: "bandwidth_config \<Rightarrow> bandwidth_config" where
  "bw_WithDefaultValues c = c"

text \<open>\<^verbatim>\<open>IP.IsLoopback\<close>: 127.0.0.0/8 or ::1.\<close>

definition ip_IsLoopback :: "bytes \<Rightarrow> bool" where
  "ip_IsLoopback ip = (case ip_To4 ip of Some q \<Rightarrow> hd q = 127 | None \<Rightarrow> ip = replicate 15 0 @ [1])"

definition loopbackHost :: "string \<Rightarrow> bool" where
  "loopbackHost host \<longleftrightarrow>
    to_lower host = ''localhost'' \<or> (case ParseIP host of None \<Rightarrow> False | Some ip \<Rightarrow> ip_IsLoopback ip)"

definition rpc_check :: "string \<Rightarrow> unit result" where
  "rpc_check item =
    (case ParseRequestURI item of
       None \<Rightarrow> Inl ''invalid rpc_address''
     | Some u \<Rightarrow> first_error
        [(url_Scheme u \<noteq> ''http'' \<and> url_Scheme u \<noteq> ''https'', ''rpc_address scheme must be either http or https''),
         (url_Scheme u = ''http'' \<and> \<not> loopbackHost (Hostname u),
          ''rpc_address must use https; plain http is accepted on loopback only''),
         (url_Port u = [], ''rpc_address port cannot be empty'')])"

fun first_fail :: "('a \<Rightarrow> unit result) \<Rightarrow> 'a list \<Rightarrow> unit result" where
  "first_fail f [] = ok"
| "first_fail f (x # xs) = rbind (f x) (\<lambda>_. first_fail f xs)"

definition cc_Validate :: "'p parsers \<Rightarrow> chain_config \<Rightarrow> unit result" where
  "cc_Validate pa c =
    rbind (first_error
      [(cc_Gas c = 0, ''gas must be positive''),
       (f64_le (cc_GasAdjustment c) (Fin 0), ''gas_adjustment must be positive''),
       (\<not> is_ok (pa_CoinsNormalized pa (cc_GasPrices c)), ''invalid gas_prices''),
       (cc_ID c = [], ''id cannot be empty''),
       (cc_RPCAddresses c = [], ''rpc_addresses cannot be empty'')]) (\<lambda>_.
    rbind (first_fail rpc_check (split_on (CHR '','') (cc_RPCAddresses c))) (\<lambda>_.
    first_error
      [(cc_RPCQueryTimeout c = 0, ''rpc_query_timeout cannot be 0''),
       (cc_RPCTxTimeout c = 0, ''rpc_tx_timeout cannot be 0'')]))"

text \<open>The default adjustment is the nearest \<^verbatim>\<open>float64\<close> to 1.05.\<close>

definition cc_WithDefaultValues :: "chain_config \<Rightarrow> chain_config" where
  "cc_WithDefaultValues c = c\<lparr>cc_Gas := 200000, cc_GasAdjustment := Fin (4728779608739021 / 4503599627370496),
    cc_GasPrices := ''0.1udvpn'', cc_ID := ''sentinelhub-2'',
    cc_RPCAddresses := ''https://sentinel-rpc.publicnode.com:443,https://sentinel-rpc.polkachu.com:443,https://rpc-sentinel.busurnode.com:443,https://rpc.sentineldao.com:443'',
    cc_RPCQueryTimeout := 10, cc_RPCTxTimeout := 30, cc_SimulateAndExecute := True\<rparr>"

definition ec_Validate :: "egress_config \<Rightarrow> unit result" where
  "ec_Validate c = ok"

definition ec_WithDefaultValues :: "egress_config \<Rightarrow> egress_config" where
  "ec_WithDefaultValues c = c\<lparr>ec_AllowSMTP := False\<rparr>"

definition geoip_providers :: "string list" where
  "geoip_providers =
    [''auto'', ''ipwhois'', ''ip2location'', ''cloudflare'', ''ipify'', ''ip-api'', ''ipinfo'', ''none'']"

definition gc_Validate :: "geoip_config \<Rightarrow> unit result" where
  "gc_Validate c = first_error
    [(gc_Provider c \<notin> set geoip_providers,
      ''provider must be one of auto, ipwhois, ip2location, cloudflare, ipify, ip-api, ipinfo, none''),
     (gc_URL c \<noteq> [] \<and> gc_Provider c \<in> {''auto'', ''none''}, ''url cannot be set with provider '' @ gc_Provider c),
     (gc_URL c \<noteq> [] \<and> ParseRequestURI (gc_URL c) = None, ''invalid url''),
     (gc_Provider c = ''ipinfo'' \<and> gc_Token c = [], ''token is required for provider ipinfo''),
     (gc_Provider c \<notin> {''ipinfo'', ''ip2location''} \<and> gc_Token c \<noteq> [],
      ''token is only used by providers ipinfo and ip2location, not '' @ gc_Provider c),
     (f64_less (gc_Latitude c) (Fin (- 90)) \<or> f64_less (Fin 90) (gc_Latitude c),
      ''latitude must be between -90 and 90''),
     (f64_less (gc_Longitude c) (Fin (- 180)) \<or> f64_less (Fin 180) (gc_Longitude c),
      ''longitude must be between -180 and 180'')]"

definition gc_WithDefaultValues :: "geoip_config \<Rightarrow> geoip_config" where
  "gc_WithDefaultValues c = c\<lparr>gc_Provider := ''auto''\<rparr>"

definition hc_Validate :: "handshake_config \<Rightarrow> unit result" where
  "hc_Validate c = first_error [(hc_Enable c \<and> hc_Peers c = 0, ''peers must be positive'')]"

definition hc_WithDefaultValues :: "handshake_config \<Rightarrow> handshake_config" where
  "hc_WithDefaultValues c = c\<lparr>hc_Enable := False, hc_Peers := 8\<rparr>"

definition kc_Validate :: "'p parsers \<Rightarrow> keyring_config \<Rightarrow> unit result" where
  "kc_Validate pa c = first_error
    [(kc_Backend c = [], ''backend cannot be empty''),
     (kc_Backend c \<notin> {''file'', ''test''}, ''backend must be either file or test''),
     (kc_From c = [], ''from cannot be empty''),
     (kc_Granter c \<noteq> [] \<and> \<not> is_ok (pa_AccAddress pa (kc_Granter c)), ''invalid granter'')]"

definition kc_WithDefaultValues :: "keyring_config \<Rightarrow> keyring_config" where
  "kc_WithDefaultValues c = c\<lparr>kc_Backend := ''file'', kc_From := ''operator''\<rparr>"

definition nc_Validate :: "'p parsers \<Rightarrow> node_types \<Rightarrow> node_config \<Rightarrow> unit result" where
  "nc_Validate pa ts c = first_error
    [(nc_IntervalSetSessions c < MinIntervalSetSessions, ''interval_set_sessions cannot be less than 2s''),
     (MaxIntervalSetSessions < nc_IntervalSetSessions c, ''interval_set_sessions cannot be greater than 2m0s''),
     (nc_IntervalUpdateSessions c < MinIntervalUpdateSessions, ''interval_update_sessions cannot be less than 10s''),
     (MaxIntervalUpdateSessions < nc_IntervalUpdateSessions c, ''interval_update_sessions cannot be greater than 1h55m0s''),
     (nc_IntervalUpdateStatus c < MinIntervalUpdateStatus, ''interval_set_sessions cannot be less than 10s''),
     (MaxIntervalUpdateStatus < nc_IntervalUpdateStatus c, ''interval_set_sessions cannot be greater than 55m0s''),
     (nc_IPv4Address c \<noteq> [] \<and> ParseIP (nc_IPv4Address c) = None, ''invalid ipv4_address''),
     (nc_IPv4Address c \<noteq> [] \<and> Option.bind (ParseIP (nc_IPv4Address c)) ip_To4 = None,
      ''ipv4_address format must be in IPv4 format''),
     (nc_ListenOn c = [], ''listen_on cannot be empty''),
     (nc_Moniker c = [], ''moniker cannot be empty''),
     (length (nc_Moniker c) < MinMonikerLength, ''moniker length cannot be less than 4''),
     (MaxMonikerLength < length (nc_Moniker c), ''moniker length cannot be greater than 32''),
     (nc_GigabytePrices c = [], ''gigabyte_prices cannot be empty''),
     (\<not> is_ok (ParsePrices pa (nc_GigabytePrices c)), ''invalid gigabyte_prices''),
     (nc_HourlyPrices c = [], ''hourly_prices cannot be empty''),
     (\<not> is_ok (ParsePrices pa (nc_HourlyPrices c)), ''invalid hourly_prices''),
     (nc_RemoteURL c = [], ''remote_url cannot be empty''),
     (ParseRequestURI (nc_RemoteURL c) = None, ''invalid remote_url''),
     (map_option url_Scheme (ParseRequestURI (nc_RemoteURL c)) \<noteq> Some ''https'', ''remote_url scheme must be https''),
     (map_option url_Port (ParseRequestURI (nc_RemoteURL c)) = Some [], ''remote_url port cannot be empty''),
     (nc_Type c = [], ''type cannot be empty''),
     (\<not> nodeTypeKnown ts (nc_Type c), ''type must be one of'')]"

definition nc_WithDefaultValues :: "nat \<Rightarrow> node_config \<Rightarrow> node_config" where
  "nc_WithDefaultValues port c = c\<lparr>nc_IntervalSetSessions := 10 * second,
    nc_IntervalUpdateSessions := MaxIntervalUpdateSessions, nc_IntervalUpdateStatus := MaxIntervalUpdateStatus,
    nc_ListenOn := ''0.0.0.0:'' @ itoa port, nc_Type := ''wireguard'', nc_LegacyHandshake := False\<rparr>"

definition qc_Validate :: "qos_config \<Rightarrow> unit result" where
  "qc_Validate c = first_error
    [(qc_MaxPeers c < MinPeers, ''max_peers cannot be less than 1''),
     (MaxPeers < qc_MaxPeers c, ''max_peers cannot be greater than 250'')]"

definition qc_WithDefaultValues :: "qos_config \<Rightarrow> qos_config" where
  "qc_WithDefaultValues c = c\<lparr>qc_MaxPeers := MaxPeers\<rparr>"

definition wrap_error :: "gerror \<Rightarrow> unit result \<Rightarrow> unit result" where
  "wrap_error what r = (case r of Inl e \<Rightarrow> Inl (what @ '': '' @ e) | Inr _ \<Rightarrow> ok)"

definition cfg_Validate :: "'p parsers \<Rightarrow> node_types \<Rightarrow> config \<Rightarrow> unit result" where
  "cfg_Validate pa ts c =
    rbind (wrap_error ''invalid section bandwidth'' (bw_Validate (cfg_Bandwidth c))) (\<lambda>_.
    rbind (wrap_error ''invalid section chain'' (cc_Validate pa (cfg_Chain c))) (\<lambda>_.
    rbind (wrap_error ''invalid section egress'' (ec_Validate (cfg_Egress c))) (\<lambda>_.
    rbind (wrap_error ''invalid section geoip'' (gc_Validate (cfg_GeoIP c))) (\<lambda>_.
    rbind (wrap_error ''invalid section handshake'' (hc_Validate (cfg_Handshake c))) (\<lambda>_.
    rbind (wrap_error ''invalid section keyring'' (kc_Validate pa (cfg_Keyring c))) (\<lambda>_.
    rbind (wrap_error ''invalid section node'' (nc_Validate pa ts (cfg_Node c))) (\<lambda>_.
    rbind (wrap_error ''invalid section qos'' (qc_Validate (cfg_QOS c))) (\<lambda>_.
    first_error
      [(gc_Provider (cfg_GeoIP c) = ''none'' \<and> nc_IPv4Address (cfg_Node c) = [],
        ''invalid section node: ipv4_address must be set when geoip.provider is none''),
       (hc_Enable (cfg_Handshake c) \<and> \<not> nodeTypeAllowsHandshakeDNS ts (nc_Type (cfg_Node c)),
        ''invalid section handshake: must be disabled for a '' @ nc_Type (cfg_Node c) @ '' node'')]))))))))"

definition cfg_WithDefaultValues :: "nat \<Rightarrow> config \<Rightarrow> config" where
  "cfg_WithDefaultValues port c =
    \<lparr>cfg_Bandwidth = bw_WithDefaultValues (cfg_Bandwidth c), cfg_Chain = cc_WithDefaultValues (cfg_Chain c),
     cfg_Egress = ec_WithDefaultValues (cfg_Egress c), cfg_GeoIP = gc_WithDefaultValues (cfg_GeoIP c),
     cfg_Handshake = hc_WithDefaultValues (cfg_Handshake c), cfg_Keyring = kc_WithDefaultValues (cfg_Keyring c),
     cfg_Node = nc_WithDefaultValues port (cfg_Node c), cfg_QOS = qc_WithDefaultValues (cfg_QOS c)\<rparr>"

text \<open>A new configuration has every field at its zero value.\<close>

definition NewConfig :: config where
  "NewConfig =
    \<lparr>cfg_Bandwidth = \<lparr>bw_DownloadMbps = Fin 0, bw_UploadMbps = Fin 0\<rparr>,
     cfg_Chain = \<lparr>cc_Gas = 0, cc_GasAdjustment = Fin 0, cc_GasPrices = [], cc_ID = [], cc_RPCAddresses = [],
       cc_RPCQueryTimeout = 0, cc_RPCTxTimeout = 0, cc_SimulateAndExecute = False\<rparr>,
     cfg_Egress = \<lparr>ec_AllowSMTP = False\<rparr>,
     cfg_GeoIP = \<lparr>gc_Provider = [], gc_URL = [], gc_Token = [], gc_City = [], gc_Country = [],
       gc_Latitude = Fin 0, gc_Longitude = Fin 0\<rparr>,
     cfg_Handshake = \<lparr>hc_Enable = False, hc_Peers = 0\<rparr>,
     cfg_Keyring = \<lparr>kc_Backend = [], kc_From = [], kc_Granter = []\<rparr>,
     cfg_Node = \<lparr>nc_IntervalSetSessions = 0, nc_IntervalUpdateSessions = 0, nc_IntervalUpdateStatus = 0,
       nc_IPv4Address = [], nc_ListenOn = [], nc_Moniker = [], nc_GigabytePrices = [], nc_HourlyPrices = [],
       nc_RemoteURL = [], nc_Type = [], nc_LegacyHandshake = False\<rparr>,
     cfg_QOS = \<lparr>qc_MaxPeers = 0\<rparr>\<rparr>"

definition Redacted :: "config \<Rightarrow> config" where
  "Redacted c =
    (if gc_Token (cfg_GeoIP c) \<noteq> []
     then c\<lparr>cfg_GeoIP := (cfg_GeoIP c)\<lparr>gc_Token := ''<redacted>''\<rparr>\<rparr> else c)"

section \<open>What a valid configuration guarantees\<close>

lemma wrap_error_ok: "wrap_error what r = ok \<longleftrightarrow> r = ok" "is_ok (wrap_error what r) \<longleftrightarrow> is_ok r"
  by (cases r; auto simp: wrap_error_def)+

lemma rbind_ok: "rbind r f = ok \<longleftrightarrow> (\<exists>a. r = Inr a \<and> f a = ok)"
  by (cases r) auto

lemma rbind_wrap: "rbind (wrap_error what r) f = ok \<longleftrightarrow> r = ok \<and> f () = ok"
  by (cases r) (auto simp: wrap_error_def)

lemma first_fail_ok: "first_fail f xs = ok \<longleftrightarrow> (\<forall>x \<in> set xs. f x = ok)"
  by (induction xs) (auto simp: rbind_ok)

lemma cfg_Validate_sections:
  "cfg_Validate pa ts c = ok \<Longrightarrow>
    bw_Validate (cfg_Bandwidth c) = ok \<and> cc_Validate pa (cfg_Chain c) = ok \<and> gc_Validate (cfg_GeoIP c) = ok \<and>
    hc_Validate (cfg_Handshake c) = ok \<and> kc_Validate pa (cfg_Keyring c) = ok \<and>
    nc_Validate pa ts (cfg_Node c) = ok \<and> qc_Validate (cfg_QOS c) = ok \<and>
    (gc_Provider (cfg_GeoIP c) = ''none'' \<longrightarrow> nc_IPv4Address (cfg_Node c) \<noteq> []) \<and>
    (hc_Enable (cfg_Handshake c) \<longrightarrow> nodeTypeAllowsHandshakeDNS ts (nc_Type (cfg_Node c)))"
  unfolding cfg_Validate_def rbind_wrap first_error_ok_iff by simp

lemma rpc_check_ok:
  "rpc_check item = ok \<Longrightarrow> \<exists>u. ParseRequestURI item = Some u \<and> url_Port u \<noteq> [] \<and>
    (url_Scheme u = ''https'' \<or> url_Scheme u = ''http'' \<and> loopbackHost (Hostname u))"
  by (auto simp: rpc_check_def first_error_ok_iff simp del: first_error.simps split: option.splits)

lemma valid_bounds:
  assumes "cfg_Validate pa ts c = ok"
  shows "1 \<le> qc_MaxPeers (cfg_QOS c) \<and> qc_MaxPeers (cfg_QOS c) \<le> 250 \<and>
    0 < nc_IntervalUpdateStatus (cfg_Node c) \<and> 0 < nc_IntervalUpdateSessions (cfg_Node c)"
proof -
  note v = cfg_Validate_sections [OF assms]
  have "1 \<le> qc_MaxPeers (cfg_QOS c)" "qc_MaxPeers (cfg_QOS c) \<le> 250"
    using v by (auto simp: qc_Validate_def first_error_ok_iff limit_defs simp del: first_error.simps)
  moreover have n: "nc_Validate pa ts (cfg_Node c) = ok" using v by blast
  then have "0 < nc_IntervalUpdateStatus (cfg_Node c)" "0 < nc_IntervalUpdateSessions (cfg_Node c)"
    unfolding nc_Validate_def first_error_ok_iff limit_defs by simp_all
  ultimately show ?thesis by blast
qed


text \<open>The configuration the node logs carries no token, is otherwise the one it runs with, and
  redacting it again changes nothing.\<close>

lemma redacted_hides_token:
  "gc_Token (cfg_GeoIP (Redacted c)) \<in> {[], ''<redacted>''} \<and> Redacted (Redacted c) = Redacted c \<and>
   (Redacted c)\<lparr>cfg_GeoIP := (cfg_GeoIP (Redacted c))\<lparr>gc_Token := t\<rparr>\<rparr> = c\<lparr>cfg_GeoIP := (cfg_GeoIP c)\<lparr>gc_Token := t\<rparr>\<rparr>"
  by (simp add: Redacted_def)

section \<open>The defaults\<close>

text \<open>The settings an operator must add to the defaults.\<close>

definition operator_config :: "nat \<Rightarrow> string \<Rightarrow> string \<Rightarrow> string \<Rightarrow> string \<Rightarrow> config" where
  "operator_config port moniker gigabyte hourly remote =
    (let c = cfg_WithDefaultValues port NewConfig in
     c\<lparr>cfg_Node := (cfg_Node c)\<lparr>nc_Moniker := moniker, nc_GigabytePrices := gigabyte, nc_HourlyPrices := hourly,
       nc_RemoteURL := remote\<rparr>\<rparr>)"

definition default_rpcs :: "string list" where
  "default_rpcs =
    [''https://sentinel-rpc.publicnode.com:443'', ''https://sentinel-rpc.polkachu.com:443'',
     ''https://rpc-sentinel.busurnode.com:443'', ''https://rpc.sentineldao.com:443'']"

lemma default_rpcs_split:
  "split_on (CHR '','') (cc_RPCAddresses (cc_WithDefaultValues c)) = default_rpcs"
  by (simp add: cc_WithDefaultValues_def default_rpcs_def)

lemma default_rpcs_ok: "\<forall>r \<in> set default_rpcs. rpc_check r = ok"
  unfolding default_rpcs_def by code_simp

lemma defaults_simps:
  "cfg_Bandwidth (operator_config port m g h r) = \<lparr>bw_DownloadMbps = Fin 0, bw_UploadMbps = Fin 0\<rparr>"
  "cfg_Chain (operator_config port m g h r) = cc_WithDefaultValues (cfg_Chain NewConfig)"
  "cfg_GeoIP (operator_config port m g h r) = gc_WithDefaultValues (cfg_GeoIP NewConfig)"
  "cfg_Handshake (operator_config port m g h r) = \<lparr>hc_Enable = False, hc_Peers = 8\<rparr>"
  "cfg_Keyring (operator_config port m g h r) = \<lparr>kc_Backend = ''file'', kc_From = ''operator'', kc_Granter = []\<rparr>"
  "cfg_QOS (operator_config port m g h r) = \<lparr>qc_MaxPeers = 250\<rparr>"
  by (simp_all add: operator_config_def cfg_WithDefaultValues_def NewConfig_def bw_WithDefaultValues_def
      hc_WithDefaultValues_def kc_WithDefaultValues_def qc_WithDefaultValues_def limit_defs)

lemma default_node_valid:
  assumes "length m \<in> {4..32}" "g \<noteq> []" "h \<noteq> []" "is_ok (ParsePrices pa g)" "is_ok (ParsePrices pa h)"
    and "ParseRequestURI r = Some u" "url_Scheme u = ''https''" "url_Port u \<noteq> []" "r \<noteq> []"
    and "nodeTypeKnown ts ''wireguard''"
  shows "nc_Validate pa ts (cfg_Node (operator_config port m g h r)) = ok"
  unfolding nc_Validate_def first_error_ok_iff
  using assms by (auto simp: operator_config_def cfg_WithDefaultValues_def NewConfig_def nc_WithDefaultValues_def
      limit_defs Let_def)

lemma default_chain_valid:
  assumes "is_ok (pa_CoinsNormalized pa ''0.1udvpn'')"
  shows "cc_Validate pa (cc_WithDefaultValues c) = ok"
proof -
  have "first_fail rpc_check (split_on (CHR '','') (cc_RPCAddresses (cc_WithDefaultValues c))) = ok"
    unfolding default_rpcs_split first_fail_ok by (rule default_rpcs_ok)
  moreover have "first_error
      [(cc_Gas (cc_WithDefaultValues c) = 0, ''gas must be positive''),
       (f64_le (cc_GasAdjustment (cc_WithDefaultValues c)) (Fin 0), ''gas_adjustment must be positive''),
       (\<not> is_ok (pa_CoinsNormalized pa (cc_GasPrices (cc_WithDefaultValues c))), ''invalid gas_prices''),
       (cc_ID (cc_WithDefaultValues c) = [], ''id cannot be empty''),
       (cc_RPCAddresses (cc_WithDefaultValues c) = [], ''rpc_addresses cannot be empty'')] = ok"
    using assms unfolding first_error_ok_iff by (simp add: cc_WithDefaultValues_def f64_le_def)
  moreover have "first_error
      [(cc_RPCQueryTimeout (cc_WithDefaultValues c) = 0, ''rpc_query_timeout cannot be 0''),
       (cc_RPCTxTimeout (cc_WithDefaultValues c) = 0, ''rpc_tx_timeout cannot be 0'')] = ok"
    unfolding first_error_ok_iff by (simp add: cc_WithDefaultValues_def)
  ultimately show ?thesis unfolding cc_Validate_def by (simp only: rbind_simps)
qed

text \<open>The defaults are valid: a configuration that adds to them a moniker of allowed length, prices
  the chain library reads and an https address with a port passes validation.\<close>

lemma defaults_valid:
  assumes "is_ok (pa_CoinsNormalized pa ''0.1udvpn'')" "nodeTypeKnown ts ''wireguard''"
    and "length m \<in> {4..32}" "g \<noteq> []" "h \<noteq> []" "is_ok (ParsePrices pa g)" "is_ok (ParsePrices pa h)"
    and "ParseRequestURI r = Some u" "url_Scheme u = ''https''" "url_Port u \<noteq> []" "r \<noteq> []"
  shows "cfg_Validate pa ts (operator_config port m g h r) = ok"
proof -
  have gc: "gc_Validate (gc_WithDefaultValues (cfg_GeoIP NewConfig)) = ok"
    unfolding gc_Validate_def first_error_ok_iff by (simp add: gc_WithDefaultValues_def NewConfig_def geoip_providers_def)
  have bw: "bw_Validate \<lparr>bw_DownloadMbps = Fin 0, bw_UploadMbps = Fin 0\<rparr> = ok"
    unfolding bw_Validate_def first_error_ok_iff by (simp add: mbps_checks_def limit_defs)
  have prov: "gc_Provider (gc_WithDefaultValues (cfg_GeoIP NewConfig)) = ''auto''"
    by (simp add: gc_WithDefaultValues_def)
  show ?thesis
    unfolding cfg_Validate_def rbind_wrap first_error_ok_iff defaults_simps
    using bw gc prov default_chain_valid [OF assms(1)] default_node_valid [OF assms(3-11,2)]
    by (auto simp: ec_Validate_def hc_Validate_def kc_Validate_def qc_Validate_def limit_defs)
qed

definition demo_parsers :: "unit parsers" where
  "demo_parsers =
    \<lparr>pa_CoinsNormalized = (\<lambda>s. ok), pa_PricesFromString = (\<lambda>s. ok), pa_PricesFromCoins = (\<lambda>s. ok),
     pa_NoPrices = (), pa_AccAddress = (\<lambda>s. ok)\<rparr>"

lemma demo_remote:
  "ParseRequestURI ''https://192.0.2.1:8585'' =
    Some \<lparr>url_Scheme = ''https'', url_Opaque = [], url_Host = ''192.0.2.1:8585'', url_Path = []\<rparr>"
  by code_simp

lemma demo_remote_port:
  "url_Port \<lparr>url_Scheme = ''https'', url_Opaque = [], url_Host = ''192.0.2.1:8585'', url_Path = []\<rparr> = ''8585''"
  by code_simp


end
