(* ===== verification/Host.thy ===== *)
theory Host
  imports Net_Addr
begin

text \<open>
  The operating system as the services see it: commands run through \<^verbatim>\<open>os/exec\<close>, files and
  directories, child processes. Each call is a function the model is given; it threads a world of
  its own type, so a call may answer differently each time and may always fail. Nothing is
  assumed of these functions.
\<close>

section \<open>Host calls\<close>

text \<open>A command run through \<^verbatim>\<open>os/exec\<close>: its output, or an error.\<close>

type_synonym 'o runner = "string \<Rightarrow> string list \<Rightarrow> 'o \<Rightarrow> string result \<times> 'o"

record 'o host =
  h_Run :: "'o runner"
  h_LookPath :: "string \<Rightarrow> 'o \<Rightarrow> unit result"
  h_Stat :: "string \<Rightarrow> 'o \<Rightarrow> bool"
  h_ReadFile :: "string \<Rightarrow> 'o \<Rightarrow> string result"
  h_WriteFile :: "string \<Rightarrow> string \<Rightarrow> nat \<Rightarrow> 'o \<Rightarrow> unit result \<times> 'o"
  h_Remove :: "string \<Rightarrow> 'o \<Rightarrow> unit result \<times> 'o"
  h_MkdirAll :: "string \<Rightarrow> nat \<Rightarrow> 'o \<Rightarrow> unit result \<times> 'o"
  h_Chown :: "string \<Rightarrow> nat \<Rightarrow> nat \<Rightarrow> 'o \<Rightarrow> unit result \<times> 'o"
  h_Chmod :: "string \<Rightarrow> nat \<Rightarrow> 'o \<Rightarrow> unit result \<times> 'o"
  h_Spawn :: "string \<Rightarrow> string list \<Rightarrow> string list \<Rightarrow> (nat \<times> nat \<times> nat list) option \<Rightarrow> 'o \<Rightarrow> nat result \<times> 'o"

text \<open>Lexical paths, as \<^verbatim>\<open>filepath.Clean\<close> and \<^verbatim>\<open>filepath.Join\<close> build them on Unix: the elements
  between slashes, without empty ones and dots, each \<^verbatim>\<open>..\<close> taking back the element before it.\<close>

definition clean_elem :: "bool \<Rightarrow> string \<Rightarrow> string list \<Rightarrow> string list" where
  "clean_elem rooted e out =
    (if e = [] \<or> e = ''.'' then out
     else if e = ''..'' then
       (if out \<noteq> [] \<and> last out \<noteq> ''..'' then butlast out else if rooted then out else out @ [e])
     else out @ [e])"

definition filepath_Clean :: "string \<Rightarrow> string" where
  "filepath_Clean p =
    (let rooted = (p \<noteq> [] \<and> hd p = CHR ''/'');
         body = join ''/'' (fold (clean_elem rooted) (split_on (CHR ''/'') p) [])
     in if rooted then CHR ''/'' # body else if body = [] then ''.'' else body)"

definition filepath_Join :: "string list \<Rightarrow> string" where
  "filepath_Join ps =
    (let qs = filter (\<lambda>p. p \<noteq> []) ps in if qs = [] then [] else filepath_Clean (join ''/'' qs))"

text \<open>A command whose output is not read.\<close>

definition run_cmd :: "'o host \<Rightarrow> string \<Rightarrow> string list \<Rightarrow> 'o \<Rightarrow> unit result \<times> 'o" where
  "run_cmd h tool args w =
    (case h_Run h tool args w of (Inl e, w') \<Rightarrow> (Inl e, w') | (Inr _, w') \<Rightarrow> (ok, w'))"

section \<open>Child processes\<close>

text \<open>What \<^verbatim>\<open>os.Process\<close> offers: a signal is sent, or the child is already gone, or it fails; waiting
  for the exit ends early after a timeout, or goes on until the child has exited.\<close>

datatype signal_result = Signalled | ProcessDone | SignalError gerror

record 'o process_ops =
  po_Terminate :: "nat \<Rightarrow> 'o \<Rightarrow> signal_result \<times> 'o"
  po_Kill :: "nat \<Rightarrow> 'o \<Rightarrow> signal_result \<times> 'o"
  po_WaitFor :: "nat \<Rightarrow> 'o \<Rightarrow> bool \<times> 'o"
  po_Wait :: "nat \<Rightarrow> 'o \<Rightarrow> 'o"

section \<open>A host that keeps a log\<close>

text \<open>Any host, extended with the list of the commands and children it was asked to run and whether each
  succeeded, in order. Statements about what a procedure runs are statements about this log.\<close>

type_synonym cmd_log = "(string \<times> string list \<times> bool) list"

definition logged :: "'o host \<Rightarrow> ('o \<times> cmd_log) host" where
  "logged h =
    \<lparr>h_Run = (\<lambda>tool args (w, log).
        case h_Run h tool args w of (r, w') \<Rightarrow> (r, w', log @ [(tool, args, is_ok r)])),
     h_LookPath = (\<lambda>p (w, log). h_LookPath h p w),
     h_Stat = (\<lambda>p (w, log). h_Stat h p w),
     h_ReadFile = (\<lambda>p (w, log). h_ReadFile h p w),
     h_WriteFile = (\<lambda>p d m (w, log). case h_WriteFile h p d m w of (r, w') \<Rightarrow> (r, w', log)),
     h_Remove = (\<lambda>p (w, log). case h_Remove h p w of (r, w') \<Rightarrow> (r, w', log)),
     h_MkdirAll = (\<lambda>p m (w, log). case h_MkdirAll h p m w of (r, w') \<Rightarrow> (r, w', log)),
     h_Chown = (\<lambda>p u g (w, log). case h_Chown h p u g w of (r, w') \<Rightarrow> (r, w', log)),
     h_Chmod = (\<lambda>p m (w, log). case h_Chmod h p m w of (r, w') \<Rightarrow> (r, w', log)),
     h_Spawn = (\<lambda>n a e c (w, log).
        case h_Spawn h n a e c w of (r, w') \<Rightarrow> (r, w', log @ [(n, a, is_ok r)]))\<rparr>"

lemma run_cmd_logged:
  "run_cmd (logged h) tool args (w, log) =
    (case run_cmd h tool args w of (r, w') \<Rightarrow> (r, w', log @ [(tool, args, is_ok r)]))"
  by (auto simp: run_cmd_def logged_def split: prod.splits sum.splits)

lemma h_Stat_logged [simp]: "h_Stat (logged h) p (w, log) = h_Stat h p w"
  by (simp add: logged_def)

lemma h_ReadFile_logged [simp]: "h_ReadFile (logged h) p (w, log) = h_ReadFile h p w"
  by (simp add: logged_def)

text \<open>A concrete host for worked examples: every command succeeds with no output, every file is
  absent.\<close>

definition quiet_host :: "'o host" where
  "quiet_host =
    \<lparr>h_Run = (\<lambda>_ _ w. (Inr [], w)),
     h_LookPath = (\<lambda>_ _. ok),
     h_Stat = (\<lambda>_ _. False),
     h_ReadFile = (\<lambda>_ _. Inl ''no such file''),
     h_WriteFile = (\<lambda>_ _ _ w. (ok, w)),
     h_Remove = (\<lambda>_ w. (ok, w)),
     h_MkdirAll = (\<lambda>_ _ w. (ok, w)),
     h_Chown = (\<lambda>_ _ _ w. (ok, w)),
     h_Chmod = (\<lambda>_ _ w. (ok, w)),
     h_Spawn = (\<lambda>_ _ _ _ w. (Inr 1, w))\<rparr>"

section \<open>Files\<close>

text \<open>What reading and writing files is relied on to do: a file written successfully reads back, until it
  is written again, and neither a directory made, a mode changed nor a file removed elsewhere touches it.\<close>

definition files_doc :: "'o host \<Rightarrow> bool" where
  "files_doc h \<longleftrightarrow>
    (\<forall>p d m w w'. h_WriteFile h p d m w = (ok, w') \<longrightarrow>
      h_ReadFile h p w' = Inr d \<and> (\<forall>q. q \<noteq> p \<longrightarrow> h_ReadFile h q w' = h_ReadFile h q w)) \<and>
    (\<forall>p m r w w'. h_MkdirAll h p m w = (r, w') \<longrightarrow> (\<forall>q. h_ReadFile h q w' = h_ReadFile h q w))"

text \<open>A host whose world is its files.\<close>

definition file_host :: "(string \<rightharpoonup> string) host" where
  "file_host = quiet_host\<lparr>
    h_Stat := (\<lambda>p w. p \<in> dom w),
    h_ReadFile := (\<lambda>p w. case w p of None \<Rightarrow> Inl ''no such file'' | Some d \<Rightarrow> Inr d),
    h_WriteFile := (\<lambda>p d m w. (ok, w(p \<mapsto> d)))\<rparr>"

lemma file_host_doc: "files_doc file_host"
  by (auto simp: files_doc_def file_host_def quiet_host_def)

text \<open>Joining a file name to a directory puts it behind a prefix that only depends on the directory.\<close>

definition plain_name :: "string \<Rightarrow> bool" where
  "plain_name n \<longleftrightarrow> n \<noteq> [] \<and> n \<noteq> ''.'' \<and> n \<noteq> ''..'' \<and> CHR ''/'' \<notin> set n"

lemma split_on_append_sep: "c \<notin> set b \<Longrightarrow> split_on c (a @ c # b) = split_on c a @ [b]"
  by (induction a) (auto simp: split_on_no_sep split: list.splits)

lemma join_snoc: "join sep (xs @ [x]) = (if xs = [] then x else join sep xs @ sep @ x)"
  by (induction sep xs rule: join.induct) auto

lemma filepath_Join_name: "\<exists>pre. \<forall>n. plain_name n \<longrightarrow> filepath_Join [dir, n] = pre @ n"
proof (cases "dir = []")
  case True
  have "filepath_Join [dir, n] = n" if "plain_name n" for n
    using that True
    by (auto simp: plain_name_def filepath_Join_def filepath_Clean_def split_on_no_sep clean_elem_def Let_def) (cases n; auto)
  then show ?thesis by (metis append_Nil)
next
  case False
  define rooted where "rooted = (hd dir = CHR ''/'')"
  define out where "out = fold (clean_elem rooted) (split_on (CHR ''/'') dir) []"
  define pre where "pre = (if rooted then ''/'' else []) @ (if out = [] then [] else join ''/'' out @ ''/'')"
  have "filepath_Join [dir, n] = pre @ n" if n: "plain_name n" for n
  proof -
    have "split_on (CHR ''/'') (dir @ ''/'' @ n) = split_on (CHR ''/'') dir @ [n]"
      using n split_on_append_sep [of "CHR ''/''" n dir] by (simp add: plain_name_def)
    then have "fold (clean_elem rooted) (split_on (CHR ''/'') (dir @ ''/'' @ n)) [] = out @ [n]"
      using n by (simp add: out_def plain_name_def clean_elem_def)
    moreover have "filepath_Join [dir, n] = filepath_Clean (dir @ ''/'' @ n)"
      using False n by (simp add: filepath_Join_def plain_name_def)
    moreover have "hd (dir @ ''/'' @ n) = hd dir" using False by simp
    ultimately show ?thesis
      using n by (auto simp: filepath_Clean_def Let_def join_snoc pre_def rooted_def plain_name_def)
  qed
  then show ?thesis by blast
qed

lemma filepath_Join_inj:
  assumes "plain_name a" "plain_name b"
  shows "filepath_Join [dir, a] = filepath_Join [dir, b] \<longleftrightarrow> a = b"
  using filepath_Join_name [of dir] assms by (metis same_append_eq)

end
