(* ===== verification/Egress.thy ===== *)
theory Egress
  imports Host
begin

text \<open>
  The egress firewall of \<^verbatim>\<open>services/common/egress.go\<close> and the NAT rules of \<^verbatim>\<open>nat.go\<close>: which rules
  are rendered, in which order they are installed, and what the rendered chains decide about a
  packet. \<^verbatim>\<open>iptables\<close> itself is not part of the program: the match options it is given are a
  parameter of the verdict, with their documented meaning as named hypotheses.
\<close>

section \<open>The policy\<close>

definition BlockedNetworksV4 :: "string list" where
  "BlockedNetworksV4 =
    [''0.0.0.0/8'', ''10.0.0.0/8'', ''100.64.0.0/10'', ''127.0.0.0/8'', ''169.254.0.0/16'',
     ''172.16.0.0/12'', ''192.0.0.0/24'', ''192.168.0.0/16'', ''198.18.0.0/15'',
     ''224.0.0.0/4'', ''240.0.0.0/4'']"

definition BlockedNetworksV6 :: "string list" where
  "BlockedNetworksV6 = [''::/128'', ''::1/128'', ''fc00::/7'', ''fe80::/10'', ''ff00::/8'']"

definition BlockedNetworks :: "string list" where
  "BlockedNetworks = BlockedNetworksV4 @ BlockedNetworksV6"

definition SMTPPort :: nat where
  "SMTPPort = 25"

record egress_policy =
  eg_AllowSMTP :: bool
  eg_APIPort :: "16 word"
  eg_Resolver :: "bytes option"

definition zero_policy :: egress_policy where
  "zero_policy = \<lparr>eg_AllowSMTP = False, eg_APIPort = 0, eg_Resolver = None\<rparr>"

record family =
  fam_tool :: string
  fam_v6 :: bool
  fam_blocked :: "string list"

definition ipv6Present :: string where
  "ipv6Present = ''/proc/sys/net/ipv6''"

definition families :: "'o host \<Rightarrow> 'o \<Rightarrow> family list" where
  "families h w =
    \<lparr>fam_tool = ''iptables'', fam_v6 = False, fam_blocked = BlockedNetworksV4\<rparr> #
    (if h_Stat h ipv6Present w
     then [\<lparr>fam_tool = ''ip6tables'', fam_v6 = True, fam_blocked = BlockedNetworksV6\<rparr>] else [])"

definition inFamily :: "family \<Rightarrow> bytes option \<Rightarrow> bool" where
  "inFamily f ip =
    (case ip of None \<Rightarrow> False | Some a \<Rightarrow> (ip_To4 a = None) = fam_v6 f)"

section \<open>Chains\<close>

record chains =
  ch_names :: "string list"
  ch_rules :: "family \<Rightarrow> string list list"
  ch_jumps :: "string list list"

text \<open>Loop bodies of \<^verbatim>\<open>chains.up\<close>.\<close>

definition up_chain :: "'o host \<Rightarrow> string \<Rightarrow> string \<Rightarrow> 'o \<Rightarrow> unit result \<times> 'o" where
  "up_chain h tool chain w =
    (case run_cmd h tool [''-N'', chain] w of
       (Inr _, w') \<Rightarrow> (ok, w')
     | (Inl _, w') \<Rightarrow> run_cmd h tool [''-F'', chain] w')"

definition up_jump :: "'o host \<Rightarrow> string \<Rightarrow> string list \<Rightarrow> 'o \<Rightarrow> unit result \<times> 'o" where
  "up_jump h tool jump w =
    (case run_cmd h tool (''-C'' # jump) w of
       (Inr _, w') \<Rightarrow> (ok, w')
     | (Inl _, w') \<Rightarrow> run_cmd h tool ([''-I'', hd jump, ''1''] @ tl jump) w')"

definition up_family :: "'o host \<Rightarrow> chains \<Rightarrow> family \<Rightarrow> 'o \<Rightarrow> unit result \<times> 'o" where
  "up_family h c f w =
    (case for_each_err (up_chain h (fam_tool f)) (ch_names c) w of
       (Inl e, w1) \<Rightarrow> (Inl e, w1)
     | (Inr _, w1) \<Rightarrow>
         (case for_each_err (run_cmd h (fam_tool f)) (ch_rules c f) w1 of
            (Inl e, w2) \<Rightarrow> (Inl e, w2)
          | (Inr _, w2) \<Rightarrow> for_each_err (up_jump h (fam_tool f)) (ch_jumps c) w2))"

definition chains_up :: "'o host \<Rightarrow> chains \<Rightarrow> 'o \<Rightarrow> unit result \<times> 'o" where
  "chains_up h c w = for_each_err (up_family h c) (families h w) w"

definition down_family :: "'o host \<Rightarrow> chains \<Rightarrow> family \<Rightarrow> 'o \<Rightarrow> 'o" where
  "down_family h c f w =
    for_each (\<lambda>chain w. snd (run_cmd h (fam_tool f) [''-X'', chain]
                          (snd (run_cmd h (fam_tool f) [''-F'', chain] w))))
      (ch_names c)
      (for_each (\<lambda>jump w. snd (run_cmd h (fam_tool f) (''-D'' # jump) w)) (ch_jumps c) w)"

definition chains_down :: "'o host \<Rightarrow> chains \<Rightarrow> 'o \<Rightarrow> 'o" where
  "chains_down h c w = for_each (down_family h c) (families h w) w"

section \<open>Tunnel clients\<close>

definition ForwardChain :: "string \<Rightarrow> string" where
  "ForwardChain iface = ''DVPND-FWD-'' @ iface"

definition InputChain :: "string \<Rightarrow> string" where
  "InputChain iface = ''DVPND-IN-'' @ iface"

definition port_str :: "16 word \<Rightarrow> string" where
  "port_str p = itoa (unat p)"

text \<open>The rules are kept as the chain, the match options and the target; \<open>append_rule\<close> writes the
  argument list the code builds.\<close>

datatype fw_rule = Rule string "string list" string

primrec append_rule :: "fw_rule \<Rightarrow> string list" where
  "append_rule (Rule chain m target) = [''-A'', chain] @ m @ [''-j'', target]"

definition tunnel_rules :: "string \<Rightarrow> egress_policy \<Rightarrow> family \<Rightarrow> fw_rule list" where
  "tunnel_rules iface pol f =
    (let fwd = ForwardChain iface; inp = InputChain iface in
     [Rule fwd [''-o'', iface] ''DROP''] @
     map (\<lambda>cidr. Rule fwd [''-d'', cidr] ''DROP'') (fam_blocked f) @
     (if eg_AllowSMTP pol then []
      else [Rule fwd [''-p'', ''tcp'', ''--dport'', itoa SMTPPort] ''DROP'']) @
     [Rule inp [''-m'', ''conntrack'', ''--ctstate'', ''RELATED,ESTABLISHED''] ''ACCEPT''] @
     (if inFamily f (eg_Resolver pol)
      then map (\<lambda>proto. Rule inp [''-d'', ip_String (the (eg_Resolver pol)), ''-p'', proto,
                                  ''--dport'', ''53''] ''ACCEPT'') [''udp'', ''tcp'']
      else []) @
     (if eg_APIPort pol \<noteq> 0
      then [Rule inp [''-p'', ''tcp'', ''--dport'', port_str (eg_APIPort pol)] ''ACCEPT''] else []) @
     [Rule inp [] ''DROP''])"

definition tunnel_chains :: "string \<Rightarrow> egress_policy \<Rightarrow> chains" where
  "tunnel_chains iface pol =
    (let fwd = ForwardChain iface; inp = InputChain iface in
     \<lparr>ch_names = [fwd, inp],
      ch_rules = (\<lambda>f. map append_rule (tunnel_rules iface pol f)),
      ch_jumps = [[''FORWARD'', ''-i'', iface, ''-j'', fwd], [''INPUT'', ''-i'', iface, ''-j'', inp]]\<rparr>)"

definition tunnel_egress_Up :: "'o host \<Rightarrow> egress_policy \<Rightarrow> string \<Rightarrow> 'o \<Rightarrow> unit result \<times> 'o" where
  "tunnel_egress_Up h pol iface w = chains_up h (tunnel_chains iface pol) w"

definition tunnel_egress_Down :: "'o host \<Rightarrow> string \<Rightarrow> 'o \<Rightarrow> 'o" where
  "tunnel_egress_Down h iface w = chains_down h (tunnel_chains iface zero_policy) w"

section \<open>Proxy daemons\<close>

definition ProxyChain :: string where
  "ProxyChain = ''DVPND-PROXY''"

record proxy_egress =
  pe_UID :: "32 word"
  pe_LoopbackPorts :: "16 word list"

definition resolvConf :: string where
  "resolvConf = ''/etc/resolv.conf''"

definition nameserver_of_line :: "string \<Rightarrow> bytes option" where
  "nameserver_of_line line =
    (let fs = str_fields line in
     if length fs < 2 \<or> fs ! 0 \<noteq> ''nameserver'' then None
     else ParseIP (case cut_at (CHR ''%'') (fs ! 1) of None \<Rightarrow> fs ! 1 | Some (a, _) \<Rightarrow> a))"

definition nameservers :: "'o host \<Rightarrow> 'o \<Rightarrow> bytes list" where
  "nameservers h w =
    (case h_ReadFile h resolvConf w of
       Inl _ \<Rightarrow> []
     | Inr raw \<Rightarrow> List.map_filter nameserver_of_line (split_on (CHR 0x0A) raw))"

definition proxy_rules :: "bytes list \<Rightarrow> 16 word list \<Rightarrow> egress_policy \<Rightarrow> family \<Rightarrow> fw_rule list" where
  "proxy_rules resolvers ports pol f =
    [Rule ProxyChain [''-m'', ''conntrack'', ''--ctstate'', ''RELATED,ESTABLISHED''] ''ACCEPT''] @
    (if fam_v6 f then []
     else map (\<lambda>port. Rule ProxyChain [''-o'', ''lo'', ''-d'', ''127.0.0.1'', ''-p'', ''tcp'',
                                       ''--dport'', port_str port] ''ACCEPT'') ports) @
    concat (map (\<lambda>ip. if inFamily f (Some ip)
        then map (\<lambda>proto. Rule ProxyChain [''-p'', proto, ''-m'', ''conntrack'', ''--ctorigdst'',
                    ip_String ip, ''--ctorigdstport'', ''53''] ''ACCEPT'') [''udp'', ''tcp'']
        else []) resolvers) @
    map (\<lambda>cidr. Rule ProxyChain [''-d'', cidr] ''REJECT'') (fam_blocked f) @
    (if eg_APIPort pol \<noteq> 0
     then [Rule ProxyChain [''-m'', ''addrtype'', ''--dst-type'', ''LOCAL'', ''-p'', ''tcp'',
                            ''--dport'', port_str (eg_APIPort pol)] ''ACCEPT''] else []) @
    [Rule ProxyChain [''-m'', ''addrtype'', ''--dst-type'', ''LOCAL''] ''REJECT''] @
    (if eg_AllowSMTP pol then []
     else [Rule ProxyChain [''-p'', ''tcp'', ''--dport'', itoa SMTPPort] ''REJECT''])"

definition proxy_chains :: "bytes list \<Rightarrow> proxy_egress \<Rightarrow> egress_policy \<Rightarrow> chains" where
  "proxy_chains resolvers e pol =
    \<lparr>ch_names = [ProxyChain],
     ch_rules = (\<lambda>f. map append_rule (proxy_rules resolvers (pe_LoopbackPorts e) pol f)),
     ch_jumps = [[''OUTPUT'', ''-m'', ''owner'', ''--uid-owner'', itoa (unat (pe_UID e)), ''-j'', ProxyChain]]\<rparr>"

definition proxy_egress_Up :: "'o host \<Rightarrow> egress_policy \<Rightarrow> proxy_egress \<Rightarrow> 'o \<Rightarrow> unit result \<times> 'o" where
  "proxy_egress_Up h pol e w = chains_up h (proxy_chains (nameservers h w) e pol) w"

definition proxy_egress_Down :: "'o host \<Rightarrow> proxy_egress \<Rightarrow> 'o \<Rightarrow> 'o" where
  "proxy_egress_Down h e w = chains_down h (proxy_chains (nameservers h w) e zero_policy) w"

section \<open>NAT\<close>

definition nat_rules :: "string \<Rightarrow> string \<Rightarrow> string \<Rightarrow> (string \<times> string list) list" where
  "nat_rules iface uplink action =
    concat (map (\<lambda>tool.
      [(tool, [action, ''FORWARD'', ''-i'', iface, ''-j'', ''ACCEPT'']),
       (tool, [action, ''FORWARD'', ''-o'', iface, ''-m'', ''conntrack'', ''--ctstate'',
               ''RELATED,ESTABLISHED'', ''-j'', ''ACCEPT'']),
       (tool, [''-t'', ''nat'', action, ''POSTROUTING'', ''-o'', uplink, ''-j'', ''MASQUERADE''])])
      [''iptables'', ''ip6tables''])"

definition NAT_Up :: "'o host \<Rightarrow> string \<Rightarrow> string \<Rightarrow> 'o \<Rightarrow> unit result \<times> 'o" where
  "NAT_Up h iface uplink w =
    for_each_err (\<lambda>(tool, args). run_cmd h tool args) (nat_rules iface uplink ''-A'') w"

definition NAT_Down :: "'o host \<Rightarrow> string \<Rightarrow> string \<Rightarrow> 'o \<Rightarrow> 'o" where
  "NAT_Down h iface uplink w =
    for_each (\<lambda>(tool, args) w. snd (run_cmd h tool args w)) (nat_rules iface uplink ''-D'') w"

section \<open>What a chain decides\<close>

record packet =
  pk_out :: string
  pk_dst :: bytes
  pk_proto :: string
  pk_dport :: nat
  pk_established :: bool
  pk_local :: bool

text \<open>All match options of the rules are pairs of an option and its argument, and all of them must
  hold. \<open>opt\<close> says when one pair matches.\<close>

fun rule_matches :: "(string \<Rightarrow> string \<Rightarrow> 'p \<Rightarrow> bool) \<Rightarrow> string list \<Rightarrow> 'p \<Rightarrow> bool" where
  "rule_matches opt (a # v # rest) p = (opt a v p \<and> rule_matches opt rest p)"
| "rule_matches opt _ p = True"

fun chain_verdict :: "(string \<Rightarrow> string \<Rightarrow> 'p \<Rightarrow> bool) \<Rightarrow> string \<Rightarrow> fw_rule list \<Rightarrow> 'p \<Rightarrow> string option" where
  "chain_verdict opt chain [] p = None"
| "chain_verdict opt chain (Rule c m target # rules) p =
    (if c = chain \<and> rule_matches opt m p then Some target else chain_verdict opt chain rules p)"

definition dst_in :: "string \<Rightarrow> bytes \<Rightarrow> bool" where
  "dst_in s a =
    (case ParseCIDR s of
       Some (ip, n) \<Rightarrow> net_Contains n a
     | None \<Rightarrow> (case ParseIP s of Some ip \<Rightarrow> ip_Equal ip a | None \<Rightarrow> False))"

text \<open>The documented meaning of the options the program uses. For a packet that is not
  translated, the original destination of the connection is the packet's destination.\<close>

definition iptables_doc :: "(string \<Rightarrow> string \<Rightarrow> packet \<Rightarrow> bool) \<Rightarrow> bool" where
  "iptables_doc opt \<longleftrightarrow>
    (\<forall>v p. opt ''-o'' v p = (pk_out p = v)) \<and>
    (\<forall>v p. opt ''-d'' v p = dst_in v (pk_dst p)) \<and>
    (\<forall>v p. opt ''-p'' v p = (pk_proto p = v)) \<and>
    (\<forall>v p. opt ''--dport'' v p = (v = itoa (pk_dport p))) \<and>
    (\<forall>v p. opt ''-m'' v p) \<and>
    (\<forall>p. opt ''--ctstate'' ''RELATED,ESTABLISHED'' p = pk_established p) \<and>
    (\<forall>p. opt ''--dst-type'' ''LOCAL'' p = pk_local p) \<and>
    (\<forall>v p. opt ''--ctorigdst'' v p = dst_in v (pk_dst p)) \<and>
    (\<forall>v p. opt ''--ctorigdstport'' v p = (v = itoa (pk_dport p)))"

definition doc_opt :: "string \<Rightarrow> string \<Rightarrow> packet \<Rightarrow> bool" where
  "doc_opt a v p =
    (if a = ''-o'' then pk_out p = v
     else if a = ''-d'' \<or> a = ''--ctorigdst'' then dst_in v (pk_dst p)
     else if a = ''-p'' then pk_proto p = v
     else if a = ''--dport'' \<or> a = ''--ctorigdstport'' then v = itoa (pk_dport p)
     else if a = ''--ctstate'' then pk_established p
     else if a = ''--dst-type'' then pk_local p
     else True)"

lemma doc_opt_doc: "iptables_doc doc_opt"
  by (simp add: iptables_doc_def doc_opt_def)

lemma chain_verdict_append:
  "chain_verdict opt c (xs @ ys) p =
    (case chain_verdict opt c xs p of None \<Rightarrow> chain_verdict opt c ys p | Some t \<Rightarrow> Some t)"
  by (induction opt c xs p rule: chain_verdict.induct) auto

lemma chain_verdict_same_target:
  "chain_verdict opt c (map (\<lambda>x. Rule c (m x) target) xs) p =
    (if \<exists>x \<in> set xs. rule_matches opt (m x) p then Some target else None)"
  by (induction xs) auto

lemma chain_verdict_concat:
  assumes "\<And>x. chain_verdict opt c (f x) p = (if P x then Some target else None)"
  shows "chain_verdict opt c (concat (map f xs)) p = (if \<exists>x \<in> set xs. P x then Some target else None)"
  by (induction xs) (auto simp: chain_verdict_append assms)

lemma chain_verdict_other:
  "c' \<noteq> c \<Longrightarrow> chain_verdict opt c (map (\<lambda>x. Rule c' (m x) target) xs) p = None"
  by (induction xs) auto

lemma itoa_53: "''53'' = itoa n \<longleftrightarrow> n = 53"
proof -
  have "itoa 53 = ''53''" by (simp add: itoa.simps digit_char_def char_of_eq_iff_nat)
  then show ?thesis by (metis itoa_inj)
qed

lemma chain_names_differ [simp]:
  "ForwardChain i \<noteq> InputChain i" "InputChain i \<noteq> ForwardChain i"
  by (simp_all add: ForwardChain_def InputChain_def)

definition in_blocked :: "family \<Rightarrow> packet \<Rightarrow> bool" where
  "in_blocked f p \<longleftrightarrow> (\<exists>cidr \<in> set (fam_blocked f). dst_in cidr (pk_dst p))"

text \<open>C6: the forward chain of a tunnel drops exactly what it should: packets back into the tunnel
  (client to client), packets to a blocked network (loopback, private, link-local, the metadata
  service, multicast, reserved), and SMTP unless the operator allows it; every other packet
  falls through to the host's own forwarding rules.\<close>

theorem tunnel_forward_verdict:
  assumes "iptables_doc opt"
  shows "chain_verdict opt (ForwardChain iface) (tunnel_rules iface pol f) p =
    (if pk_out p = iface \<or> in_blocked f p \<or>
        (\<not> eg_AllowSMTP pol \<and> pk_proto p = ''tcp'' \<and> pk_dport p = 25)
     then Some ''DROP'' else None)"
proof -
  have "(itoa SMTPPort = itoa (pk_dport p)) = (pk_dport p = 25)" by (auto simp: SMTPPort_def)
  then show ?thesis
    using assms
    by (auto simp: tunnel_rules_def Let_def chain_verdict_append chain_verdict_same_target
        chain_verdict_other iptables_doc_def in_blocked_def simp del: list.map)
qed

text \<open>C19: the input chain of a tunnel lets a client reach nothing on the host but replies, DNS on
  the configured resolver and the node's own API port; it is closed by a final drop.\<close>

theorem tunnel_input_verdict:
  assumes "iptables_doc opt"
  shows "chain_verdict opt (InputChain iface) (tunnel_rules iface pol f) p =
    (if pk_established p \<or>
        (inFamily f (eg_Resolver pol) \<and> dst_in (ip_String (the (eg_Resolver pol))) (pk_dst p) \<and>
          pk_proto p \<in> {''udp'', ''tcp''} \<and> pk_dport p = 53) \<or>
        (eg_APIPort pol \<noteq> 0 \<and> pk_proto p = ''tcp'' \<and> pk_dport p = unat (eg_APIPort pol))
     then Some ''ACCEPT'' else Some ''DROP'')"
proof -
  note doc = assms [unfolded iptables_doc_def]
  let ?c = "InputChain iface"
  have res: "chain_verdict opt ?c (if inFamily f (eg_Resolver pol)
      then map (\<lambda>proto. Rule ?c [''-d'', ip_String (the (eg_Resolver pol)), ''-p'', proto,
                                  ''--dport'', ''53''] ''ACCEPT'') [''udp'', ''tcp'']
      else []) p =
    (if inFamily f (eg_Resolver pol) \<and> dst_in (ip_String (the (eg_Resolver pol))) (pk_dst p) \<and>
          pk_proto p \<in> {''udp'', ''tcp''} \<and> pk_dport p = 53 then Some ''ACCEPT'' else None)"
    using doc by (auto simp: itoa_53)
  have api: "chain_verdict opt ?c (if eg_APIPort pol \<noteq> 0
      then [Rule ?c [''-p'', ''tcp'', ''--dport'', port_str (eg_APIPort pol)] ''ACCEPT''] else []) p =
    (if eg_APIPort pol \<noteq> 0 \<and> pk_proto p = ''tcp'' \<and> pk_dport p = unat (eg_APIPort pol)
     then Some ''ACCEPT'' else None)"
    using doc by (auto simp: port_str_def)
  have smtp: "chain_verdict opt ?c (if eg_AllowSMTP pol then []
      else [Rule (ForwardChain iface) [''-p'', ''tcp'', ''--dport'', itoa SMTPPort] ''DROP'']) p = None"
    by simp
  have est: "opt ''--ctstate'' ''RELATED,ESTABLISHED'' p = pk_established p" "opt ''-m'' ''conntrack'' p"
    using doc by simp_all
  show ?thesis
    unfolding tunnel_rules_def Let_def chain_verdict_append res api smtp
    by (auto simp: chain_verdict_other est)
qed

abbreviation family4 :: family where
  "family4 \<equiv> \<lparr>fam_tool = ''iptables'', fam_v6 = False, fam_blocked = BlockedNetworksV4\<rparr>"

abbreviation to_host :: "bytes \<Rightarrow> nat \<Rightarrow> packet" where
  "to_host a port \<equiv> \<lparr>pk_out = ''eth0'', pk_dst = a, pk_proto = ''tcp'', pk_dport = port,
    pk_established = False, pk_local = False\<rparr>"

lemma metadata_dst_in: "dst_in ''169.254.0.0/16'' [169, 254, 169, 254]"
proof -
  have "ParseAddr ''169.254.0.0'' = Some [169, 254, 0, 0]"
    by (simp add: ParseAddr_def parse_ipv4_def parse_octet_def parse_digits_def digit_val_def)
  then have "ParseCIDR ''169.254.0.0/16'' = Some (ip_To16 [169, 254, 0, 0], prefix_net [169, 254, 0, 0] 16)"
    by (simp add: ParseCIDR_def parse_digits_def digit_val_def prefix_net_def ip_Mask_def ip_To16_def
        v4InV6Prefix_def Let_def)
  then show ?thesis
    using net_Contains_prefix [of "[169, 254, 0, 0]" 16 "[169, 254, 169, 254]"]
    by (simp add: dst_in_def prefix_net_def)
qed

theorem tunnel_forward_verdict_witness:
  "chain_verdict doc_opt (ForwardChain ''wg0'') (tunnel_rules ''wg0'' zero_policy family4)
    (to_host [169, 254, 169, 254] 80) = Some ''DROP''"
proof -
  have "in_blocked family4 (to_host [169, 254, 169, 254] 80)"
    unfolding in_blocked_def
    by (rule bexI [of _ "''169.254.0.0/16''"]) (simp_all add: metadata_dst_in BlockedNetworksV4_def)
  then show ?thesis by (simp only: tunnel_forward_verdict [OF doc_opt_doc] simp_thms if_True)
qed

theorem tunnel_input_verdict_witness:
  "chain_verdict doc_opt (InputChain ''wg0'')
      (tunnel_rules ''wg0'' (zero_policy\<lparr>eg_APIPort := 8585\<rparr>) family4) (to_host [10, 8, 0, 1] 8585) = Some ''ACCEPT'' \<and>
    chain_verdict doc_opt (InputChain ''wg0'')
      (tunnel_rules ''wg0'' (zero_policy\<lparr>eg_APIPort := 8585\<rparr>) family4) (to_host [10, 8, 0, 1] 22) = Some ''DROP''"
  by (simp only: tunnel_input_verdict [OF doc_opt_doc]) (simp add: zero_policy_def inFamily_def)

definition to_loopback_port :: "16 word list \<Rightarrow> family \<Rightarrow> packet \<Rightarrow> bool" where
  "to_loopback_port ports f p \<longleftrightarrow>
    \<not> fam_v6 f \<and> pk_out p = ''lo'' \<and> dst_in ''127.0.0.1'' (pk_dst p) \<and> pk_proto p = ''tcp'' \<and>
    (\<exists>port \<in> set ports. pk_dport p = unat port)"

definition to_resolver :: "bytes list \<Rightarrow> family \<Rightarrow> packet \<Rightarrow> bool" where
  "to_resolver resolvers f p \<longleftrightarrow>
    pk_proto p \<in> {''udp'', ''tcp''} \<and> pk_dport p = 53 \<and>
    (\<exists>ip \<in> set resolvers. inFamily f (Some ip) \<and> dst_in (ip_String ip) (pk_dst p))"

lemma chain_verdict_first: "chain_verdict opt c [Rule c m t] p = (if rule_matches opt m p then Some t else None)"
  by simp



section \<open>The order of installation\<close>

text \<open>\<open>jumps_guarded R log\<close>: whenever a jump was inserted with a tool, all rules \<open>R\<close> requires for that
  tool had been appended successfully before.\<close>

definition ran_ok :: "string \<Rightarrow> string list list \<Rightarrow> cmd_log \<Rightarrow> bool" where
  "ran_ok tool cmds log \<longleftrightarrow> (\<forall>c \<in> set cmds. (tool, c, True) \<in> set log)"

definition jumps_guarded :: "(string \<Rightarrow> string list list) \<Rightarrow> cmd_log \<Rightarrow> bool" where
  "jumps_guarded R log \<longleftrightarrow>
    (\<forall>pre tool args b post. log = pre @ (tool, ''-I'' # args, b) # post \<longrightarrow> ran_ok tool (R tool) pre)"

lemma ran_ok_append: "ran_ok tool cmds log \<Longrightarrow> ran_ok tool cmds (log @ ext)"
  by (auto simp: ran_ok_def)

lemma jumps_guarded_Nil [simp]: "jumps_guarded R []"
  by (simp add: jumps_guarded_def)

lemma jumps_guarded_snoc:
  assumes "jumps_guarded R log" and "\<And>a. args = ''-I'' # a \<Longrightarrow> ran_ok tool (R tool) log"
  shows "jumps_guarded R (log @ [(tool, args, b)])"
  unfolding jumps_guarded_def
proof (intro allI impI)
  fix pre t a b' post
  assume eq: "log @ [(tool, args, b)] = pre @ (t, ''-I'' # a, b') # post"
  show "ran_ok t (R t) pre"
  proof (cases post rule: rev_cases)
    case Nil
    with eq assms(2) show ?thesis by simp
  next
    case (snoc post' x)
    with eq have "log = pre @ (t, ''-I'' # a, b') # post'" by simp
    with assms(1) show ?thesis unfolding jumps_guarded_def by blast
  qed
qed

lemma jumps_guarded_snoc2:
  assumes "jumps_guarded R log" and "\<And>a. args \<noteq> ''-I'' # a"
    and "\<And>a. args' = ''-I'' # a \<Longrightarrow> ran_ok tool (R tool) log"
  shows "jumps_guarded R (log @ [(tool, args, b), (tool, args', b')])"
  using jumps_guarded_snoc [OF jumps_guarded_snoc [OF assms(1), of args tool b], of args' tool b']
    assms(2,3) by (simp add: ran_ok_append)

lemma run_cmd_logged_guarded:
  assumes "run_cmd (logged h) tool args (w, log) = (r, w', log')" "jumps_guarded R log"
    and "\<And>a. args = ''-I'' # a \<Longrightarrow> ran_ok tool (R tool) log"
  shows "log' = log @ [(tool, args, is_ok r)] \<and> jumps_guarded R log'"
  using assms jumps_guarded_snoc by (auto simp: run_cmd_logged split: prod.splits)

lemma up_chains_guarded:
  assumes "jumps_guarded R (snd s)"
  shows "jumps_guarded R (snd (snd (for_each_err (up_chain (logged h) tool) names s)))"
proof (rule for_each_err_invariant [where P = "\<lambda>s. jumps_guarded R (snd s)"], fact assms)
  fix x and s :: "'a \<times> cmd_log"
  assume "jumps_guarded R (snd s)"
  then show "jumps_guarded R (snd (snd (up_chain (logged h) tool x s)))"
    by (cases s)
      (auto simp: up_chain_def run_cmd_logged intro!: jumps_guarded_snoc jumps_guarded_snoc2 split: prod.splits sum.splits)
qed

lemma run_rules_guarded:
  assumes "for_each_err (run_cmd (logged h) tool) rules (w, log) = (r, w', log')"
    and "jumps_guarded R log" "\<forall>c \<in> set rules. \<forall>a. c \<noteq> ''-I'' # a"
  shows "jumps_guarded R log' \<and> (\<exists>ext. log' = log @ ext) \<and> (is_ok r \<longrightarrow> ran_ok tool rules log')"
  using assms
proof (induction rules arbitrary: w log)
  case (Cons c rules)
  obtain r1 w1 log1 where run: "run_cmd (logged h) tool c (w, log) = (r1, w1, log1)"
    by (metis prod_cases3)
  with run_cmd_logged_guarded [OF run Cons.prems(2)] Cons.prems(3)
  have log1: "log1 = log @ [(tool, c, is_ok r1)]" "jumps_guarded R log1" by auto
  show ?case
  proof (cases r1)
    case (Inl e)
    with Cons.prems(1) run log1 show ?thesis by auto
  next
    case (Inr u)
    with Cons.prems(1) run have "for_each_err (run_cmd (logged h) tool) rules (w1, log1) = (r, w', log')"
      by simp
    from Cons.IH [OF this log1(2)] Cons.prems(3) log1(1) Inr show ?thesis
      by (auto simp: ran_ok_def)
  qed
qed (auto simp: ran_ok_def)

lemma up_jumps_guarded:
  assumes "jumps_guarded R (snd s)" "ran_ok tool (R tool) (snd s)"
  shows "jumps_guarded R (snd (snd (for_each_err (up_jump (logged h) tool) jumps s)))"
proof -
  let ?P = "\<lambda>s :: 'a \<times> cmd_log. jumps_guarded R (snd s) \<and> ran_ok tool (R tool) (snd s)"
  have "?P (snd (for_each_err (up_jump (logged h) tool) jumps s))"
  proof (rule for_each_err_invariant)
    show "?P s" using assms by simp
  next
    fix x and s :: "'a \<times> cmd_log"
    assume "?P s"
    then show "?P (snd (up_jump (logged h) tool x s))"
      by (cases s)
        (auto simp: up_jump_def run_cmd_logged intro!: jumps_guarded_snoc jumps_guarded_snoc2 ran_ok_append
          split: prod.splits sum.splits)
  qed
  then show ?thesis by blast
qed

lemma up_family_guarded:
  assumes "up_family (logged h) c f (w, log) = (r, w', log')" "jumps_guarded R log"
    and "R (fam_tool f) = ch_rules c f" "\<forall>rl \<in> set (ch_rules c f). \<forall>a. rl \<noteq> ''-I'' # a"
  shows "jumps_guarded R log'"
proof -
  obtain r1 w1 log1 where s1:
    "for_each_err (up_chain (logged h) (fam_tool f)) (ch_names c) (w, log) = (r1, w1, log1)"
    by (metis prod_cases3)
  then have g1: "jumps_guarded R log1"
    using up_chains_guarded [of R "(w, log)" h "fam_tool f" "ch_names c"] assms(2) by simp
  obtain r2 w2 log2 where s2:
    "for_each_err (run_cmd (logged h) (fam_tool f)) (ch_rules c f) (w1, log1) = (r2, w2, log2)"
    by (metis prod_cases3)
  from run_rules_guarded [OF s2 g1 assms(4)]
  have g2: "jumps_guarded R log2" "is_ok r2 \<Longrightarrow> ran_ok (fam_tool f) (R (fam_tool f)) log2"
    using assms(3) by auto
  show ?thesis
    using assms(1) s1 s2 g1 g2 up_jumps_guarded [of R "(w2, log2)" "fam_tool f" h "ch_jumps c"]
    by (auto simp: up_family_def split: sum.splits)
qed

lemma families_logged [simp]: "families (logged h) (w, log) = families h w"
  by (simp add: families_def)

definition family_rules :: "chains \<Rightarrow> family list \<Rightarrow> string \<Rightarrow> string list list" where
  "family_rules c fs tool = concat (map (ch_rules c) (filter (\<lambda>f. fam_tool f = tool) fs))"

lemma family_rules_in: "f \<in> set (families h w) \<Longrightarrow> family_rules c (families h w) (fam_tool f) = ch_rules c f"
  by (auto simp: families_def family_rules_def split: if_splits)

lemma chains_up_guarded:
  assumes "chains_up (logged h) c (w, []) = (r, w', log)"
    and "\<And>f. \<forall>rl \<in> set (ch_rules c f). \<forall>a. rl \<noteq> ''-I'' # a"
  shows "jumps_guarded (family_rules c (families h w)) log"
proof -
  let ?R = "family_rules c (families h w)"
  have "jumps_guarded ?R (snd (snd (for_each_err (up_family (logged h) c) (families h w) (w, []))))"
  proof (rule for_each_err_invariant [where P = "\<lambda>s. jumps_guarded ?R (snd s)"])
    fix f and s :: "'a \<times> cmd_log"
    assume f: "f \<in> set (families h w)" and s: "jumps_guarded ?R (snd s)"
    obtain r' w1 log1 where "up_family (logged h) c f (fst s, snd s) = (r', w1, log1)"
      by (metis prod_cases3)
    from up_family_guarded [OF this s family_rules_in [OF f] assms(2)] this
    show "jumps_guarded ?R (snd (snd (up_family (logged h) c f s)))" by simp
  qed simp
  with assms(1) show ?thesis by (simp add: chains_up_def)
qed

text \<open>C21: no client packet passes unfiltered while the tunnel's firewall goes in: whenever
  \<^const>\<open>tunnel_egress_Up\<close> inserts a jump for an address family, every rule of that family had been
  appended successfully before, whatever the host answers to each command.\<close>

theorem tunnel_rules_before_jump:
  assumes "tunnel_egress_Up (logged h) pol iface (w, []) = (r, w', log)"
    and "log = pre @ (fam_tool f, ''-I'' # args, b) # post" "f \<in> set (families h w)"
  shows "\<forall>rl \<in> set (tunnel_rules iface pol f). (fam_tool f, append_rule rl, True) \<in> set pre"
proof -
  let ?c = "tunnel_chains iface pol"
  have rules: "ch_rules ?c g = map append_rule (tunnel_rules iface pol g)" for g
    by (simp add: tunnel_chains_def Let_def)
  have "append_rule rl \<noteq> ''-I'' # a" for rl a by (cases rl) simp
  then have "jumps_guarded (family_rules ?c (families h w)) log"
    using assms(1) by (intro chains_up_guarded) (auto simp: tunnel_egress_Up_def rules)
  then have "ran_ok (fam_tool f) (ch_rules ?c f) pre"
    using assms(2) family_rules_in [OF assms(3), of ?c] unfolding jumps_guarded_def by metis
  then show ?thesis by (simp add: ran_ok_def rules)
qed

text \<open>A host on which no jump exists yet: checking one fails, everything else succeeds.\<close>

definition fresh_host :: "unit host" where
  "fresh_host = quiet_host\<lparr>h_Run := (\<lambda>tool args w. (if hd args = ''-C'' then Inl [] else Inr [], w))\<rparr>"

lemma fresh_host_run: "run_cmd fresh_host tool args w = (if hd args = ''-C'' then Inl [] else ok, w)"
  by (simp add: run_cmd_def fresh_host_def)

lemma for_each_err_append:
  "for_each_err f (xs @ ys) s =
    (case for_each_err f xs s of (Inl e, s') \<Rightarrow> (Inl e, s') | (Inr _, s') \<Rightarrow> for_each_err f ys s')"
  by (induction xs arbitrary: s) (auto split: prod.splits sum.splits)

theorem tunnel_rules_before_jump_witness:
  "\<exists>log pre post. tunnel_egress_Up (logged fresh_host) zero_policy ''wg0'' ((), []) = (ok, (), log) \<and>
    log = pre @ (''iptables'', [''-I'', ''FORWARD'', ''1'', ''-i'', ''wg0'', ''-j'', ''DVPND-FWD-wg0''], True) # post \<and>
    (\<forall>rl \<in> set (tunnel_rules ''wg0'' zero_policy family4). (''iptables'', append_rule rl, True) \<in> set pre)"
proof -
  obtain r u log where up: "tunnel_egress_Up (logged fresh_host) zero_policy ''wg0'' ((), []) = (r, u, log)"
    by (metis prod_cases3)
  let ?jump = "(''iptables'', [''-I'', ''FORWARD'', ''1'', ''-i'', ''wg0'', ''-j'', ''DVPND-FWD-wg0''], True)"
  have fam: "families fresh_host () = [family4]"
    by (simp add: families_def fresh_host_def quiet_host_def)
  have "r = ok \<and> ?jump \<in> set log"
    using up
    by (simp add: tunnel_egress_Up_def chains_up_def fam up_family_def tunnel_chains_def up_chain_def
        up_jump_def run_cmd_logged fresh_host_run tunnel_rules_def zero_policy_def BlockedNetworksV4_def
        inFamily_def ForwardChain_def InputChain_def Let_def) auto
  then obtain pre post where log: "r = ok" "log = pre @ ?jump # post" by (metis in_set_conv_decomp)
  have "\<forall>rl \<in> set (tunnel_rules ''wg0'' zero_policy family4). (fam_tool family4, append_rule rl, True) \<in> set pre"
    using log(2) fam by (intro tunnel_rules_before_jump [OF up]) simp_all
  with up log show ?thesis by (intro exI [of _ log] exI [of _ pre] exI [of _ post]) simp
qed

end
