(* ===== verification/Json.thy ===== *)
theory Json
  imports Url
begin

text \<open>
  What the node uses of \<^verbatim>\<open>encoding/json\<close>. The decoder's text parsing is left out: the definitions start
  from the value it reads and follow its rules for filling the fields of a struct: keys match without
  regard to case, the last one wins, a value of another type is an error. A number written with a
  fraction or an exponent is never an integer for the decoder. The encoder's string form, which the
  templates of the daemons' configurations use, is defined in full.
\<close>

section \<open>Decoding\<close>

datatype json =
    JNull
  | JBool bool
  | JNum int
  | JFloat string
  | JStr string
  | JArr "json list"
  | JObj "(string \<times> json) list"

definition field_values :: "string \<Rightarrow> (string \<times> json) list \<Rightarrow> json list" where
  "field_values name obj = map snd (filter (\<lambda>(k, v). to_lower k = name) obj)"

text \<open>A \<^verbatim>\<open>json.RawMessage\<close> takes any value.\<close>

definition raw_field :: "string \<Rightarrow> (string \<times> json) list \<Rightarrow> json option" where
  "raw_field name obj = (case field_values name obj of [] \<Rightarrow> None | vs \<Rightarrow> Some (last vs))"

fun as_string_ptr :: "json \<Rightarrow> string option option" where
  "as_string_ptr JNull = Some None"
| "as_string_ptr (JStr s) = Some (Some s)"
| "as_string_ptr _ = None"

fun as_int_ptr :: "json \<Rightarrow> int option option" where
  "as_int_ptr JNull = Some None"
| "as_int_ptr (JNum n) = (if in_i64 n then Some (Some n) else None)"
| "as_int_ptr _ = None"

text \<open>A pointer field: \<^const>\<open>None\<close> is a decoding error.\<close>

definition ptr_field :: "(json \<Rightarrow> 'a option option) \<Rightarrow> string \<Rightarrow> (string \<times> json) list \<Rightarrow> 'a option option" where
  "ptr_field f name obj =
    (let vs = field_values name obj in
     if \<exists>v \<in> set vs. f v = None then None
     else if vs = [] then Some None else f (last vs))"

text \<open>A struct is filled from an object; \<^verbatim>\<open>null\<close> leaves it as it is.\<close>

fun as_object :: "json option \<Rightarrow> (string \<times> json) list option" where
  "as_object (Some (JObj obj)) = Some obj"
| "as_object (Some JNull) = Some []"
| "as_object _ = None"

fun byte_of_json :: "json \<Rightarrow> byte option" where
  "byte_of_json (JNum n) = (if 0 \<le> n \<and> n < 256 then Some (of_int n) else None)"
| "byte_of_json JNull = Some 0"
| "byte_of_json _ = None"

text \<open>Decoding into a \<^verbatim>\<open>[]byte\<close>: an array of bytes, or a string in base64.\<close>

fun bytes_of_json :: "json \<Rightarrow> bytes option" where
  "bytes_of_json JNull = Some []"
| "bytes_of_json (JStr s) = b64_decode s"
| "bytes_of_json (JArr xs) = those (map byte_of_json xs)"
| "bytes_of_json _ = None"

text \<open>A field that is not a pointer: \<^verbatim>\<open>null\<close> leaves what was there before.\<close>

definition plain_field :: "(json \<Rightarrow> 'a option option) \<Rightarrow> 'a \<Rightarrow> string \<Rightarrow> (string \<times> json) list \<Rightarrow> 'a option" where
  "plain_field f zero name obj =
    (let vs = field_values name obj in
     if \<exists>v \<in> set vs. f v = None then None
     else Some (last (zero # List.map_filter (\<lambda>v. the (f v)) vs)))"

fun as_uint64_ptr :: "json \<Rightarrow> int option option" where
  "as_uint64_ptr JNull = Some None"
| "as_uint64_ptr (JNum n) = (if 0 \<le> n \<and> n < 2 ^ 64 then Some (Some n) else None)"
| "as_uint64_ptr _ = None"

section \<open>Strings\<close>

text \<open>The length of the rune that UTF-8 text begins with, 0 when it does not begin with a valid one.\<close>

definition between :: "nat \<Rightarrow> nat \<Rightarrow> char \<Rightarrow> bool" where
  "between lo hi c \<longleftrightarrow> lo \<le> char_code c \<and> char_code c \<le> hi"

fun utf8_len :: "string \<Rightarrow> nat" where
  "utf8_len [] = 0"
| "utf8_len (c # cs) =
    (let second = (\<lambda>lo hi. cs \<noteq> [] \<and> between lo hi (hd cs));
         more = (\<lambda>n. length cs \<ge> n \<and> list_all (between 0x80 0xBF) (tl (take n cs))) in
     if between 0 0x7F c then 1
     else if between 0xC2 0xDF c \<and> second 0x80 0xBF then 2
     else if between 0xE0 0xE0 c \<and> second 0xA0 0xBF \<and> more 2 then 3
     else if between 0xED 0xED c \<and> second 0x80 0x9F \<and> more 2 then 3
     else if between 0xE1 0xEF c \<and> \<not> between 0xED 0xED c \<and> second 0x80 0xBF \<and> more 2 then 3
     else if between 0xF0 0xF0 c \<and> second 0x90 0xBF \<and> more 3 then 4
     else if between 0xF1 0xF3 c \<and> second 0x80 0xBF \<and> more 3 then 4
     else if between 0xF4 0xF4 c \<and> second 0x80 0x8F \<and> more 3 then 4
     else 0)"

definition json_escape_char :: "char \<Rightarrow> string" where
  "json_escape_char c =
    (let b = CHR 0x5C; n = char_code c in
     if c = CHR 0x22 \<or> c = b then [b, c]
     else if n = 8 then [b, CHR ''b''] else if n = 12 then [b, CHR ''f'']
     else if n = 10 then [b, CHR ''n''] else if n = 13 then [b, CHR ''r''] else if n = 9 then [b, CHR ''t'']
     else if n < 32 \<or> c = CHR ''<'' \<or> c = CHR ''>'' \<or> c = CHR 0x26
     then b # ''u00'' @ [hex_char (n div 16), hex_char (n mod 16)]
     else [c])"

function json_escape :: "string \<Rightarrow> string" where
  "json_escape [] = []"
| "json_escape (c # cs) =
    (if char_code c < 128 then json_escape_char c @ json_escape cs
     else let n = utf8_len (c # cs) in
       if n = 0 then CHR 0x5C # ''ufffd'' @ json_escape cs
       else if take n (c # cs) = [CHR 0xE2, CHR 0x80, CHR 0xA8] then CHR 0x5C # ''u2028'' @ json_escape (drop 2 cs)
       else if take n (c # cs) = [CHR 0xE2, CHR 0x80, CHR 0xA9] then CHR 0x5C # ''u2029'' @ json_escape (drop 2 cs)
       else take n (c # cs) @ json_escape (drop (n - 1) cs))"
  by pat_completeness auto
termination
  by (relation "measure length") auto

definition json_string :: "string \<Rightarrow> string" where
  "json_string s = CHR 0x22 # json_escape s @ [CHR 0x22]"

end
