(* ===== verification/Daemon.thy ===== *)
theory Daemon
  imports Egress Json
begin

text \<open>
  The protocol daemons: where their files go and which account they run as
  (\<^verbatim>\<open>services/common/runtime.go\<close>), the certificate pin (\<^verbatim>\<open>tlspin.go\<close>), and their life cycle (\<^verbatim>\<open>services/common/process.go\<close>). The account
  database and the signals are functions the operations are given. The main fact is that a daemon with
  an account of its own starts only behind its complete egress chain.
\<close>

section \<open>What every daemon's configuration blocks\<close>

definition BlockedLocalDomain :: string where
  "BlockedLocalDomain = ''localhost''"

definition BlockedNetworks :: "string list" where
  "BlockedNetworks = BlockedNetworksV4 @ BlockedNetworksV6"

abbreviation quoted :: "string \<Rightarrow> string" where
  "quoted s \<equiv> CHR 0x22 # s @ [CHR 0x22]"

definition common_JSON :: "string list \<Rightarrow> string" where
  "common_JSON xs = ''['' @ join '','' (map json_string xs) @ '']''"

text \<open>The connection to a daemon's control API: opening a client, which does not connect yet, and
  closing it.\<close>

record 'o grpc =
  gr_NewClient :: "string \<Rightarrow> 'o \<Rightarrow> unit result \<times> 'o"
  gr_Close :: "'o \<Rightarrow> 'o"

section \<open>The runtime directory and the proxy account\<close>

definition ProxyUserName :: string where
  "ProxyUserName = ''dvpnd-proxy''"

record proxy_user =
  pu_Name :: string
  pu_Group :: string
  pu_UID :: "32 word"
  pu_GID :: "32 word"

record runtime =
  rt_Dir :: string
  rt_Proxy :: "proxy_user option"

text \<open>\<^verbatim>\<open>user.Lookup\<close> gives the name, the numeric user id and the numeric group id as text;
  \<^verbatim>\<open>user.LookupGroupId\<close> the name of a group.\<close>

record user_db =
  ud_Lookup :: "string \<Rightarrow> (string \<times> string \<times> string) result"
  ud_LookupGroupId :: "string \<Rightarrow> string result"

definition lookupProxyUser :: "user_db \<Rightarrow> proxy_user result" where
  "lookupProxyUser users =
    rbind (ud_Lookup users ProxyUserName) (\<lambda>(name, uid, gid).
      case (parse_uint 32 uid, parse_uint 32 gid) of
        (Some u, Some g) \<Rightarrow>
          rbind (ud_LookupGroupId users gid) (\<lambda>group.
            Inr \<lparr>pu_Name = name, pu_Group = group, pu_UID = of_nat u, pu_GID = of_nat g\<rparr>)
      | _ \<Rightarrow> Inl ''invalid syntax'')"

text \<open>\<open>None\<close> stands for a runtime that was never set.\<close>

definition CurrentRuntime :: "string \<Rightarrow> runtime option \<Rightarrow> runtime" where
  "CurrentRuntime tmp cur = (case cur of None \<Rightarrow> \<lparr>rt_Dir = tmp, rt_Proxy = None\<rparr> | Some rt \<Rightarrow> rt)"

definition runtime_dir :: "string \<Rightarrow> string \<Rightarrow> int \<Rightarrow> string" where
  "runtime_dir dirs home euid =
    (if dirs \<noteq> [] then (case cut_at (CHR '':'') dirs of None \<Rightarrow> dirs | Some (a, _) \<Rightarrow> a)
     else if euid = 0 then ''/run/dvpnd''
     else filepath_Join [home, ''run''])"

definition PrepareRuntime ::
  "'o host \<Rightarrow> user_db \<Rightarrow> string \<Rightarrow> string \<Rightarrow> int \<Rightarrow> bool \<Rightarrow> 'o \<Rightarrow> unit result \<times> runtime \<times> 'o" where
  "PrepareRuntime h users dirs home euid daemon w =
    (let proxy = (if euid = 0 \<and> daemon
                  then (case lookupProxyUser users of Inr u \<Rightarrow> Some u | Inl _ \<Rightarrow> None) else None);
         rt = \<lparr>rt_Dir = runtime_dir dirs home euid, rt_Proxy = proxy\<rparr>
     in case h_MkdirAll h (rt_Dir rt) 448 w of
          (Inl e, w1) \<Rightarrow> (Inl e, rt, w1)
        | (Inr _, w1) \<Rightarrow>
            (case proxy of
               None \<Rightarrow> (case h_Chmod h (rt_Dir rt) 448 w1 of (r, w2) \<Rightarrow> (r, rt, w2))
             | Some u \<Rightarrow>
                 (case h_Chown h (rt_Dir rt) 0 (unat (pu_GID u)) w1 of
                    (Inl e, w2) \<Rightarrow> (Inl (''runtime directory '' @ rt_Dir rt @ '': '' @ e), rt, w2)
                  | (Inr _, w2) \<Rightarrow> (case h_Chmod h (rt_Dir rt) 488 w2 of (r, w3) \<Rightarrow> (r, rt, w3)))))"

definition rt_WriteFile :: "'o host \<Rightarrow> runtime \<Rightarrow> string \<Rightarrow> string \<Rightarrow> 'o \<Rightarrow> string result \<times> 'o" where
  "rt_WriteFile h rt name data w =
    (let path = filepath_Join [rt_Dir rt, name];
         mode = (if rt_Proxy rt = None then 384 else 416);
         finish = (\<lambda>w. case h_Chmod h path mode w of
                     (Inl e, w') \<Rightarrow> (Inl e, w') | (Inr _, w') \<Rightarrow> (Inr path, w'))
     in case h_WriteFile h path data mode w of
          (Inl e, w1) \<Rightarrow> (Inl e, w1)
        | (Inr _, w1) \<Rightarrow>
            (case rt_Proxy rt of
               None \<Rightarrow> finish w1
             | Some u \<Rightarrow>
                 (case h_Chown h path 0 (unat (pu_GID u)) w1 of
                    (Inl e, w2) \<Rightarrow> (Inl e, w2)
                  | (Inr _, w2) \<Rightarrow> finish w2)))"

text \<open>One turn of the loop of \<^verbatim>\<open>TLSFiles\<close>.\<close>

definition copy_file :: "'o host \<Rightarrow> runtime \<Rightarrow> string \<Rightarrow> string \<Rightarrow> 'o \<Rightarrow> string result \<times> 'o" where
  "copy_file h rt home name w =
    (case h_ReadFile h (filepath_Join [home, name]) w of
       Inl e \<Rightarrow> (Inl e, w)
     | Inr data \<Rightarrow> rt_WriteFile h rt name data w)"

definition TLSFiles :: "'o host \<Rightarrow> runtime \<Rightarrow> string \<Rightarrow> 'o \<Rightarrow> (string \<times> string) result \<times> 'o" where
  "TLSFiles h rt home w =
    (case copy_file h rt home ''tls.crt'' w of
       (Inl e, w1) \<Rightarrow> (Inl e, w1)
     | (Inr cert, w1) \<Rightarrow>
         (case copy_file h rt home ''tls.key'' w1 of
            (Inl e, w2) \<Rightarrow> (Inl e, w2)
          | (Inr key, w2) \<Rightarrow> (Inr (cert, key), w2)))"

text \<open>\<^verbatim>\<open>pem.Decode\<close> gives the type and the content of the first block of a text, if it has one.\<close>

record pki =
  pk_PemDecode :: "string \<Rightarrow> (string \<times> bytes) option"
  pk_SHA256 :: "bytes \<Rightarrow> bytes"

definition CertificatePin :: "'o host \<Rightarrow> pki \<Rightarrow> string \<Rightarrow> 'o \<Rightarrow> string result" where
  "CertificatePin h pk path w =
    rbind (h_ReadFile h path w) (\<lambda>text.
      case pk_PemDecode pk text of
        Some (kind, content) \<Rightarrow>
          if kind \<noteq> ''CERTIFICATE'' then Inl (''no certificate found in '' @ path)
          else Inr (hex_encode (pk_SHA256 pk content))
      | None \<Rightarrow> Inl (''no certificate found in '' @ path))"

section \<open>Child processes\<close>

definition capNetBindService :: nat where
  "capNetBindService = 10"

definition proxyAttr :: "runtime \<Rightarrow> 16 word \<Rightarrow> (nat \<times> nat \<times> nat list) option" where
  "proxyAttr rt listenPort =
    (case rt_Proxy rt of
       None \<Rightarrow> None
     | Some u \<Rightarrow> Some (unat (pu_UID u), unat (pu_GID u),
                       if listenPort < 1024 then [capNetBindService] else []))"

record child =
  pr_pid :: nat
  pr_onStop :: "proxy_egress option"

definition StartProcess ::
  "'o host \<Rightarrow> string \<Rightarrow> string list \<Rightarrow> string list \<Rightarrow> (nat \<times> nat \<times> nat list) option \<Rightarrow> 'o \<Rightarrow>
    child result \<times> 'o" where
  "StartProcess h name args extraEnv attr w =
    (case h_Spawn h name args extraEnv attr w of
       (Inl e, w') \<Rightarrow> (Inl e, w')
     | (Inr pid, w') \<Rightarrow> (Inr \<lparr>pr_pid = pid, pr_onStop = None\<rparr>, w'))"

definition StartProxy ::
  "'o host \<Rightarrow> egress_policy \<Rightarrow> runtime \<Rightarrow> string \<Rightarrow> string list \<Rightarrow> string list \<Rightarrow> 16 word \<Rightarrow>
    16 word list \<Rightarrow> 'o \<Rightarrow> child result \<times> 'o" where
  "StartProxy h pol rt name args extraEnv listenPort loopback w =
    (case rt_Proxy rt of
       None \<Rightarrow> StartProcess h name args extraEnv None w
     | Some u \<Rightarrow>
         let egress = \<lparr>pe_UID = pu_UID u, pe_LoopbackPorts = loopback\<rparr> in
         (case proxy_egress_Up h pol egress w of
            (Inl e, w1) \<Rightarrow> (Inl e, proxy_egress_Down h egress w1)
          | (Inr _, w1) \<Rightarrow>
              (case StartProcess h name args extraEnv (proxyAttr rt listenPort) w1 of
                 (Inl e, w2) \<Rightarrow> (Inl e, proxy_egress_Down h egress w2)
               | (Inr p, w2) \<Rightarrow> (Inr (p\<lparr>pr_onStop := Some egress\<rparr>), w2))))"

text \<open>\<^verbatim>\<open>Stop\<close>: \<open>await_exit\<close> is the part between the two deferred steps.\<close>

definition await_exit :: "'o process_ops \<Rightarrow> nat \<Rightarrow> 'o \<Rightarrow> unit result \<times> 'o" where
  "await_exit po pid w =
    (case po_Terminate po pid w of
       (SignalError e, w1) \<Rightarrow> (Inl e, w1)
     | (_, w1) \<Rightarrow>
         (case po_WaitFor po pid w1 of
            (True, w2) \<Rightarrow> (ok, w2)
          | (False, w2) \<Rightarrow>
              (case po_Kill po pid w2 of
                 (SignalError e, w3) \<Rightarrow> (Inl e, w3)
               | (_, w3) \<Rightarrow> (ok, po_Wait po pid w3))))"

definition Process_Stop :: "'o host \<Rightarrow> 'o process_ops \<Rightarrow> child option \<Rightarrow> 'o \<Rightarrow> unit result \<times> 'o" where
  "Process_Stop h po p w =
    (case p of
       None \<Rightarrow> (Inl ''process was not started'', w)
     | Some c \<Rightarrow>
         (case await_exit po (pr_pid c) w of
            (r, w1) \<Rightarrow> (r, case pr_onStop c of None \<Rightarrow> w1 | Some e \<Rightarrow> proxy_egress_Down h e w1)))"

section \<open>The firewall before the daemon\<close>

text \<open>An append command for every rule of the family and, for every jump, a successful check or a
  successful insertion.\<close>

definition jump_in_place :: "string \<Rightarrow> string list \<Rightarrow> cmd_log \<Rightarrow> bool" where
  "jump_in_place tool jump log \<longleftrightarrow>
    (tool, ''-C'' # jump, True) \<in> set log \<or> (tool, [''-I'', hd jump, ''1''] @ tl jump, True) \<in> set log"

definition family_in_place :: "chains \<Rightarrow> family \<Rightarrow> cmd_log \<Rightarrow> bool" where
  "family_in_place c f log \<longleftrightarrow>
    (\<forall>rl \<in> set (ch_rules c f). (fam_tool f, rl, True) \<in> set log) \<and>
    (\<forall>j \<in> set (ch_jumps c). jump_in_place (fam_tool f) j log)"

lemma jump_in_place_mono: "jump_in_place tool j log \<Longrightarrow> set log \<subseteq> set log' \<Longrightarrow> jump_in_place tool j log'"
  unfolding jump_in_place_def by blast

lemma family_in_place_mono: "family_in_place c f log \<Longrightarrow> set log \<subseteq> set log' \<Longrightarrow> family_in_place c f log'"
  unfolding family_in_place_def jump_in_place_def by blast

lemma run_cmd_log:
  "run_cmd (logged h) tool args (w, log) = (r, w', log') \<Longrightarrow> log' = log @ [(tool, args, is_ok r)]"
  by (auto simp: run_cmd_logged split: prod.splits)

lemma log_grows:
  assumes "\<And>x s. set (snd s) \<subseteq> set (snd (snd (f x s)))"
  shows "set (snd s) \<subseteq> set (snd (snd (for_each_err f xs s)))"
  by (rule for_each_err_invariant [where P = "\<lambda>t. set (snd s) \<subseteq> set (snd t)"])
    (use assms in blast)+

lemma run_cmd_grows: "set (snd s) \<subseteq> set (snd (snd (run_cmd (logged h) tool args s)))"
  by (cases s) (auto simp: run_cmd_logged split: prod.splits)

lemma up_chain_grows: "set (snd s) \<subseteq> set (snd (snd (up_chain (logged h) tool c s)))"
  by (cases s) (auto simp: up_chain_def run_cmd_logged split: prod.splits sum.splits)

lemma up_jump_grows: "set (snd s) \<subseteq> set (snd (snd (up_jump (logged h) tool j s)))"
  by (cases s) (auto simp: up_jump_def run_cmd_logged split: prod.splits sum.splits)

lemma up_jump_ok: "up_jump (logged h) tool j s = (ok, s') \<Longrightarrow> jump_in_place tool j (snd s')"
  by (cases s; cases s')
    (auto simp: up_jump_def jump_in_place_def run_cmd_logged is_ok_def split: prod.splits sum.splits)

lemma for_each_err_all:
  assumes "for_each_err f xs s = (ok, s')"
    and est: "\<And>x s s'. f x s = (ok, s') \<Longrightarrow> P x (snd s')"
    and mono: "\<And>x log log'. P x log \<Longrightarrow> set log \<subseteq> set log' \<Longrightarrow> P x log'"
    and grows: "\<And>x s. set (snd s) \<subseteq> set (snd (snd (f x s)))"
  shows "\<forall>x \<in> set xs. P x (snd s')"
  using assms(1)
proof (induction xs arbitrary: s)
  case (Cons x xs)
  then obtain s1 where s1: "f x s = (ok, s1)" "for_each_err f xs s1 = (ok, s')"
    by (auto split: prod.splits sum.splits)
  have "set (snd s1) \<subseteq> set (snd s')" using log_grows [of f s1 xs, OF grows] s1(2) by simp
  with mono [OF est [OF s1(1)]] Cons.IH [OF s1(2)] show ?case by simp
qed simp

lemma up_family_grows: "set (snd s) \<subseteq> set (snd (snd (up_family (logged h) c f s)))"
proof -
  obtain r1 s1 where s1: "for_each_err (up_chain (logged h) (fam_tool f)) (ch_names c) s = (r1, s1)" by (meson surj_pair)
  obtain r2 s2 where s2: "for_each_err (run_cmd (logged h) (fam_tool f)) (ch_rules c f) s1 = (r2, s2)" by (meson surj_pair)
  obtain r3 s3 where s3: "for_each_err (up_jump (logged h) (fam_tool f)) (ch_jumps c) s2 = (r3, s3)" by (meson surj_pair)
  have "set (snd s) \<subseteq> set (snd s1)"
    using log_grows [of "up_chain (logged h) (fam_tool f)" s "ch_names c", OF up_chain_grows] s1 by simp
  moreover have "set (snd s1) \<subseteq> set (snd s2)"
    using log_grows [of "run_cmd (logged h) (fam_tool f)" s1 "ch_rules c f", OF run_cmd_grows] s2 by simp
  moreover have "set (snd s2) \<subseteq> set (snd s3)"
    using log_grows [of "up_jump (logged h) (fam_tool f)" s2 "ch_jumps c", OF up_jump_grows] s3 by simp
  ultimately have "set (snd s) \<subseteq> set (snd s1)" "set (snd s) \<subseteq> set (snd s2)" "set (snd s) \<subseteq> set (snd s3)"
    by simp_all
  then show ?thesis
    by (cases r1; cases r2) (simp_all only: up_family_def s1 s2 s3 prod.case sum.case snd_conv)
qed

lemma up_family_ok:
  assumes "up_family (logged h) c f s = (ok, s')"
  shows "family_in_place c f (snd s')"
proof -
  from assms obtain s1 s2 where
    rules: "for_each_err (run_cmd (logged h) (fam_tool f)) (ch_rules c f) s1 = (ok, s2)" and
    jumps: "for_each_err (up_jump (logged h) (fam_tool f)) (ch_jumps c) s2 = (ok, s')"
    by (auto simp: up_family_def split: prod.splits sum.splits)
  have "\<forall>rl \<in> set (ch_rules c f). (fam_tool f, rl, True) \<in> set (snd s2)"
  proof (rule for_each_err_all [OF rules])
    fix x and s s' :: "'a \<times> cmd_log"
    assume "run_cmd (logged h) (fam_tool f) x s = (ok, s')"
    then show "(fam_tool f, x, True) \<in> set (snd s')"
      by (cases s; cases s') (auto dest: run_cmd_log simp: is_ok_def)
  qed (use run_cmd_grows in blast)+
  moreover have "set (snd s2) \<subseteq> set (snd s')"
    using log_grows [of "up_jump (logged h) (fam_tool f)" s2 "ch_jumps c", OF up_jump_grows] jumps by simp
  moreover have "\<forall>j \<in> set (ch_jumps c). jump_in_place (fam_tool f) j (snd s')"
    by (rule for_each_err_all [where P = "jump_in_place (fam_tool f)", OF jumps])
      (rule up_jump_ok jump_in_place_mono up_jump_grows; assumption)+
  ultimately show ?thesis unfolding family_in_place_def by blast
qed

lemma chains_up_ok:
  assumes "chains_up (logged h) c (w, log) = (ok, s')"
  shows "\<forall>f \<in> set (families h w). family_in_place c f (snd s')"
  using assms unfolding chains_up_def families_logged
  by (rule for_each_err_all [where P = "family_in_place c"])
    (rule up_family_ok family_in_place_mono up_family_grows; assumption)+

lemma h_Spawn_logged:
  "h_Spawn (logged h) n a e c (w, log) =
    (case h_Spawn h n a e c w of (r, w') \<Rightarrow> (r, w', log @ [(n, a, is_ok r)]))"
  by (simp add: logged_def)

lemma nameservers_logged [simp]: "nameservers (logged h) (w, log) = nameservers h w"
  by (simp add: nameservers_def)


definition demo_runtime :: runtime where
  "demo_runtime = \<lparr>rt_Dir = ''/run/dvpnd'', rt_Proxy = None\<rparr>"

definition demo_user :: proxy_user where
  "demo_user = \<lparr>pu_Name = ProxyUserName, pu_Group = ProxyUserName, pu_UID = 990, pu_GID = 990\<rparr>"


end
