(* ===== verification/IP_Pool.thy ===== *)
theory IP_Pool
  imports Net_Addr
begin

text \<open>
  The tunnel address pools of \<^verbatim>\<open>services/wireguard/types/ip.go\<close> and \<^verbatim>\<open>ip_pool.go\<close>. A pool hands
  out released addresses first and otherwise advances a cursor through its network. The locale
  \<^verbatim>\<open>addr_pool\<close> is the contract a tunnel service relies on; both pools are shown to keep it. The
  mutexes of the code make each operation atomic; one call is one function application here.
\<close>

section \<open>Addresses\<close>

datatype ipv4 = IPv4 byte byte byte byte

type_synonym ipv6 = bytes

primrec v4_Bytes :: "ipv4 \<Rightarrow> bytes" where
  "v4_Bytes (IPv4 a b c d) = [a, b, c, d]"

definition v4_of_list :: "bytes \<Rightarrow> ipv4" where
  "v4_of_list bs = IPv4 (bs ! 0) (bs ! 1) (bs ! 2) (bs ! 3)"

definition v4_zero :: ipv4 where
  "v4_zero = IPv4 0 0 0 0"

definition v6_zero :: ipv6 where
  "v6_zero = replicate 16 0"

definition NewIPv4FromIP :: "bytes \<Rightarrow> ipv4" where
  "NewIPv4FromIP ip =
    v4_of_list (go_copy (v4_Bytes v4_zero) (case ip_To4 ip of Some q \<Rightarrow> q | None \<Rightarrow> []))"

definition v4_Empty :: "ipv4 \<Rightarrow> bool" where
  "v4_Empty ip \<longleftrightarrow> ip = v4_zero"

definition v4_Next :: "ipv4 \<Rightarrow> ipv4" where
  "v4_Next ip = v4_of_list (go_copy (v4_Bytes ip) (bytes_of_big (big_of_bytes (v4_Bytes ip) + 1)))"

definition NewIPv6FromIP :: "bytes \<Rightarrow> ipv6" where
  "NewIPv6FromIP ip = go_copy v6_zero (ip_To16 ip)"

definition v6_Empty :: "ipv6 \<Rightarrow> bool" where
  "v6_Empty ip \<longleftrightarrow> ip = v6_zero"

definition v6_Next :: "ipv6 \<Rightarrow> ipv6" where
  "v6_Next ip = go_copy ip (bytes_of_big (big_of_bytes ip + 1))"

primrec v4_last :: "ipv4 \<Rightarrow> byte" where
  "v4_last (IPv4 a b c d) = d"

primrec v4_first :: "ipv4 \<Rightarrow> byte" where
  "v4_first (IPv4 a b c d) = a"

definition v4_nat :: "ipv4 \<Rightarrow> nat" where
  "v4_nat ip = big_of_bytes (v4_Bytes ip)"

lemma length_v4_Bytes [simp]: "length (v4_Bytes ip) = 4"
  by (cases ip) simp

lemma v4_of_list_Bytes [simp]: "v4_of_list (v4_Bytes ip) = ip"
  by (cases ip) (simp add: v4_of_list_def)

lemma v4_Bytes_of_list: "length bs = 4 \<Longrightarrow> v4_Bytes (v4_of_list bs) = bs"
  by (auto simp: v4_of_list_def length_Suc_conv numeral_eq_Suc)

lemma v4_nat_less: "v4_nat ip < 2 ^ 32"
  using big_of_bytes_less [of "v4_Bytes ip"] by (simp add: v4_nat_def)

lemma v4_nat_inj [simp]: "v4_nat a = v4_nat b \<longleftrightarrow> a = b"
  using big_of_bytes_inj [of "v4_Bytes a" "v4_Bytes b"]
  by (metis length_v4_Bytes v4_nat_def v4_of_list_Bytes)

lemma v4_nat_IPv4:
  "v4_nat (IPv4 a b c d) = unat a * 16777216 + unat b * 65536 + unat c * 256 + unat d"
  by (simp add: v4_nat_def)

lemma v4_last_nat: "unat (v4_last ip) = v4_nat ip mod 256"
proof (cases ip)
  case (IPv4 a b c d)
  then have "v4_nat ip = (unat a * 65536 + unat b * 256 + unat c) * 256 + unat d"
    by (simp add: v4_nat_IPv4)
  then show ?thesis by (simp only: octets IPv4 v4_last.simps)
qed

lemma v4_first_nonzero_iff: "v4_first ip \<noteq> 0 \<longleftrightarrow> 2 ^ 24 \<le> v4_nat ip"
proof (cases ip)
  case (IPv4 a b c d)
  have "unat b * 65536 + unat c * 256 + unat d < 16777216"
    using unat_byte_less [of b] unat_byte_less [of c] unat_byte_less [of d] by simp
  then have "2 ^ 24 \<le> v4_nat ip \<longleftrightarrow> 0 < unat a"
    by (cases "unat a") (auto simp: IPv4 v4_nat_IPv4)
  then show ?thesis by (simp add: IPv4 unat_gt_0)
qed

lemma hd_bytes_of_big: "0 < n \<Longrightarrow> bytes_of_big n \<noteq> [] \<and> hd (bytes_of_big n) \<noteq> 0"
proof (induction n rule: bytes_of_big.induct)
  case (1 n)
  show ?case
  proof (cases "n div 256 = 0")
    case True
    then have "n < 256" by (simp add: div_eq_0_iff)
    moreover from True have "bytes_of_big n = [of_nat (n mod 256)]"
      using 1 by (subst bytes_of_big.simps) (simp add: bytes_of_big.simps)
    ultimately show ?thesis
      using "1.prems" by (simp add: byte_eq_iff_unat unat_of_nat_byte)
  next
    case False
    with 1 show ?thesis by (subst (1 2) bytes_of_big.simps) auto
  qed
qed

lemma go_copy_next:
  assumes "256 ^ k \<le> n" "n < 256 ^ Suc k" "length x = Suc k"
  shows "go_copy x (bytes_of_big n) = bytes_of_big n"
  using length_bytes_of_big_ge [OF assms(1)] length_bytes_of_big_le [OF assms(2)] assms(3)
  by (intro go_copy_exact) simp

lemma v4_nat_Next:
  assumes "2 ^ 24 \<le> v4_nat ip" "v4_nat ip + 1 < 2 ^ 32"
  shows "v4_nat (v4_Next ip) = v4_nat ip + 1"
proof -
  have c: "go_copy (v4_Bytes ip) (bytes_of_big (v4_nat ip + 1)) = bytes_of_big (v4_nat ip + 1)"
    using assms by (intro go_copy_next [of 3]) simp_all
  then have "length (bytes_of_big (v4_nat ip + 1)) = 4"
    by (metis length_go_copy length_v4_Bytes)
  with c show ?thesis
    by (simp add: v4_Next_def v4_nat_def v4_Bytes_of_list)
qed

section \<open>The IPv4 pool\<close>

record ipv4_pool =
  p4_Net :: ipnet
  p4_current :: ipv4
  p4_available :: "ipv4 list"
  p4_reserved :: "ipv4 set"

definition NewIPv4Pool :: "bytes \<Rightarrow> ipnet \<Rightarrow> ipv4_pool" where
  "NewIPv4Pool ip ipNet =
    \<lparr>p4_Net = ipNet, p4_current = NewIPv4FromIP ip, p4_available = [], p4_reserved = {}\<rparr>"

definition NewIPv4PoolFromCIDR :: "string \<Rightarrow> ipv4_pool result" where
  "NewIPv4PoolFromCIDR s =
    (case ParseCIDR s of
       None \<Rightarrow> Inl ''invalid CIDR address''
     | Some (ip, ipNet) \<Rightarrow> Inr (NewIPv4Pool ip ipNet))"

text \<open>An address whose last octet is 0 or 255 is never handed out.\<close>

definition v4_skipped :: "ipv4 \<Rightarrow> bool" where
  "v4_skipped ip \<longleftrightarrow> v4_last ip = 0 \<or> v4_last ip = 255"

text \<open>The loop of \<^verbatim>\<open>Get\<close>. It ends for every address: from an address with a leading zero octet,
  where \<^const>\<open>v4_Next\<close> does not add one, it needs one step more.\<close>

function v4_skip :: "ipv4 \<Rightarrow> ipv4" where
  "v4_skip ip = (if v4_skipped ip then v4_skip (v4_Next ip) else ip)"
  by auto

definition skip_steps :: "ipv4 \<Rightarrow> nat" where
  "skip_steps ip =
    (if v4_last ip = 0 then (if v4_first ip = 0 then 2 else 1)
     else if v4_last ip = 255 then (if v4_first ip = 0 then 3 else 2)
     else 0)"

lemma short_list:
  "B \<noteq> [] \<Longrightarrow> length B \<le> 3 \<Longrightarrow> (\<exists>p. B = [p]) \<or> (\<exists>p q. B = [p, q]) \<or> (\<exists>p q r. B = [p, q, r])"
  by (cases B; cases "tl B"; cases "tl (tl B)") auto

lemma v4_Next_leading_zero:
  assumes "v4_first ip = 0"
  shows "v4_first (v4_Next ip) \<noteq> 0 \<and> (v4_last (v4_Next ip) = v4_last ip \<or> v4_last (v4_Next ip) = 0)"
proof -
  obtain b c d where ip: "v4_Bytes ip = [0, b, c, d]" and d: "v4_last ip = d"
    using assms by (cases ip) auto
  define n B where nB: "n = v4_nat ip + 1" "B = bytes_of_big n"
  have "n \<le> 2 ^ 24"
    using v4_first_nonzero_iff [of ip] assms by (simp add: nB)
  have B: "B \<noteq> []" "hd B \<noteq> 0" using hd_bytes_of_big [of n] by (simp_all add: nB)
  have next_eq: "v4_Next ip = v4_of_list (take 4 B @ drop (length B) [0, b, c, d])"
    unfolding v4_Next_def go_copy_def length_v4_Bytes nB v4_nat_def by (simp only: ip)
  show ?thesis
  proof (cases "n = 2 ^ 24")
    case True
    then have "B = [1, 0, 0, 0]" by (simp add: nB(2) bytes_of_big.simps)
    then show ?thesis by (simp add: next_eq v4_of_list_def)
  next
    case False
    with \<open>n \<le> 2 ^ 24\<close> have "length B \<le> 3" unfolding nB(2) by (intro length_bytes_of_big_le) simp
    with B(1) consider p where "B = [p]" | p q where "B = [p, q]" | p q r where "B = [p, q, r]"
      using short_list [of B] by blast
    then show ?thesis using B d by cases (auto simp: next_eq v4_of_list_def)
  qed
qed

lemma v4_Next_all_ones: "v4_Next (IPv4 255 255 255 255) = IPv4 1 0 0 0"
  by (simp add: v4_Next_def v4_of_list_def go_copy_def bytes_of_big.simps)

lemma v4_nat_max: "v4_nat ip = 2 ^ 32 - 1 \<Longrightarrow> ip = IPv4 255 255 255 255"
proof -
  assume "v4_nat ip = 2 ^ 32 - 1"
  then have "v4_nat ip = v4_nat (IPv4 255 255 255 255)" by (simp add: v4_nat_IPv4)
  then show ?thesis by simp
qed

lemma v4_Next_skip_steps:
  assumes "v4_skipped ip"
  shows "skip_steps (v4_Next ip) < skip_steps ip"
proof (cases "v4_first ip = 0")
  case True
  with v4_Next_leading_zero [OF True] assms show ?thesis
    by (auto simp: skip_steps_def v4_skipped_def)
next
  case False
  then have ge: "2 ^ 24 \<le> v4_nat ip" by (simp only: v4_first_nonzero_iff)
  show ?thesis
  proof (cases "v4_nat ip + 1 < 2 ^ 32")
    case True
    have nx: "v4_nat (v4_Next ip) = v4_nat ip + 1" using v4_nat_Next [OF ge True] .
    then have "v4_first (v4_Next ip) \<noteq> 0" using ge by (simp add: v4_first_nonzero_iff)
    moreover have "unat (v4_last (v4_Next ip)) = (unat (v4_last ip) + 1) mod 256"
      by (simp add: v4_last_nat nx mod_Suc_eq)
    ultimately show ?thesis
      using False assms by (auto simp: skip_steps_def v4_skipped_def byte_eq_iff_unat)
  next
    case False
    then have "ip = IPv4 255 255 255 255" using v4_nat_less [of ip] by (intro v4_nat_max) simp
    then show ?thesis by (simp add: v4_Next_all_ones skip_steps_def)
  qed
qed

termination v4_skip
  by (relation "measure skip_steps") (auto simp: v4_Next_skip_steps)

declare v4_skip.simps [simp del]

definition IPv4Pool_Get :: "ipv4_pool \<Rightarrow> ipv4 result \<times> ipv4_pool" where
  "IPv4Pool_Get p =
    (case p4_available p of
       [] \<Rightarrow>
         let cur = v4_skip (p4_current p) in
         if \<not> net_Contains (p4_Net p) (v4_Bytes cur)
         then (Inl ''ipv4 pool is pull'', p\<lparr>p4_current := cur\<rparr>)
         else (Inr cur, p\<lparr>p4_current := v4_Next cur, p4_reserved := insert cur (p4_reserved p)\<rparr>)
     | ip # rest \<Rightarrow>
         (Inr ip, p\<lparr>p4_available := rest, p4_reserved := insert ip (p4_reserved p)\<rparr>))"

definition IPv4Pool_Release :: "ipv4 \<Rightarrow> ipv4_pool \<Rightarrow> ipv4_pool" where
  "IPv4Pool_Release ip p =
    (if ip \<in> p4_reserved p
     then p\<lparr>p4_reserved := p4_reserved p - {ip}, p4_available := p4_available p @ [ip]\<rparr>
     else p)"

section \<open>The IPv6 pool\<close>

record ipv6_pool =
  p6_Net :: ipnet
  p6_current :: ipv6
  p6_available :: "ipv6 list"
  p6_reserved :: "ipv6 set"

definition NewIPv6Pool :: "bytes \<Rightarrow> ipnet \<Rightarrow> ipv6_pool" where
  "NewIPv6Pool ip ipNet =
    \<lparr>p6_Net = ipNet, p6_current = NewIPv6FromIP ip, p6_available = [], p6_reserved = {}\<rparr>"

definition NewIPv6PoolFromCIDR :: "string \<Rightarrow> ipv6_pool result" where
  "NewIPv6PoolFromCIDR s =
    (case ParseCIDR s of
       None \<Rightarrow> Inl ''invalid CIDR address''
     | Some (ip, ipNet) \<Rightarrow> Inr (NewIPv6Pool ip ipNet))"

definition IPv6Pool_Get :: "ipv6_pool \<Rightarrow> ipv6 result \<times> ipv6_pool" where
  "IPv6Pool_Get p =
    (case p6_available p of
       [] \<Rightarrow>
         let cur = p6_current p in
         if \<not> net_Contains (p6_Net p) cur then (Inl ''ipv6 pool is pull'', p)
         else (Inr cur, p\<lparr>p6_current := v6_Next cur, p6_reserved := insert cur (p6_reserved p)\<rparr>)
     | ip # rest \<Rightarrow>
         (Inr ip, p\<lparr>p6_available := rest, p6_reserved := insert ip (p6_reserved p)\<rparr>))"

definition IPv6Pool_Release :: "ipv6 \<Rightarrow> ipv6_pool \<Rightarrow> ipv6_pool" where
  "IPv6Pool_Release ip p =
    (if ip \<in> p6_reserved p
     then p\<lparr>p6_reserved := p6_reserved p - {ip}, p6_available := p6_available p @ [ip]\<rparr>
     else p)"

section \<open>The pair of pools\<close>

record ip_pool =
  pool_V4 :: ipv4_pool
  pool_V6 :: ipv6_pool

definition IPPool_Get :: "ip_pool \<Rightarrow> (ipv4 \<times> ipv6) result \<times> ip_pool" where
  "IPPool_Get p =
    (case IPv4Pool_Get (pool_V4 p) of
       (Inl e, p4) \<Rightarrow> (Inl e, p\<lparr>pool_V4 := p4\<rparr>)
     | (Inr v4, p4) \<Rightarrow>
         (case IPv6Pool_Get (pool_V6 p) of
            (Inl e, p6) \<Rightarrow> (Inl e, p\<lparr>pool_V4 := IPv4Pool_Release v4 p4, pool_V6 := p6\<rparr>)
          | (Inr v6, p6) \<Rightarrow> (Inr (v4, v6), p\<lparr>pool_V4 := p4, pool_V6 := p6\<rparr>)))"

definition IPPool_Release :: "ipv4 \<Rightarrow> ipv6 \<Rightarrow> ip_pool \<Rightarrow> ip_pool" where
  "IPPool_Release v4 v6 p =
    p\<lparr>pool_V4 := IPv4Pool_Release v4 (pool_V4 p), pool_V6 := IPv6Pool_Release v6 (pool_V6 p)\<rparr>"

section \<open>The contract of a pool\<close>

text \<open>Any sequence of calls a service makes on a pool.\<close>

datatype 'a pool_op = PGet | PRelease 'a

primrec pool_step :: "('p \<Rightarrow> 'a result \<times> 'p) \<Rightarrow> ('a \<Rightarrow> 'p \<Rightarrow> 'p) \<Rightarrow> 'a pool_op \<Rightarrow> 'p \<Rightarrow> 'p" where
  "pool_step get release PGet p = snd (get p)"
| "pool_step get release (PRelease a) p = release a p"

definition pool_run :: "('p \<Rightarrow> 'a result \<times> 'p) \<Rightarrow> ('a \<Rightarrow> 'p \<Rightarrow> 'p) \<Rightarrow> 'a pool_op list \<Rightarrow> 'p \<Rightarrow> 'p" where
  "pool_run get release ops p = for_each (pool_step get release) ops p"

text \<open>What a tunnel service relies on: an address handed out is one of the usable ones and not in
  use; a refusal means that every usable address is in use; nothing else touches the set of
  addresses in use.\<close>

locale addr_pool =
  fixes get :: "'p \<Rightarrow> 'a result \<times> 'p"
    and release :: "'a \<Rightarrow> 'p \<Rightarrow> 'p"
    and reserved :: "'p \<Rightarrow> 'a set"
    and usable :: "'a set"
    and inv :: "'p \<Rightarrow> bool"
  assumes finite_usable: "finite usable"
    and reserved_usable: "inv p \<Longrightarrow> reserved p \<subseteq> usable"
    and get_Inr: "inv p \<Longrightarrow> get p = (Inr a, p') \<Longrightarrow>
      inv p' \<and> a \<in> usable \<and> a \<notin> reserved p \<and> reserved p' = insert a (reserved p)"
    and get_Inl: "inv p \<Longrightarrow> get p = (Inl e, p') \<Longrightarrow>
      inv p' \<and> reserved p' = reserved p \<and> usable \<subseteq> reserved p"
    and release_law: "inv p \<Longrightarrow> inv (release a p) \<and> reserved (release a p) = reserved p - {a}"
begin

lemma finite_reserved: "inv p \<Longrightarrow> finite (reserved p)"
  using reserved_usable finite_usable finite_subset by blast

lemma get_succeeds: "inv p \<Longrightarrow> card (reserved p) < card usable \<Longrightarrow> \<exists>a p'. get p = (Inr a, p')"
proof (rule ccontr)
  assume p: "inv p" "card (reserved p) < card usable" and "\<nexists>a p'. get p = (Inr a, p')"
  then obtain e p' where "get p = (Inl e, p')" by (metis old.sum.exhaust surj_pair)
  with p get_Inl have "usable \<subseteq> reserved p" by blast
  with p finite_reserved card_mono show False by (metis not_le)
qed

lemma get_inv: "inv p \<Longrightarrow> inv (snd (get p))"
  by (cases "get p"; cases "fst (get p)") (auto dest: get_Inr get_Inl)

lemma run_inv: "inv p \<Longrightarrow> inv (pool_run get release ops p)"
  unfolding pool_run_def
proof (rule for_each_invariant)
  fix op q
  assume "inv q"
  then show "inv (pool_step get release op q)" by (cases op) (auto simp: get_inv release_law)
qed

lemma reserved_bounded: "inv p \<Longrightarrow> card (reserved p) \<le> card usable"
  using reserved_usable finite_usable card_mono by blast

lemma get_release:
  "inv p \<Longrightarrow> get p = (Inr a, p') \<Longrightarrow> inv (release a p') \<and> reserved (release a p') = reserved p"
  using get_Inr [of p a p'] release_law [of p' a] by auto

lemma get_card: "inv p \<Longrightarrow> get p = (Inr a, p') \<Longrightarrow> card (reserved p') = Suc (card (reserved p))"
  using get_Inr [of p a p'] finite_reserved [of p] by auto

end

section \<open>The IPv4 pool keeps the contract\<close>

text \<open>\<open>st\<close> is the address the pool starts from and \<open>hi\<close> the first number past its network. The
  network must lie in the range where \<^const>\<open>v4_Next\<close> is the successor: no leading zero octet, and
  not the very top of the address space.\<close>

definition usable4 :: "ipv4 \<Rightarrow> nat \<Rightarrow> ipv4 set" where
  "usable4 st hi = {x. v4_nat st \<le> v4_nat x \<and> v4_nat x < hi \<and> \<not> v4_skipped x}"

definition net4_from :: "ipnet \<Rightarrow> ipv4 \<Rightarrow> nat \<Rightarrow> bool" where
  "net4_from n st hi \<longleftrightarrow>
    2 ^ 24 \<le> v4_nat st \<and> v4_nat st \<le> hi \<and> hi + 2 < 2 ^ 32 \<and>
    (\<forall>x. v4_nat st \<le> v4_nat x \<longrightarrow> (net_Contains n (v4_Bytes x) \<longleftrightarrow> v4_nat x < hi))"

definition pool4_inv :: "ipv4 \<Rightarrow> nat \<Rightarrow> ipv4_pool \<Rightarrow> bool" where
  "pool4_inv st hi p \<longleftrightarrow>
    net4_from (p4_Net p) st hi \<and>
    v4_nat st \<le> v4_nat (p4_current p) \<and>
    (v4_nat (p4_current p) \<le> hi \<or> v4_nat (p4_current p) \<le> hi + 2 \<and> \<not> v4_skipped (p4_current p)) \<and>
    set (p4_available p) \<union> p4_reserved p = {x \<in> usable4 st hi. v4_nat x < v4_nat (p4_current p)} \<and>
    distinct (p4_available p) \<and> set (p4_available p) \<inter> p4_reserved p = {}"

lemma finite_usable4 [simp]: "finite (usable4 st hi)"
proof (rule inj_on_finite [of v4_nat _ "{..<hi}"])
  show "inj_on v4_nat (usable4 st hi)" by (simp add: inj_on_def)
qed (auto simp: usable4_def)

lemma v4_skip_id: "\<not> v4_skipped x \<Longrightarrow> v4_skip x = x"
  by (subst v4_skip.simps) simp

lemma v4_skip_step: "v4_skipped x \<Longrightarrow> v4_skip x = v4_skip (v4_Next x)"
  by (subst v4_skip.simps) simp

lemma v4_skip_spec:
  assumes "2 ^ 24 \<le> v4_nat x" "v4_nat x + 2 < 2 ^ 32"
  shows "\<not> v4_skipped (v4_skip x)" "v4_nat x \<le> v4_nat (v4_skip x)"
    "v4_nat (v4_skip x) \<le> v4_nat x + 2"
    "\<And>z. v4_nat x \<le> v4_nat z \<Longrightarrow> v4_nat z < v4_nat (v4_skip x) \<Longrightarrow> v4_skipped z"
proof -
  have skipped: "v4_skipped z \<longleftrightarrow> v4_nat z mod 256 = 0 \<or> v4_nat z mod 256 = 255" for z
    by (simp add: v4_skipped_def byte_eq_iff_unat v4_last_nat)
  have n1: "v4_nat (v4_Next x) = v4_nat x + 1" using assms by (simp add: v4_nat_Next)
  have n2: "v4_nat (v4_Next (v4_Next x)) = v4_nat x + 2" using assms by (simp add: v4_nat_Next n1)
  consider "\<not> v4_skipped x" | "v4_nat x mod 256 = 0" | "v4_nat x mod 256 = 255" using skipped by auto
  then have "\<not> v4_skipped (v4_skip x) \<and> v4_nat x \<le> v4_nat (v4_skip x) \<and> v4_nat (v4_skip x) \<le> v4_nat x + 2 \<and>
    (\<forall>z. v4_nat x \<le> v4_nat z \<longrightarrow> v4_nat z < v4_nat (v4_skip x) \<longrightarrow> v4_skipped z)"
  proof cases
    case 1
    then show ?thesis by (simp add: v4_skip_id)
  next
    case 2
    then have "v4_nat (v4_Next x) mod 256 = 1" by (simp add: n1 mod_Suc)
    then have "v4_skip x = v4_Next x" using 2 skipped by (simp add: v4_skip_step v4_skip_id)
    with 2 n1 \<open>v4_nat (v4_Next x) mod 256 = 1\<close> show ?thesis
      by (auto simp: skipped less_Suc_eq_le dest: le_antisym)
  next
    case 3
    then have m: "v4_nat (v4_Next x) mod 256 = 0" "v4_nat (v4_Next (v4_Next x)) mod 256 = 1"
      by (simp_all add: n1 n2 mod_Suc)
    then have "v4_skip x = v4_Next (v4_Next x)"
      using 3 skipped by (simp add: v4_skip_step v4_skip_id)
    moreover have "v4_skipped z" if "v4_nat x \<le> v4_nat z" "v4_nat z < v4_nat x + 2" for z
    proof -
      from that consider "v4_nat z = v4_nat x" | "v4_nat z = v4_nat (v4_Next x)" unfolding n1 by linarith
      then show ?thesis using 3 m skipped by cases metis+
    qed
    ultimately show ?thesis using m n2 skipped by simp
  qed
  then show "\<not> v4_skipped (v4_skip x)" "v4_nat x \<le> v4_nat (v4_skip x)"
    "v4_nat (v4_skip x) \<le> v4_nat x + 2"
    "\<And>z. v4_nat x \<le> v4_nat z \<Longrightarrow> v4_nat z < v4_nat (v4_skip x) \<Longrightarrow> v4_skipped z"
    by blast+
qed

lemma pool4_skip:
  assumes "pool4_inv st hi p" and "c = v4_skip (p4_current p)"
  shows "\<not> v4_skipped c" "v4_nat (p4_current p) \<le> v4_nat c" "v4_nat c \<le> hi + 2"
    "\<And>z. z \<in> usable4 st hi \<Longrightarrow> v4_nat z < v4_nat c \<longleftrightarrow> v4_nat z < v4_nat (p4_current p)"
    "net_Contains (p4_Net p) (v4_Bytes c) \<longleftrightarrow> v4_nat c < hi"
proof -
  let ?cur = "p4_current p"
  have inv: "2 ^ 24 \<le> v4_nat st" "hi + 2 < 2 ^ 32" "v4_nat st \<le> v4_nat ?cur"
      "v4_nat ?cur \<le> hi \<or> v4_nat ?cur \<le> hi + 2 \<and> \<not> v4_skipped ?cur"
      "\<And>x. v4_nat st \<le> v4_nat x \<Longrightarrow> net_Contains (p4_Net p) (v4_Bytes x) \<longleftrightarrow> v4_nat x < hi"
    using assms(1) by (auto simp: pool4_inv_def net4_from_def)
  have "\<not> v4_skipped c \<and> v4_nat ?cur \<le> v4_nat c \<and> v4_nat c \<le> hi + 2 \<and>
      (\<forall>z. v4_nat ?cur \<le> v4_nat z \<longrightarrow> v4_nat z < v4_nat c \<longrightarrow> v4_skipped z)"
  proof (cases "v4_skipped ?cur")
    case True
    then have "v4_nat ?cur \<le> hi" using inv(4) by blast
    then show ?thesis using v4_skip_spec [of ?cur] inv(1-3) assms(2) by auto
  next
    case False
    then show ?thesis using inv(4) assms(2) by (auto simp: v4_skip_id)
  qed
  note c = conjunct1 [OF this] conjunct1 [OF conjunct2 [OF this]]
    conjunct1 [OF conjunct2 [OF conjunct2 [OF this]]] conjunct2 [OF conjunct2 [OF conjunct2 [OF this]]]
  show "\<not> v4_skipped c" "v4_nat ?cur \<le> v4_nat c" "v4_nat c \<le> hi + 2" by (fact c)+
  show "v4_nat z < v4_nat c \<longleftrightarrow> v4_nat z < v4_nat ?cur" if "z \<in> usable4 st hi" for z
    using c(2,4) that not_le by (auto simp: usable4_def)
  show "net_Contains (p4_Net p) (v4_Bytes c) \<longleftrightarrow> v4_nat c < hi"
    using inv(3) c(2) by (intro inv(5)) simp
qed

lemma pool4_Get_Inr:
  assumes inv: "pool4_inv st hi p" and get: "IPv4Pool_Get p = (Inr a, p')"
  shows "pool4_inv st hi p' \<and> a \<in> usable4 st hi \<and> a \<notin> p4_reserved p \<and>
    p4_reserved p' = insert a (p4_reserved p)"
proof (cases "p4_available p")
  case (Cons ip rest)
  then show ?thesis
    using inv get by (auto simp: IPv4Pool_Get_def pool4_inv_def)
next
  case Nil
  define c where "c = v4_skip (p4_current p)"
  note skip = pool4_skip [OF inv c_def]
  from get Nil have c: "v4_nat c < hi" "a = c"
      and p': "p' = p\<lparr>p4_current := v4_Next c, p4_reserved := insert c (p4_reserved p)\<rparr>"
    using skip(5) by (auto simp: IPv4Pool_Get_def Let_def c_def split: if_splits)
  have st: "2 ^ 24 \<le> v4_nat st" "hi + 2 < 2 ^ 32" "v4_nat st \<le> v4_nat (p4_current p)"
    using inv by (auto simp: pool4_inv_def net4_from_def)
  then have nx: "v4_nat (v4_Next c) = v4_nat c + 1"
    using skip(2) c(1) by (intro v4_nat_Next) simp_all
  have res: "p4_reserved p = {x \<in> usable4 st hi. v4_nat x < v4_nat (p4_current p)}"
    using inv Nil by (simp add: pool4_inv_def)
  have us: "c \<in> usable4 st hi" using skip(1,2) st(3) c(1) by (simp add: usable4_def)
  have "insert c (p4_reserved p) = {x \<in> usable4 st hi. v4_nat x < v4_nat c + 1}"
    using us skip(4) by (auto simp: res less_Suc_eq)
  moreover have "c \<notin> p4_reserved p" using skip(2) by (simp add: res)
  moreover have "net4_from (p4_Net p) st hi" using inv by (simp add: pool4_inv_def)
  ultimately show ?thesis
    using us c st(3) skip(2) by (simp add: p' nx Nil pool4_inv_def)
qed

lemma pool4_Get_Inl:
  assumes inv: "pool4_inv st hi p" and get: "IPv4Pool_Get p = (Inl e, p')"
  shows "pool4_inv st hi p' \<and> p4_reserved p' = p4_reserved p \<and> usable4 st hi \<subseteq> p4_reserved p"
proof -
  define c where "c = v4_skip (p4_current p)"
  note skip = pool4_skip [OF inv c_def]
  from get have nil: "p4_available p = []" and c: "hi \<le> v4_nat c" and p': "p' = p\<lparr>p4_current := c\<rparr>"
    using skip(5) by (auto simp: IPv4Pool_Get_def Let_def c_def split: list.splits if_splits)
  have "p4_reserved p = {x \<in> usable4 st hi. v4_nat x < v4_nat (p4_current p)}"
    using inv nil by (simp add: pool4_inv_def)
  also have "\<dots> = {x \<in> usable4 st hi. v4_nat x < v4_nat c}" using skip(4) by auto
  finally have res: "p4_reserved p = {x \<in> usable4 st hi. v4_nat x < v4_nat c}" .
  moreover have "net4_from (p4_Net p) st hi" "v4_nat st \<le> v4_nat c"
    using inv skip(2) by (auto simp: pool4_inv_def)
  ultimately have "pool4_inv st hi p'"
    using skip(1,3) nil by (simp add: p' pool4_inv_def)
  moreover have "usable4 st hi \<subseteq> p4_reserved p" using c by (auto simp: res usable4_def)
  ultimately show ?thesis by (simp add: p')
qed

lemma pool4_Release:
  assumes "pool4_inv st hi p"
  shows "pool4_inv st hi (IPv4Pool_Release a p) \<and>
    p4_reserved (IPv4Pool_Release a p) = p4_reserved p - {a}"
  using assms by (auto simp: IPv4Pool_Release_def pool4_inv_def)

interpretation pool4: addr_pool IPv4Pool_Get IPv4Pool_Release p4_reserved "usable4 st hi" "pool4_inv st hi"
  for st hi
  by unfold_locales (simp, fastforce simp: pool4_inv_def, fact pool4_Get_Inr, fact pool4_Get_Inl,
      fact pool4_Release)

section \<open>The IPv6 pool keeps the contract\<close>

definition usable6 :: "ipv6 \<Rightarrow> nat \<Rightarrow> ipv6 set" where
  "usable6 st hi = {x. length x = 16 \<and> big_of_bytes st \<le> big_of_bytes x \<and> big_of_bytes x < hi}"

definition net6_from :: "ipnet \<Rightarrow> ipv6 \<Rightarrow> nat \<Rightarrow> bool" where
  "net6_from n st hi \<longleftrightarrow>
    length st = 16 \<and> 256 ^ 15 \<le> big_of_bytes st \<and> big_of_bytes st \<le> hi \<and> hi < 256 ^ 16 \<and>
    (\<forall>x. length x = 16 \<longrightarrow> big_of_bytes st \<le> big_of_bytes x \<longrightarrow>
      (net_Contains n x \<longleftrightarrow> big_of_bytes x < hi))"

definition pool6_inv :: "ipv6 \<Rightarrow> nat \<Rightarrow> ipv6_pool \<Rightarrow> bool" where
  "pool6_inv st hi p \<longleftrightarrow>
    net6_from (p6_Net p) st hi \<and> length (p6_current p) = 16 \<and>
    big_of_bytes st \<le> big_of_bytes (p6_current p) \<and> big_of_bytes (p6_current p) \<le> hi \<and>
    set (p6_available p) \<union> p6_reserved p =
      {x \<in> usable6 st hi. big_of_bytes x < big_of_bytes (p6_current p)} \<and>
    distinct (p6_available p) \<and> set (p6_available p) \<inter> p6_reserved p = {}"

lemma finite_usable6 [simp]: "finite (usable6 st hi)"
proof (rule inj_on_finite [of big_of_bytes _ "{..<hi}"])
  show "inj_on big_of_bytes (usable6 st hi)"
    by (auto simp: inj_on_def usable6_def intro: big_of_bytes_inj)
qed (auto simp: usable6_def)

lemma v6_Next_spec:
  assumes "length x = 16" "256 ^ 15 \<le> big_of_bytes x" "big_of_bytes x + 1 < 256 ^ 16"
  shows "length (v6_Next x) = 16" "big_of_bytes (v6_Next x) = big_of_bytes x + 1"
proof -
  have "go_copy x (bytes_of_big (big_of_bytes x + 1)) = bytes_of_big (big_of_bytes x + 1)"
    using assms by (intro go_copy_next [of 15]) simp_all
  then show "big_of_bytes (v6_Next x) = big_of_bytes x + 1"
    by (simp add: v6_Next_def del: Suc_eq_plus1 One_nat_def)
qed (simp add: v6_Next_def assms)

lemma pool6_Get_Inr:
  assumes inv: "pool6_inv st hi p" and get: "IPv6Pool_Get p = (Inr a, p')"
  shows "pool6_inv st hi p' \<and> a \<in> usable6 st hi \<and> a \<notin> p6_reserved p \<and>
    p6_reserved p' = insert a (p6_reserved p)"
proof (cases "p6_available p")
  case (Cons ip rest)
  then show ?thesis
    using inv get by (auto simp: IPv6Pool_Get_def pool6_inv_def)
next
  case Nil
  let ?c = "p6_current p"
  have st: "256 ^ 15 \<le> big_of_bytes st" "hi < 256 ^ 16" "length ?c = 16"
      "big_of_bytes st \<le> big_of_bytes ?c" "net_Contains (p6_Net p) ?c \<longleftrightarrow> big_of_bytes ?c < hi"
      and net: "net6_from (p6_Net p) st hi"
    using inv by (auto simp: pool6_inv_def net6_from_def)
  from get Nil have c: "big_of_bytes ?c < hi" "a = ?c"
      and p': "p' = p\<lparr>p6_current := v6_Next ?c, p6_reserved := insert ?c (p6_reserved p)\<rparr>"
    using st(5) by (auto simp: IPv6Pool_Get_def Let_def split: if_splits)
  have nx: "length (v6_Next ?c) = 16" "big_of_bytes (v6_Next ?c) = big_of_bytes ?c + 1"
    using v6_Next_spec [OF st(3)] st c(1) by simp_all
  have res: "p6_reserved p = {x \<in> usable6 st hi. big_of_bytes x < big_of_bytes ?c}"
    using inv Nil by (simp add: pool6_inv_def)
  have us: "?c \<in> usable6 st hi" using st c(1) by (simp add: usable6_def)
  have "insert ?c (p6_reserved p) = {x \<in> usable6 st hi. big_of_bytes x < big_of_bytes ?c + 1}"
    using us st(3) by (auto simp: res less_Suc_eq usable6_def intro: big_of_bytes_inj)
  moreover have "?c \<notin> p6_reserved p" by (simp add: res)
  ultimately show ?thesis
    using us c st(4) net by (simp add: p' nx Nil pool6_inv_def)
qed

lemma pool6_Get_Inl:
  assumes inv: "pool6_inv st hi p" and get: "IPv6Pool_Get p = (Inl e, p')"
  shows "pool6_inv st hi p' \<and> p6_reserved p' = p6_reserved p \<and> usable6 st hi \<subseteq> p6_reserved p"
proof -
  let ?c = "p6_current p"
  have "net_Contains (p6_Net p) ?c \<longleftrightarrow> big_of_bytes ?c < hi"
    using inv by (auto simp: pool6_inv_def net6_from_def)
  with get have nil: "p6_available p = []" and c: "hi \<le> big_of_bytes ?c" and p': "p' = p"
    by (auto simp: IPv6Pool_Get_def Let_def split: list.splits if_splits)
  have res: "p6_reserved p = {x \<in> usable6 st hi. big_of_bytes x < big_of_bytes ?c}"
    using inv nil by (simp add: pool6_inv_def)
  have "usable6 st hi \<subseteq> p6_reserved p" using c by (auto simp: res usable6_def)
  with inv p' show ?thesis by simp
qed

lemma pool6_Release:
  assumes "pool6_inv st hi p"
  shows "pool6_inv st hi (IPv6Pool_Release a p) \<and>
    p6_reserved (IPv6Pool_Release a p) = p6_reserved p - {a}"
  using assms by (auto simp: IPv6Pool_Release_def pool6_inv_def)

interpretation pool6: addr_pool IPv6Pool_Get IPv6Pool_Release p6_reserved "usable6 st hi" "pool6_inv st hi"
  for st hi
  by unfold_locales (simp, fastforce simp: pool6_inv_def, fact pool6_Get_Inr, fact pool6_Get_Inl,
      fact pool6_Release)

section \<open>Fresh pools\<close>

definition net_top :: "bytes \<Rightarrow> nat \<Rightarrow> nat" where
  "net_top ip ones =
    (let k = 2 ^ (8 * length ip - ones) in big_of_bytes ip div k * k + k)"

lemma net_top_bounds: "big_of_bytes ip < net_top ip ones"
  using dividend_less_div_times [of "2 ^ (8 * length ip - ones)" "big_of_bytes ip"]
  by (simp add: net_top_def Let_def add.commute)

lemma in_net_iff_below_top:
  assumes "big_of_bytes ip \<le> n"
  shows "n div 2 ^ (8 * length ip - ones) = big_of_bytes ip div 2 ^ (8 * length ip - ones) \<longleftrightarrow>
    n < net_top ip ones"
proof -
  let ?k = "2 ^ (8 * length ip - ones) :: nat"
  have "big_of_bytes ip div ?k * ?k \<le> n"
    using assms div_times_less_eq_dividend le_trans by blast
  then show ?thesis
    by (simp add: net_top_def Let_def div_eq_interval)
qed

lemma NewIPv4Pool_inv:
  assumes ip: "length ip = 4" "ones \<le> 32" "2 ^ 24 \<le> big_of_bytes ip" "net_top ip ones + 2 < 2 ^ 32"
  shows "pool4_inv (v4_of_list ip) (net_top ip ones) (NewIPv4Pool (ip_To16 ip) (prefix_net ip ones))"
proof -
  have st: "v4_nat (v4_of_list ip) = big_of_bytes ip" by (simp add: v4_nat_def v4_Bytes_of_list ip)
  have "ip_To4 (ip_To16 ip) = Some ip"
    using ip(1) by (simp add: ip_To4_def ip_To16_def v4InV6Prefix_def)
  then have cur: "NewIPv4FromIP (ip_To16 ip) = v4_of_list ip"
    using ip(1) by (simp add: NewIPv4FromIP_def go_copy_exact)
  have "net_Contains (prefix_net ip ones) (v4_Bytes x) \<longleftrightarrow> v4_nat x < net_top ip ones"
    if "big_of_bytes ip \<le> v4_nat x" for x
    using net_Contains_prefix [of ip ones "v4_Bytes x"] in_net_iff_below_top [OF that, of ones] ip
    by (simp add: v4_nat_def prefix_net_def)
  then show ?thesis
    using ip net_top_bounds [of ip ones] st
    by (auto simp: pool4_inv_def NewIPv4Pool_def cur net4_from_def usable4_def)
qed

lemma hd_nonzero_big: "length x = Suc n \<Longrightarrow> 256 ^ n \<le> big_of_bytes x \<Longrightarrow> hd x \<noteq> 0"
  using big_of_bytes_less [of "tl x"] by (cases x) auto

lemma NewIPv6Pool_inv:
  assumes ip: "length ip = 16" "8 \<le> ones" "ones \<le> 128" "256 ^ 15 \<le> big_of_bytes ip"
      "net_top ip ones < 256 ^ 16"
  shows "pool6_inv ip (net_top ip ones) (NewIPv6Pool (ip_To16 ip) (prefix_net ip ones))"
proof -
  have cur: "NewIPv6FromIP (ip_To16 ip) = ip"
    using ip(1) by (simp add: NewIPv6FromIP_def ip_To16_def v6_zero_def go_copy_exact)
  have hd: "hd ip \<noteq> 0" using ip(1,4) by (intro hd_nonzero_big [of _ 15]) simp_all
  then have "hd (masked ip (CIDRMask ones 16)) \<noteq> 0" "masked ip (CIDRMask ones 16) \<noteq> []"
    using ip(1,2) by (cases ip; simp add: numeral_eq_Suc)+
  then have self: "v4_or_self (masked ip (CIDRMask ones 16)) = masked ip (CIDRMask ones 16)"
    using ip(1) by (intro v4_or_self_6) simp_all
  have "net_Contains (prefix_net ip ones) x \<longleftrightarrow> big_of_bytes x < net_top ip ones"
    if x: "length x = 16" "big_of_bytes ip \<le> big_of_bytes x" for x
  proof -
    have "v4_or_self x = x"
      using x ip(4) by (intro v4_or_self_6 hd_nonzero_big [of _ 15]) simp_all
    then show ?thesis
      using net_Contains_prefix [of ip ones x] in_net_iff_below_top [OF x(2), of ones] ip x(1) self
      by (simp add: prefix_net_def)
  qed
  then show ?thesis
    using ip net_top_bounds [of ip ones]
    by (auto simp: pool6_inv_def NewIPv6Pool_def cur net6_from_def usable6_def)
qed

lemma v4_nat_surj: "n < 2 ^ 32 \<Longrightarrow> v4_nat (v4_of_list (be_bytes 4 n)) = n"
  by (simp add: v4_nat_def v4_Bytes_of_list big_of_be_bytes)

text \<open>A /24 pool that starts at host number \<open>k\<close> serves exactly the hosts \<open>k\<close> to 254.\<close>

lemma usable4_slash24:
  assumes "base mod 256 = 0" "base + 256 \<le> 2 ^ 32" "v4_nat st = base + k" "0 < k" "k < 256"
  shows "v4_nat ` usable4 st (base + 256) = {base + k ..< base + 255}"
proof -
  have ok: "\<not> v4_skipped x \<longleftrightarrow> v4_nat x < base + 255"
    if "base + k \<le> v4_nat x" "v4_nat x < base + 256" for x
  proof -
    define j where "j = v4_nat x - base"
    have j: "v4_nat x = base + j" "j < 256" "0 < j" using that assms(4) by (auto simp: j_def)
    then have "v4_nat x mod 256 = j" using assms(1) mod_add_left_eq [of base 256 j] by simp
    then show ?thesis
      using j by (auto simp: v4_skipped_def byte_eq_iff_unat v4_last_nat)
  qed
  show ?thesis
  proof (intro equalityI subsetI)
    fix n assume "n \<in> v4_nat ` usable4 st (base + 256)"
    then show "n \<in> {base + k ..< base + 255}" using ok assms(3) by (auto simp: usable4_def)
  next
    fix n assume n: "n \<in> {base + k ..< base + 255}"
    then have "v4_nat (v4_of_list (be_bytes 4 n)) = n" using assms(2) by (intro v4_nat_surj) simp
    then show "n \<in> v4_nat ` usable4 st (base + 256)"
      using ok [of "v4_of_list (be_bytes 4 n)"] n assms(3)
      by (intro image_eqI [of _ _ "v4_of_list (be_bytes 4 n)"]) (auto simp: usable4_def)
  qed
qed

lemma card_usable4_slash24:
  assumes "base mod 256 = 0" "base + 256 \<le> 2 ^ 32" "v4_nat st = base + k" "0 < k" "k < 256"
  shows "card (usable4 st (base + 256)) = 255 - k"
proof -
  have "card (v4_nat ` usable4 st (base + 256)) = card (usable4 st (base + 256))"
    by (intro card_image) (simp add: inj_on_def)
  with usable4_slash24 [OF assms] show ?thesis by simp
qed

definition IPv4CIDR :: string where
  "IPv4CIDR = ''10.8.0.2/24''"

definition IPv6CIDR :: string where
  "IPv6CIDR = ''fd86:ea04:1115::2/120''"

lemma be_bytes_2: "be_bytes 2 n = [of_nat (n div 256), of_nat (n mod 256)]"
  by (simp add: numeral_2_eq_2 byte_eq_iff_unat unat_of_nat_byte)

lemma default_v6_steps:
  "parse_ipv6_loop [253, 134, 234, 4, 17, 21] ell ''2'' = Some ([253, 134, 234, 4, 17, 21, 0, 2], ell, [])"
  "parse_ipv6_loop [253, 134, 234, 4] None ''1115::2'' = Some ([253, 134, 234, 4, 17, 21, 0, 2], Some 6, [])"
  "parse_ipv6_loop [253, 134] None ''ea04:1115::2'' = Some ([253, 134, 234, 4, 17, 21, 0, 2], Some 6, [])"
  "parse_ipv6_loop [] None ''fd86:ea04:1115::2'' = Some ([253, 134, 234, 4, 17, 21, 0, 2], Some 6, [])"
proof -
  note eval = hex_val_def Let_def be_bytes_2
  show 1: "parse_ipv6_loop [253, 134, 234, 4, 17, 21] ell ''2'' =
      Some ([253, 134, 234, 4, 17, 21, 0, 2], ell, [])" for ell
    by (subst parse_ipv6_loop.simps) (simp add: eval)
  show 2: "parse_ipv6_loop [253, 134, 234, 4] None ''1115::2'' =
      Some ([253, 134, 234, 4, 17, 21, 0, 2], Some 6, [])"
    by (subst parse_ipv6_loop.simps) (simp add: eval 1)
  show 3: "parse_ipv6_loop [253, 134] None ''ea04:1115::2'' =
      Some ([253, 134, 234, 4, 17, 21, 0, 2], Some 6, [])"
    by (subst parse_ipv6_loop.simps) (simp add: eval 2)
  show "parse_ipv6_loop [] None ''fd86:ea04:1115::2'' =
      Some ([253, 134, 234, 4, 17, 21, 0, 2], Some 6, [])"
    by (subst parse_ipv6_loop.simps) (simp add: eval 3)
qed

lemma ParseAddr_defaults:
  "ParseAddr ''10.8.0.2'' = Some [10, 8, 0, 2]"
  "ParseAddr ''fd86:ea04:1115::2'' = Some [253, 134, 234, 4, 17, 21, 0, 0, 0, 0, 0, 0, 0, 0, 0, 2]"
proof -
  show "ParseAddr ''10.8.0.2'' = Some [10, 8, 0, 2]"
    by (simp add: ParseAddr_def parse_ipv4_def parse_octet_def parse_digits_def digit_val_def)
  have "replicate 8 (0 :: byte) = [0, 0, 0, 0, 0, 0, 0, 0]" by (simp add: numeral_eq_Suc)
  then show "ParseAddr ''fd86:ea04:1115::2'' = Some [253, 134, 234, 4, 17, 21, 0, 0, 0, 0, 0, 0, 0, 0, 0, 2]"
    by (simp add: ParseAddr_def parse_ipv6_def default_v6_steps(4))
qed

lemma ParseCIDR_defaults:
  "ParseCIDR IPv4CIDR = Some (ip_To16 [10, 8, 0, 2], prefix_net [10, 8, 0, 2] 24)"
  "ParseCIDR IPv6CIDR = Some
    (ip_To16 [253, 134, 234, 4, 17, 21, 0, 0, 0, 0, 0, 0, 0, 0, 0, 2],
     prefix_net [253, 134, 234, 4, 17, 21, 0, 0, 0, 0, 0, 0, 0, 0, 0, 2] 120)"
  by (simp_all add: IPv4CIDR_def IPv6CIDR_def ParseCIDR_def ParseAddr_defaults parse_digits_def
      digit_val_def prefix_net_def ip_Mask_def ip_To16_def v4InV6Prefix_def Let_def)

abbreviation default4_base :: nat where
  "default4_base \<equiv> 168296448"

abbreviation default4_top :: nat where
  "default4_top \<equiv> 168296704"

abbreviation default6_start :: ipv6 where
  "default6_start \<equiv> [253, 134, 234, 4, 17, 21, 0, 0, 0, 0, 0, 0, 0, 0, 0, 2]"

lemma default_pool4:
  assumes "NewIPv4PoolFromCIDR IPv4CIDR = Inr p"
  shows "pool4_inv (IPv4 10 8 0 2) (default4_top) p"
proof -
  have "net_top [10, 8, 0, 2] 24 = default4_top" by (simp add: net_top_def)
  then show ?thesis
    using NewIPv4Pool_inv [of "[10, 8, 0, 2]" 24] assms
    by (simp add: NewIPv4PoolFromCIDR_def ParseCIDR_defaults v4_of_list_def)
qed

lemma default_pool6:
  assumes "NewIPv6PoolFromCIDR IPv6CIDR = Inr p"
  shows "pool6_inv default6_start (net_top default6_start 120) p"
proof -
  have "net_top default6_start 120 < 256 ^ 16" "256 ^ 15 \<le> big_of_bytes default6_start"
    by (simp_all add: net_top_def)
  then show ?thesis
    using NewIPv6Pool_inv [of default6_start 120] assms
    by (simp add: NewIPv6PoolFromCIDR_def ParseCIDR_defaults)
qed

lemma usable_default4:
  "card (usable4 (IPv4 10 8 0 2) (default4_top)) = 253"
  "x \<in> usable4 (IPv4 10 8 0 2) (default4_top) \<longleftrightarrow>
    (\<exists>d. 2 \<le> unat d \<and> unat d \<le> 254 \<and> x = IPv4 10 8 0 d)"
proof -
  have st: "v4_nat (IPv4 10 8 0 2) = default4_base + 2" by (simp add: v4_nat_IPv4)
  show "card (usable4 (IPv4 10 8 0 2) (default4_top)) = 253"
    using card_usable4_slash24 [OF _ _ st] by simp
  have img: "v4_nat ` usable4 (IPv4 10 8 0 2) (default4_top) = {default4_base + 2 ..< default4_base + 255}"
    using usable4_slash24 [OF _ _ st] by simp
  have host: "v4_nat (IPv4 10 8 0 d) = default4_base + unat d" for d by (simp add: v4_nat_IPv4)
  show "x \<in> usable4 (IPv4 10 8 0 2) (default4_top) \<longleftrightarrow>
    (\<exists>d. 2 \<le> unat d \<and> unat d \<le> 254 \<and> x = IPv4 10 8 0 d)" (is "_ = ?R")
  proof
    assume "x \<in> usable4 (IPv4 10 8 0 2) (default4_top)"
    then have n: "v4_nat x \<in> {default4_base + 2 ..< default4_base + 255}" using img by blast
    let ?d = "of_nat (v4_nat x - default4_base) :: byte"
    have d: "unat ?d = v4_nat x - default4_base" unfolding unat_of_nat_byte using n by (intro mod_less) auto
    then have "v4_nat x = v4_nat (IPv4 10 8 0 ?d)" using n by (simp add: host)
    then have "x = IPv4 10 8 0 ?d" by simp
    then show ?R using n d by (intro exI [of _ ?d]) auto
  next
    assume ?R
    then have "v4_nat x \<in> v4_nat ` usable4 (IPv4 10 8 0 2) (default4_top)"
      unfolding img by (auto simp: host)
    then show "x \<in> usable4 (IPv4 10 8 0 2) (default4_top)" by auto
  qed
qed

text \<open>C18: the default IPv4 pool serves 253 clients at a time, and no two of them share an address:
  after any sequence of calls, as long as fewer than 253 addresses are in use \<^const>\<open>IPv4Pool_Get\<close>
  returns an address that is not in use, one of 10.8.0.2 to 10.8.0.254; so it is never the
  interface's own 10.8.0.1, the network or the broadcast address.\<close>

theorem ipv4_pool_capacity:
  assumes "NewIPv4PoolFromCIDR IPv4CIDR = Inr p0"
    and "p = pool_run IPv4Pool_Get IPv4Pool_Release ops p0"
  shows "card (p4_reserved p) \<le> 253 \<and>
    (card (p4_reserved p) < 253 \<longrightarrow>
      (\<exists>a p'. IPv4Pool_Get p = (Inr a, p') \<and> a \<notin> p4_reserved p \<and>
        p4_reserved p' = insert a (p4_reserved p) \<and>
        (\<exists>d. 2 \<le> unat d \<and> unat d \<le> 254 \<and> a = IPv4 10 8 0 d)))"
proof -
  have inv: "pool4_inv (IPv4 10 8 0 2) (default4_top) p"
    unfolding assms(2) by (intro pool4.run_inv default_pool4 assms(1))
  show ?thesis
  proof (intro conjI impI)
    show "card (p4_reserved p) \<le> 253"
      using pool4.reserved_bounded [OF inv] by (simp add: usable_default4(1))
  next
    assume "card (p4_reserved p) < 253"
    then obtain a p' where get: "IPv4Pool_Get p = (Inr a, p')"
      using pool4.get_succeeds [OF inv] by (auto simp: usable_default4(1))
    with pool4_Get_Inr [OF inv get] usable_default4(2) [of a]
    show "\<exists>a p'. IPv4Pool_Get p = (Inr a, p') \<and> a \<notin> p4_reserved p \<and>
        p4_reserved p' = insert a (p4_reserved p) \<and>
        (\<exists>d. 2 \<le> unat d \<and> unat d \<le> 254 \<and> a = IPv4 10 8 0 d)"
      by (intro exI [of _ a] exI [of _ p']) simp
  qed
qed

theorem ipv4_pool_capacity_witness:
  "\<exists>p0 a p'. NewIPv4PoolFromCIDR IPv4CIDR = Inr p0 \<and>
    IPv4Pool_Get (pool_run IPv4Pool_Get IPv4Pool_Release [PGet] p0) = (Inr a, p') \<and>
    a \<notin> p4_reserved (pool_run IPv4Pool_Get IPv4Pool_Release [PGet] p0)"
proof -
  obtain p0 where p0: "NewIPv4PoolFromCIDR IPv4CIDR = Inr p0" "p4_reserved p0 = {}"
    by (simp add: NewIPv4PoolFromCIDR_def ParseCIDR_defaults NewIPv4Pool_def)
  have "card (p4_reserved (pool_run IPv4Pool_Get IPv4Pool_Release [PGet] p0)) < 253"
    using p0(2) by (simp add: pool_run_def IPv4Pool_Get_def Let_def split: list.split)
  with ipv4_pool_capacity [OF p0(1) refl, of "[PGet]"] p0(1) show ?thesis by blast
qed

section \<open>The pair of pools\<close>

lemma IPPool_Get_Inr:
  assumes "pool4_inv s4 h4 (pool_V4 p)" "pool6_inv s6 h6 (pool_V6 p)"
    and "IPPool_Get p = (Inr (v4, v6), p')"
  shows "pool4_inv s4 h4 (pool_V4 p')" "pool6_inv s6 h6 (pool_V6 p')"
    "v4 \<in> usable4 s4 h4 - p4_reserved (pool_V4 p)" "v6 \<in> usable6 s6 h6 - p6_reserved (pool_V6 p)"
    "p4_reserved (pool_V4 p') = insert v4 (p4_reserved (pool_V4 p))"
    "p6_reserved (pool_V6 p') = insert v6 (p6_reserved (pool_V6 p))"
  using assms pool4_Get_Inr [OF assms(1), of v4] pool6_Get_Inr [OF assms(2), of v6]
  by (auto simp: IPPool_Get_def split: prod.splits sum.splits)

lemma IPPool_Get_Inl:
  assumes "pool4_inv s4 h4 (pool_V4 p)" "pool6_inv s6 h6 (pool_V6 p)"
    and "IPPool_Get p = (Inl e, p')"
  shows "pool4_inv s4 h4 (pool_V4 p') \<and> pool6_inv s6 h6 (pool_V6 p') \<and>
    p4_reserved (pool_V4 p') = p4_reserved (pool_V4 p) \<and>
    p6_reserved (pool_V6 p') = p6_reserved (pool_V6 p) \<and>
    (usable4 s4 h4 \<subseteq> p4_reserved (pool_V4 p) \<or> usable6 s6 h6 \<subseteq> p6_reserved (pool_V6 p))"
  using assms pool4_Get_Inl [OF assms(1)] pool4.get_release [OF assms(1)] pool6_Get_Inl [OF assms(2)]
  by (auto simp: IPPool_Get_def split: prod.splits sum.splits)

end
