(* ===== verification/WireGuard.thy ===== *)
theory WireGuard
  imports IP_Pool Egress Vpn_Service
begin

text \<open>
  The WireGuard service: \<^verbatim>\<open>services/wireguard/wireguard.go\<close>, \<^verbatim>\<open>handshake.go\<close>, \<^verbatim>\<open>config.go\<close> and the
  key, peer and configuration types of \<^verbatim>\<open>services/wireguard/types\<close>. The \<^verbatim>\<open>wg\<close> and \<^verbatim>\<open>wg-quick\<close> tools
  are host commands; the public key of a private key and the configuration file reader are
  parameters.
\<close>

section \<open>Keys\<close>

definition KeyLength :: nat where
  "KeyLength = 32"

definition KeyFromBytes :: "bytes \<Rightarrow> bytes result" where
  "KeyFromBytes b = (if length b \<noteq> KeyLength then Inl ''invalid bytes length'' else Inr b)"

definition KeyFromString :: "string \<Rightarrow> bytes result" where
  "KeyFromString s =
    (case b64_decode s of None \<Rightarrow> Inl ''illegal base64 data'' | Some b \<Rightarrow> KeyFromBytes b)"

text \<open>The clamping of \<^verbatim>\<open>NewPrivateKey\<close>, on 32 random bytes.\<close>

definition NewPrivateKey :: "bytes \<Rightarrow> bytes" where
  "NewPrivateKey rnd =
    (let k = rnd[0 := rnd ! 0 AND 248] in k[31 := (k ! 31 AND 127) OR 64])"

definition key_String :: "bytes \<Rightarrow> string" where
  "key_String k = b64_encode k"

section \<open>Configuration\<close>

record wg_config =
  wgc_Interface :: string
  wgc_ListenPort :: "16 word"
  wgc_PrivateKey :: string
  wgc_Uplink :: string
  wgc_EnableIPv6 :: bool

definition wgc_Validate :: "wg_config \<Rightarrow> unit result" where
  "wgc_Validate c =
    first_error
      [(wgc_Interface c = [], ''interface cannot be empty''),
       (wgc_ListenPort c = 0, ''listen_port cannot be zero''),
       (wgc_PrivateKey c = [], ''private_key cannot be empty''),
       (\<not> is_ok (KeyFromString (wgc_PrivateKey c)), ''invalid private_key'')]"

definition RandomPort :: "nat \<Rightarrow> 16 word" where
  "RandomPort n = of_nat (n mod (2 ^ 16 - 2 ^ 10) + 2 ^ 10)"

definition wgc_WithDefaultValues :: "nat \<Rightarrow> bytes \<Rightarrow> wg_config \<Rightarrow> wg_config" where
  "wgc_WithDefaultValues port rnd c =
    c\<lparr>wgc_Interface := ''wg0'', wgc_ListenPort := RandomPort port, wgc_EnableIPv6 := True,
      wgc_PrivateKey := key_String (NewPrivateKey rnd)\<rparr>"

section \<open>The peer table\<close>

record wg_peer =
  wgp_Identity :: string
  wgp_IPv4 :: ipv4
  wgp_IPv6 :: ipv6

definition wgp_Empty :: "wg_peer \<Rightarrow> bool" where
  "wgp_Empty p \<longleftrightarrow> wgp_Identity p = []"

definition no_peer :: wg_peer where
  "no_peer = \<lparr>wgp_Identity = [], wgp_IPv4 = v4_zero, wgp_IPv6 = v6_zero\<rparr>"

definition wgp_Get :: "string \<Rightarrow> wg_peer list \<Rightarrow> wg_peer" where
  "wgp_Get key ps = (case find (\<lambda>p. wgp_Identity p = key) ps of None \<Rightarrow> no_peer | Some p \<Rightarrow> p)"

definition wgp_Put :: "wg_peer \<Rightarrow> wg_peer list \<Rightarrow> wg_peer list" where
  "wgp_Put v ps = (if wgp_Identity v \<in> wgp_Identity ` set ps then ps else ps @ [v])"

definition wgp_Delete :: "string \<Rightarrow> wg_peer list \<Rightarrow> wg_peer list" where
  "wgp_Delete key ps = filter (\<lambda>p. wgp_Identity p \<noteq> key) ps"

definition wgp_Len :: "wg_peer list \<Rightarrow> nat" where
  "wgp_Len ps = length ps"

section \<open>The service\<close>

record variant =
  var_Name :: string
  var_Type :: nat
  var_Tool :: string
  var_Quick :: string
  var_ConfigDir :: string

definition wg_Default :: variant where
  "wg_Default = \<lparr>var_Name = ''wireguard'', var_Type = 1, var_Tool = ''wg'', var_Quick = ''wg-quick'',
    var_ConfigDir = ''/etc/wireguard''\<rparr>"

record 'o wireguard =
  wg_variant :: variant
  wg_info :: bytes
  wg_conf :: wg_config
  wg_peers :: "wg_peer list"
  wg_pool :: ip_pool
  wg_preset :: "wg_config option"
  wg_extra :: "string list"
  wg_world :: 'o

definition empty_wg_config :: wg_config where
  "empty_wg_config = \<lparr>wgc_Interface = [], wgc_ListenPort = 0, wgc_PrivateKey = [], wgc_Uplink = [],
    wgc_EnableIPv6 = False\<rparr>"

definition NewVariant :: "variant \<Rightarrow> ip_pool \<Rightarrow> 'o \<Rightarrow> 'o wireguard" where
  "NewVariant var pool w =
    \<lparr>wg_variant = var, wg_info = replicate 34 0, wg_conf = empty_wg_config, wg_peers = [],
     wg_pool = pool, wg_preset = None, wg_extra = [], wg_world = w\<rparr>"

definition wg_WithPool :: "ip_pool \<Rightarrow> 'o wireguard \<Rightarrow> 'o wireguard" where
  "wg_WithPool pool s = s\<lparr>wg_pool := pool\<rparr>"

definition wg_WithConfig :: "wg_config \<Rightarrow> string list \<Rightarrow> 'o wireguard \<Rightarrow> 'o wireguard" where
  "wg_WithConfig c extra s = s\<lparr>wg_preset := Some c, wg_extra := extra\<rparr>"

text \<open>\<^verbatim>\<open>NewService\<close> of \<^verbatim>\<open>handshake.go\<close>: the default pools.\<close>

definition wg_NewService :: "'o \<Rightarrow> 'o wireguard result" where
  "wg_NewService w =
    rbind (NewIPv4PoolFromCIDR IPv4CIDR) (\<lambda>p4.
    rbind (NewIPv6PoolFromCIDR IPv6CIDR) (\<lambda>p6.
    Inr (NewVariant wg_Default \<lparr>pool_V4 = p4, pool_V6 = p6\<rparr> w)))"

text \<open>\<^verbatim>\<open>IPMask.Size\<close>: the number of leading ones of a prefix mask, 0 for any other mask.\<close>

definition leading_ones :: "byte \<Rightarrow> nat" where
  "leading_ones b = length (takeWhile (\<lambda>i. bit b i) (rev [0..<8]))"

fun mask_Size :: "bytes \<Rightarrow> nat" where
  "mask_Size [] = 0"
| "mask_Size (b # bs) =
    (if b = 255 then
       (if mask_Size bs = 0 \<and> (\<exists>x \<in> set bs. x \<noteq> 0) then 0 else 8 + mask_Size bs)
     else if b = NOT (drop_bit (leading_ones b) 255) \<and> (\<forall>x \<in> set bs. x = 0) then leading_ones b
     else 0)"

definition TunnelAddress :: "ip_pool \<Rightarrow> string" where
  "TunnelAddress pool =
    (let v4 = v4_Next (NewIPv4FromIP (net_IP (p4_Net (pool_V4 pool))));
         v6 = v6_Next (NewIPv6FromIP (net_IP (p6_Net (pool_V6 pool)))) in
     ip_String (v4_Bytes v4) @ ''/'' @ itoa (mask_Size (net_Mask (p4_Net (pool_V4 pool)))) @ '','' @
     ip_String v6 @ ''/'' @ itoa (mask_Size (net_Mask (p6_Net (pool_V6 pool)))))"

definition TunnelIPv4 :: "'o wireguard \<Rightarrow> bytes" where
  "TunnelIPv4 s = v4_Bytes (v4_Next (NewIPv4FromIP (net_IP (p4_Net (pool_V4 (wg_pool s))))))"

text \<open>The text \<^verbatim>\<open>configTemplate\<close> renders.\<close>

definition post_rules :: "string \<Rightarrow> string \<Rightarrow> string" where
  "post_rules action uplink =
    concat (map (\<lambda>tool.
      tool @ '' '' @ action @ '' FORWARD -i %i -j ACCEPT; '' @
      tool @ '' '' @ action @ '' FORWARD -o %i -m conntrack --ctstate RELATED,ESTABLISHED -j ACCEPT; '' @
      tool @ '' -t nat '' @ action @ '' POSTROUTING -o '' @ uplink @ '' -j MASQUERADE;'' @
      (if tool = ''iptables'' then '' '' else []))
      [''iptables'', ''ip6tables''])"

definition wg_configText :: "wg_config \<Rightarrow> string \<Rightarrow> string list \<Rightarrow> string" where
  "wg_configText c addr extra =
    join [CHR 0x0A]
      ([''[Interface]'', ''Address = '' @ addr, ''ListenPort = '' @ itoa (unat (wgc_ListenPort c)),
        ''PrivateKey = '' @ wgc_PrivateKey c] @ extra @
       [''PostUp = '' @ post_rules ''-A'' (wgc_Uplink c),
        ''PostDown = '' @ post_rules ''-D'' (wgc_Uplink c)])"

fun word_after_dev :: "string list \<Rightarrow> string option" where
  "word_after_dev (a # b # rest) = (if a = ''dev'' then Some b else word_after_dev (b # rest))"
| "word_after_dev _ = None"

definition DetectUplink :: "'o host \<Rightarrow> 'o \<Rightarrow> string \<times> 'o" where
  "DetectUplink h w =
    (case h_Run h ''ip'' [''-o'', ''-4'', ''route'', ''show'', ''default''] w of
       (Inr out, w') \<Rightarrow>
         (case word_after_dev (str_fields out) of None \<Rightarrow> ''eth0'' | Some d \<Rightarrow> d, w')
     | (Inl _, w') \<Rightarrow> (''eth0'', w'))"

text \<open>\<open>read\<close> is the configuration file reader, \<open>pub\<close> the Curve25519 public key.\<close>

definition wg_Init ::
  "'o host \<Rightarrow> (string \<Rightarrow> 'o \<Rightarrow> wg_config result) \<Rightarrow> (bytes \<Rightarrow> bytes) \<Rightarrow> string \<Rightarrow> 'o wireguard \<Rightarrow>
    unit result \<times> 'o wireguard" where
  "wg_Init h read pub home s =
    (case (case wg_preset s of Some c \<Rightarrow> Inr c | None \<Rightarrow> read (filepath_Join [home, ''wireguard.toml'']) (wg_world s)) of
       Inl e \<Rightarrow> (Inl e, s)
     | Inr c \<Rightarrow>
         (case wgc_Validate c of
            Inl e \<Rightarrow> (Inl e, s\<lparr>wg_conf := c\<rparr>)
          | Inr _ \<Rightarrow>
              let (uplink, w1) = (if wgc_Uplink c = [] then DetectUplink h (wg_world s)
                                  else (wgc_Uplink c, wg_world s));
                  c' = c\<lparr>wgc_Uplink := uplink\<rparr>;
                  text = wg_configText c' (TunnelAddress (wg_pool s)) (wg_extra s);
                  dir = var_ConfigDir (wg_variant s);
                  s1 = s\<lparr>wg_conf := c'\<rparr>
              in case h_MkdirAll h dir 448 w1 of
                   (Inl e, w2) \<Rightarrow> (Inl e, s1\<lparr>wg_world := w2\<rparr>)
                 | (Inr _, w2) \<Rightarrow>
                     (case h_WriteFile h (filepath_Join [dir, wgc_Interface c @ ''.conf'']) text 384 w2 of
                        (Inl e, w3) \<Rightarrow> (Inl e, s1\<lparr>wg_world := w3\<rparr>)
                      | (Inr _, w3) \<Rightarrow>
                          (case KeyFromString (wgc_PrivateKey c) of
                             Inl e \<Rightarrow> (Inl e, s1\<lparr>wg_world := w3\<rparr>)
                           | Inr key \<Rightarrow>
                               (ok, s1\<lparr>wg_world := w3,
                                      wg_info := be_bytes 2 (unat (wgc_ListenPort c)) @
                                        go_copy (drop 2 (wg_info s)) (pub key)\<rparr>)))))"

datatype forwarding_switch = FwSwitch (fw_path: string) (fw_required: bool)

definition forwardingSwitches :: "forwarding_switch list" where
  "forwardingSwitches =
    [FwSwitch ''/proc/sys/net/ipv4/ip_forward'' True,
     FwSwitch ''/proc/sys/net/ipv6/conf/all/forwarding'' False]"

definition ensure_switch :: "'o host \<Rightarrow> forwarding_switch \<Rightarrow> 'o \<Rightarrow> unit result \<times> 'o" where
  "ensure_switch h sw w =
    (if (case h_ReadFile h (fw_path sw) w of Inr cur \<Rightarrow> trim_space cur = ''1'' | Inl _ \<Rightarrow> False)
     then (ok, w)
     else case h_WriteFile h (fw_path sw) (''1'' @ [CHR 0x0A]) 420 w of
            (Inr _, w') \<Rightarrow> (ok, w')
          | (Inl e, w') \<Rightarrow> if fw_required sw then (Inl e, w') else (ok, w'))"

definition EnsureForwarding :: "'o host \<Rightarrow> 'o \<Rightarrow> unit result \<times> 'o" where
  "EnsureForwarding h w = for_each_err (ensure_switch h) forwardingSwitches w"

definition wgQuick :: "'o host \<Rightarrow> 'o wireguard \<Rightarrow> string \<Rightarrow> 'o \<Rightarrow> unit result \<times> 'o" where
  "wgQuick h s action w =
    run_cmd h (var_Quick (wg_variant s)) [action, wgc_Interface (wg_conf s)] w"

text \<open>\<^verbatim>\<open>Start\<close>: the deferred clean-up of the egress rules runs on every error after they went in.\<close>

definition wg_Start_world :: "'o host \<Rightarrow> egress_policy \<Rightarrow> 'o wireguard \<Rightarrow> 'o \<Rightarrow> unit result \<times> 'o" where
  "wg_Start_world h pol s w =
    (let iface = wgc_Interface (wg_conf s) in
     case EnsureForwarding h w of
       (Inl e, w1) \<Rightarrow> (Inl e, w1)
     | (Inr _, w1) \<Rightarrow>
         (case tunnel_egress_Up h pol iface w1 of
            (Inl e, w2) \<Rightarrow> (Inl e, tunnel_egress_Down h iface w2)
          | (Inr _, w2) \<Rightarrow>
              (case wgQuick h s ''up'' w2 of
                 (Inr _, w3) \<Rightarrow> (ok, w3)
               | (Inl e, w3) \<Rightarrow>
                   if \<not> h_Stat h (filepath_Join [''/sys/class/net'', iface]) w3
                   then (Inl e, tunnel_egress_Down h iface w3)
                   else
                     (case wgQuick h s ''up'' (snd (wgQuick h s ''down'' w3)) of
                        (Inr _, w5) \<Rightarrow> (ok, w5)
                      | (Inl e', w5) \<Rightarrow> (Inl e', tunnel_egress_Down h iface w5)))))"

definition wg_Start :: "'o host \<Rightarrow> egress_policy \<Rightarrow> 'o wireguard \<Rightarrow> unit result \<times> 'o wireguard" where
  "wg_Start h pol s =
    (case wg_Start_world h pol s (wg_world s) of (r, w) \<Rightarrow> (r, s\<lparr>wg_world := w\<rparr>))"

definition wg_Stop :: "'o host \<Rightarrow> 'o wireguard \<Rightarrow> unit result \<times> 'o wireguard" where
  "wg_Stop h s =
    (case wgQuick h s ''down'' (wg_world s) of
       (r, w) \<Rightarrow> (r, s\<lparr>wg_world := tunnel_egress_Down h (wgc_Interface (wg_conf s)) w\<rparr>))"

definition wg_set_args :: "'o wireguard \<Rightarrow> string \<Rightarrow> string list" where
  "wg_set_args s rest = split_on (CHR '' '') (''set '' @ wgc_Interface (wg_conf s) @ '' peer '' @ rest)"

definition wg_AddPeer :: "'o host \<Rightarrow> bytes \<Rightarrow> 'o wireguard \<Rightarrow> bytes result \<times> 'o wireguard" where
  "wg_AddPeer h d s =
    (let identity = b64_encode d in
     case IPPool_Get (wg_pool s) of
       (Inl e, p) \<Rightarrow> (Inl e, s\<lparr>wg_pool := p\<rparr>)
     | (Inr (v4, v6), p) \<Rightarrow>
         let en = wgc_EnableIPv6 (wg_conf s);
             p1 = (if en then p else p\<lparr>pool_V6 := IPv6Pool_Release v6 (pool_V6 p)\<rparr>);
             v6' = (if en then v6 else v6_zero);
             allowed = ip_String (v4_Bytes v4) @ ''/32'' @
               (if en then '','' @ ip_String v6 @ ''/128'' else [])
         in case run_cmd h (var_Tool (wg_variant s))
                  (wg_set_args s (identity @ '' allowed-ips '' @ allowed)) (wg_world s) of
              (Inl e, w) \<Rightarrow> (Inl e, s\<lparr>wg_pool := IPPool_Release v4 v6' p1, wg_world := w\<rparr>)
            | (Inr _, w) \<Rightarrow>
                (Inr (v4_Bytes v4 @ v6'),
                 s\<lparr>wg_pool := p1, wg_world := w,
                   wg_peers := wgp_Put \<lparr>wgp_Identity = identity, wgp_IPv4 = v4, wgp_IPv6 = v6'\<rparr>
                     (wg_peers s)\<rparr>))"

definition wg_HasPeer :: "bytes \<Rightarrow> 'o wireguard \<Rightarrow> bool" where
  "wg_HasPeer d s \<longleftrightarrow> \<not> wgp_Empty (wgp_Get (b64_encode d) (wg_peers s))"

definition wg_RemovePeer :: "'o host \<Rightarrow> bytes \<Rightarrow> 'o wireguard \<Rightarrow> unit result \<times> 'o wireguard" where
  "wg_RemovePeer h d s =
    (let identity = b64_encode d in
     case run_cmd h (var_Tool (wg_variant s)) (wg_set_args s (identity @ '' remove'')) (wg_world s) of
       (Inl e, w) \<Rightarrow> (Inl e, s\<lparr>wg_world := w\<rparr>)
     | (Inr _, w) \<Rightarrow>
         let v = wgp_Get identity (wg_peers s) in
         if wgp_Empty v then (ok, s\<lparr>wg_world := w\<rparr>)
         else (ok, s\<lparr>wg_world := w, wg_peers := wgp_Delete (wgp_Identity v) (wg_peers s),
                     wg_pool := IPPool_Release (wgp_IPv4 v) (wgp_IPv6 v) (wg_pool s)\<rparr>))"

text \<open>The output of \<^verbatim>\<open>wg show <interface> transfer\<close>, line by line.\<close>

fun parse_transfer :: "string list \<Rightarrow> peer list result" where
  "parse_transfer [] = Inr []"
| "parse_transfer (line # ls) =
    (case split_on (CHR 0x09) line of
       [key, up, down] \<Rightarrow>
         (case (parse_int64 up, parse_int64 down) of
            (Some u, Some dn) \<Rightarrow>
              rbind (parse_transfer ls)
                (\<lambda>ps. Inr (\<lparr>peer_Key = key, peer_Upload = u, peer_Download = dn\<rparr> # ps))
          | _ \<Rightarrow> Inl ''invalid syntax'')
     | _ \<Rightarrow> parse_transfer ls)"

definition wg_Peers :: "'o host \<Rightarrow> 'o wireguard \<Rightarrow> peer list result \<times> 'o wireguard" where
  "wg_Peers h s =
    (case h_Run h (var_Tool (wg_variant s))
            (split_on (CHR '' '') (''show '' @ wgc_Interface (wg_conf s) @ '' transfer'')) (wg_world s) of
       (Inl e, w) \<Rightarrow> (Inl e, s\<lparr>wg_world := w\<rparr>)
     | (Inr output, w) \<Rightarrow> (parse_transfer (split_on (CHR 0x0A) output), s\<lparr>wg_world := w\<rparr>))"

definition wg_PeerCount :: "'o wireguard \<Rightarrow> nat" where
  "wg_PeerCount s = wgp_Len (wg_peers s)"

definition wg_service :: "'o host \<Rightarrow> 'o wireguard service" where
  "wg_service h = \<lparr>svc_AddPeer = wg_AddPeer h, svc_HasPeer = wg_HasPeer, svc_RemovePeer = wg_RemovePeer h,
    svc_Peers = wg_Peers h, svc_PeerCount = wg_PeerCount\<rparr>"

definition peerAddrs :: "bytes \<Rightarrow> string list result" where
  "peerAddrs r =
    (if length r \<noteq> 4 + 16 then Inl ''unexpected wireguard peer result length''
     else Inr ((ip_String (take 4 r) @ ''/32'') #
       (if ip_Equal (drop 4 r) (replicate 16 0) then [] else [ip_String (drop 4 r) @ ''/128''])))"

record wg_payload =
  wgh_Addrs :: "string list"
  wgh_Port :: nat
  wgh_PublicKey :: string

definition wg_ListenPort :: "'o wireguard \<Rightarrow> nat" where
  "wg_ListenPort s = big_of_bytes (take 2 (wg_info s))"

definition wg_PublicKey :: "'o wireguard \<Rightarrow> string" where
  "wg_PublicKey s = b64_encode (drop 2 (wg_info s))"

definition wg_HandshakePayload :: "bytes \<Rightarrow> 'o wireguard \<Rightarrow> wg_payload result" where
  "wg_HandshakePayload r s =
    rbind (peerAddrs r)
      (\<lambda>addrs. Inr \<lparr>wgh_Addrs = addrs, wgh_Port = wg_ListenPort s, wgh_PublicKey = wg_PublicKey s\<rparr>)"

section \<open>The invariant\<close>

text \<open>The geometry of the two pools: where each starts and ends.\<close>

record geom =
  g_st4 :: ipv4
  g_hi4 :: nat
  g_st6 :: ipv6
  g_hi6 :: nat

abbreviation pools_ok :: "geom \<Rightarrow> ip_pool \<Rightarrow> bool" where
  "pools_ok g p \<equiv> pool4_inv (g_st4 g) (g_hi4 g) (pool_V4 p) \<and> pool6_inv (g_st6 g) (g_hi6 g) (pool_V6 p)"

abbreviation used4 :: "'o wireguard \<Rightarrow> ipv4 set" where
  "used4 s \<equiv> p4_reserved (pool_V4 (wg_pool s))"

abbreviation used6 :: "'o wireguard \<Rightarrow> ipv6 set" where
  "used6 s \<equiv> p6_reserved (pool_V6 (wg_pool s))"

definition peers6 :: "wg_peer list \<Rightarrow> ipv6 list" where
  "peers6 ps = filter (\<lambda>a. a \<noteq> v6_zero) (map wgp_IPv6 ps)"

text \<open>No two peers share an identity or an address, and every peer's addresses are reserved.\<close>

definition wg_inv_at :: "geom \<Rightarrow> 'o wireguard \<Rightarrow> bool" where
  "wg_inv_at g s \<longleftrightarrow>
    pools_ok g (wg_pool s) \<and>
    distinct (map wgp_Identity (wg_peers s)) \<and>
    distinct (map wgp_IPv4 (wg_peers s)) \<and> wgp_IPv4 ` set (wg_peers s) \<subseteq> used4 s \<and>
    distinct (peers6 (wg_peers s)) \<and> set (peers6 (wg_peers s)) \<subseteq> used6 s"

definition wg_inv :: "'o wireguard \<Rightarrow> bool" where
  "wg_inv s \<longleftrightarrow> (\<exists>g. wg_inv_at g s)"

text \<open>Nothing is reserved but for a peer.\<close>

definition wg_tight :: "'o wireguard \<Rightarrow> bool" where
  "wg_tight s \<longleftrightarrow> used4 s = wgp_IPv4 ` set (wg_peers s) \<and> used6 s = set (peers6 (wg_peers s))"

definition wg_keys :: "'o wireguard \<Rightarrow> string set" where
  "wg_keys s = wgp_Identity ` set (wg_peers s)"

lemma peers6_simps [simp]:
  "peers6 [] = []" "peers6 (ps @ qs) = peers6 ps @ peers6 qs"
  "peers6 [p] = (if wgp_IPv6 p = v6_zero then [] else [wgp_IPv6 p])"
  by (simp_all add: peers6_def)

lemma set_peers6: "set (peers6 ps) = wgp_IPv6 ` set ps - {v6_zero}"
  by (auto simp: peers6_def)

lemma big_of_zeros: "big_of_bytes (replicate n 0) = 0"
  by (induction n) simp_all

lemma v6_zero_not_usable: "pool6_inv st hi p \<Longrightarrow> v6_zero \<notin> usable6 st hi"
  by (auto simp: pool6_inv_def net6_from_def usable6_def v6_zero_def big_of_zeros)

lemma wgp_Get_eq:
  "wgp_Get k ps = no_peer \<and> k \<notin> wgp_Identity ` set ps \<or>
   wgp_Get k ps \<in> set ps \<and> wgp_Identity (wgp_Get k ps) = k"
proof (cases "find (\<lambda>p. wgp_Identity p = k) ps")
  case None
  with find_None_iff [THEN iffD1, OF None] show ?thesis by (auto simp: wgp_Get_def)
next
  case (Some p)
  with find_Some_iff [THEN iffD1, OF Some] show ?thesis by (auto simp: wgp_Get_def)
qed

lemma wg_HasPeer_keys: "d \<noteq> [] \<Longrightarrow> wg_HasPeer d s \<longleftrightarrow> session_key d \<in> wg_keys s"
  using wgp_Get_eq [of "b64_encode d" "wg_peers s"]
  by (force simp: wg_HasPeer_def wg_keys_def wgp_Empty_def no_peer_def)

lemma wg_PeerCount_keys: "wg_inv_at g s \<Longrightarrow> wg_PeerCount s = card (wg_keys s)"
  by (simp add: wg_inv_at_def wg_PeerCount_def wgp_Len_def wg_keys_def)
    (metis distinct_card length_map list.set_map)

lemma RandomPort_nonzero: "RandomPort n \<noteq> 0"
proof -
  have "n mod (2 ^ 16 - 2 ^ 10) + 2 ^ 10 < 2 ^ 16"
    using mod_less_divisor [of "2 ^ 16 - 2 ^ 10" n] by simp
  then have "unat (RandomPort n) = n mod (2 ^ 16 - 2 ^ 10) + 2 ^ 10"
    unfolding RandomPort_def by (subst unat_of_nat) simp
  then show ?thesis by (metis add_is_0 power_not_zero unat_0 zero_neq_numeral)
qed

section \<open>Adding a peer\<close>

lemma wg_AddPeer_Inr:
  assumes inv: "wg_inv_at g s" and add: "wg_AddPeer h d s = (Inr r, s')"
  shows "wg_inv_at g s' \<and> wg_keys s' = insert (session_key d) (wg_keys s) \<and>
    (\<exists>v4 v6. r = v4_Bytes v4 @ v6 \<and> v4 \<in> usable4 (g_st4 g) (g_hi4 g) - used4 s \<and> length v6 = 16 \<and>
      (if wgc_EnableIPv6 (wg_conf s) then v6 \<in> usable6 (g_st6 g) (g_hi6 g) - used6 s else v6 = v6_zero)) \<and>
    (wg_tight s \<longrightarrow> session_key d \<notin> wg_keys s \<longrightarrow> wg_tight s')"
proof -
  let ?en = "wgc_EnableIPv6 (wg_conf s)"
  obtain v4 v6 p where get: "IPPool_Get (wg_pool s) = (Inr (v4, v6), p)"
    using add by (cases "IPPool_Get (wg_pool s)"; cases "fst (IPPool_Get (wg_pool s))")
      (auto simp: wg_AddPeer_def Let_def)
  define v6' where "v6' = (if ?en then v6 else v6_zero)"
  define p1 where "p1 = (if ?en then p else p\<lparr>pool_V6 := IPv6Pool_Release v6 (pool_V6 p)\<rparr>)"
  define pr where "pr = \<lparr>wgp_Identity = b64_encode d, wgp_IPv4 = v4, wgp_IPv6 = v6'\<rparr>"
  from add get obtain w where r: "r = v4_Bytes v4 @ v6'"
      and s': "s' = s\<lparr>wg_pool := p1, wg_world := w, wg_peers := wgp_Put pr (wg_peers s)\<rparr>"
    by (auto simp: wg_AddPeer_def Let_def v6'_def p1_def pr_def split: prod.splits sum.splits)
  have pools: "pool4_inv (g_st4 g) (g_hi4 g) (pool_V4 (wg_pool s))"
      "pool6_inv (g_st6 g) (g_hi6 g) (pool_V6 (wg_pool s))"
    using inv by (simp_all add: wg_inv_at_def)
  note got = IPPool_Get_Inr [OF pools get]
  have v6: "v6 \<noteq> v6_zero" "length v6 = 16"
    using got(4) v6_zero_not_usable [OF pools(2)] by (auto simp: usable6_def)
  have p1: "pools_ok g p1" "p4_reserved (pool_V4 p1) = insert v4 (used4 s)"
      "p6_reserved (pool_V6 p1) = (if ?en then insert v6 (used6 s) else used6 s)"
    using got pool6_Release [OF got(2), of v6] by (auto simp: p1_def)
  have "wg_inv_at g s'"
    using inv p1 got(3,4) v6(1)
    by (auto simp: s' wg_inv_at_def wgp_Put_def pr_def v6'_def)
  moreover have "wg_keys s' = insert (session_key d) (wg_keys s)"
    by (auto simp: s' wg_keys_def wgp_Put_def pr_def)
  moreover have "wg_tight s \<longrightarrow> session_key d \<notin> wg_keys s \<longrightarrow> wg_tight s'"
    using p1(2,3) v6(1) by (auto simp: s' wg_tight_def wgp_Put_def pr_def v6'_def wg_keys_def)
  moreover have "length v6' = 16" "if ?en then v6' \<in> usable6 (g_st6 g) (g_hi6 g) - used6 s else v6' = v6_zero"
    using v6(2) got(4) by (simp_all add: v6'_def v6_zero_def)
  ultimately show ?thesis using r got(3) by blast
qed

lemma wg_AddPeer_Inl:
  assumes inv: "wg_inv_at g s" and add: "wg_AddPeer h d s = (Inl e, s')"
  shows "wg_inv_at g s' \<and> wg_peers s' = wg_peers s \<and> used4 s' = used4 s \<and> used6 s' = used6 s \<and>
    (usable4 (g_st4 g) (g_hi4 g) \<subseteq> used4 s \<or> usable6 (g_st6 g) (g_hi6 g) \<subseteq> used6 s \<or>
     (\<exists>args w w'. run_cmd h (var_Tool (wg_variant s)) args w = (Inl e, w')))"
proof -
  let ?en = "wgc_EnableIPv6 (wg_conf s)"
  have pools: "pool4_inv (g_st4 g) (g_hi4 g) (pool_V4 (wg_pool s))"
      "pool6_inv (g_st6 g) (g_hi6 g) (pool_V6 (wg_pool s))"
    using inv by (simp_all add: wg_inv_at_def)
  obtain r p where get: "IPPool_Get (wg_pool s) = (r, p)" by fastforce
  show ?thesis
  proof (cases r)
    case (Inl e')
    with add get have "s' = s\<lparr>wg_pool := p\<rparr>" by (simp add: wg_AddPeer_def Let_def)
    with IPPool_Get_Inl [OF pools get [unfolded Inl]] inv show ?thesis by (auto simp: wg_inv_at_def)
  next
    case (Inr v)
    obtain v4 v6 where v: "v = (v4, v6)" by fastforce
    note got = IPPool_Get_Inr [OF pools get [unfolded Inr v]]
    define v6' where "v6' = (if ?en then v6 else v6_zero)"
    define p1 where "p1 = (if ?en then p else p\<lparr>pool_V6 := IPv6Pool_Release v6 (pool_V6 p)\<rparr>)"
    from add get Inr v obtain args w w' where
        tool: "run_cmd h (var_Tool (wg_variant s)) args w = (Inl e, w')"
        and s': "s' = s\<lparr>wg_pool := IPPool_Release v4 v6' p1, wg_world := w'\<rparr>"
      by (auto simp: wg_AddPeer_def Let_def v6'_def p1_def split: prod.splits sum.splits)
    have p1: "pool4_inv (g_st4 g) (g_hi4 g) (pool_V4 p1)" "pool6_inv (g_st6 g) (g_hi6 g) (pool_V6 p1)"
        "p4_reserved (pool_V4 p1) = insert v4 (used4 s)"
        "p6_reserved (pool_V6 p1) = (if ?en then insert v6 (used6 s) else used6 s)"
      using got pool6_Release [OF got(2), of v6] by (auto simp: p1_def)
    have "v6_zero \<notin> used6 s"
      using v6_zero_not_usable [OF pools(2)] pool6.reserved_usable [OF pools(2)] by blast
    then have "pools_ok g (wg_pool s')" "used4 s' = used4 s" "used6 s' = used6 s"
      using pool4_Release [OF p1(1), of v4] pool6_Release [OF p1(2), of v6'] p1(3,4) got(3,4)
      by (auto simp: s' IPPool_Release_def v6'_def)
    moreover have "wg_peers s' = wg_peers s" by (simp add: s')
    ultimately show ?thesis using inv tool by (auto simp: wg_inv_at_def)
  qed
qed

section \<open>Removing a peer\<close>

lemma distinct_filter_map_inj:
  "distinct (filter P (map f ps)) \<Longrightarrow> p \<in> set ps \<Longrightarrow> q \<in> set ps \<Longrightarrow> f p = f q \<Longrightarrow> P (f p) \<Longrightarrow> p = q"
proof (induction ps)
  case (Cons a ps)
  have "x \<notin> set ps" if "f x = f a" "P (f x)" for x
    using Cons.prems(1) that by (auto simp: image_iff)
  with Cons show ?case by (auto split: if_splits)
qed simp

lemma distinct_filter_map_filter:
  "distinct (filter P (map f ps)) \<Longrightarrow> distinct (filter P (map f (filter Q ps)))"
  by (induction ps) (auto split: if_splits)

lemma wg_RemovePeer_law:
  assumes inv: "wg_inv_at g s" and rem: "wg_RemovePeer h d s = (r, s')"
  shows "wg_inv_at g s' \<and> wg_keys s - {session_key d} \<subseteq> wg_keys s' \<and> wg_keys s' \<subseteq> wg_keys s \<and>
    (d \<noteq> [] \<longrightarrow> r = ok \<longrightarrow> wg_keys s' = wg_keys s - {session_key d}) \<and> (wg_tight s \<longrightarrow> wg_tight s') \<and>
    wg_conf s' = wg_conf s"
proof -
  define v where "v = wgp_Get (b64_encode d) (wg_peers s)"
  obtain r0 w where tool: "run_cmd h (var_Tool (wg_variant s))
      (wg_set_args s (b64_encode d @ '' remove'')) (wg_world s) = (r0, w)" by fastforce
  show ?thesis
  proof (cases "is_ok r0 \<and> \<not> wgp_Empty v")
    case False
    have "d \<noteq> [] \<Longrightarrow> wgp_Empty v \<Longrightarrow> session_key d \<notin> wg_keys s"
      using wg_HasPeer_keys [of d s] by (simp add: v_def wg_HasPeer_def)
    moreover have "s' = s\<lparr>wg_world := w\<rparr>" "r = ok \<longrightarrow> wgp_Empty v"
      using rem tool False by (auto simp: wg_RemovePeer_def Let_def v_def split: sum.splits)
    ultimately show ?thesis using inv by (auto simp: wg_inv_at_def wg_keys_def wg_tight_def)
  next
    case True
    then have v: "v \<in> set (wg_peers s)" "wgp_Identity v = b64_encode d"
      using wgp_Get_eq [of "b64_encode d" "wg_peers s"] by (auto simp: v_def no_peer_def wgp_Empty_def)
    have s': "s' = s\<lparr>wg_world := w, wg_peers := wgp_Delete (wgp_Identity v) (wg_peers s),
        wg_pool := IPPool_Release (wgp_IPv4 v) (wgp_IPv6 v) (wg_pool s)\<rparr>"
      using rem tool True by (auto simp: wg_RemovePeer_def Let_def v_def split: sum.splits)
    have d: "distinct (map wgp_Identity (wg_peers s))" "distinct (map wgp_IPv4 (wg_peers s))"
        "distinct (peers6 (wg_peers s))"
      using inv by (simp_all add: wg_inv_at_def)
    have eq: "p = v" if "p \<in> set (wg_peers s)"
      "wgp_Identity p = wgp_Identity v \<or> wgp_IPv4 p = wgp_IPv4 v \<or> wgp_IPv6 p = wgp_IPv6 v \<and> wgp_IPv6 p \<noteq> v6_zero" for p
      using that v(1) d distinct_filter_map_inj [OF d(3) [unfolded peers6_def], of p v]
      by (auto dest: distinct_map_unique)
    let ?ps = "wgp_Delete (wgp_Identity v) (wg_peers s)"
    have ids: "wgp_Identity ` set ?ps = wgp_Identity ` set (wg_peers s) - {wgp_Identity v}"
      by (auto simp: wgp_Delete_def)
    have v4: "wgp_IPv4 ` set ?ps = wgp_IPv4 ` set (wg_peers s) - {wgp_IPv4 v}"
      using eq by (auto simp: wgp_Delete_def)
    have v6: "set (peers6 ?ps) = set (peers6 (wg_peers s)) - {wgp_IPv6 v}"
      using eq by (auto simp: wgp_Delete_def set_peers6)
    have dist: "distinct (map wgp_Identity ?ps)" "distinct (map wgp_IPv4 ?ps)" "distinct (peers6 ?ps)"
      using d distinct_filter_map_filter [OF d(3) [unfolded peers6_def]]
      by (simp_all add: wgp_Delete_def distinct_map_filter' peers6_def)
    have pools: "pools_ok g (wg_pool s')" "used4 s' = used4 s - {wgp_IPv4 v}" "used6 s' = used6 s - {wgp_IPv6 v}"
      using inv pool4_Release pool6_Release by (auto simp: s' IPPool_Release_def wg_inv_at_def)
    have "wg_inv_at g s'"
      using inv dist v4 v6 pools by (auto simp: wg_inv_at_def s')
    moreover have "wg_keys s' = wg_keys s - {session_key d}"
      using ids v(2) by (simp add: wg_keys_def s')
    moreover have "wg_tight s \<longrightarrow> wg_tight s'"
      using v4 v6 pools(2,3) by (simp add: wg_tight_def s')
    ultimately show ?thesis by (auto simp: s')
  qed
qed

lemma wg_Peers_law: "wg_Peers h s = (r, s') \<Longrightarrow> \<exists>w. s' = s\<lparr>wg_world := w\<rparr>"
  by (auto simp: wg_Peers_def split: prod.splits sum.splits)

lemma wg_inv_world [simp]: "wg_inv_at g (s\<lparr>wg_world := w\<rparr>) = wg_inv_at g s"
  by (simp add: wg_inv_at_def)

lemma wg_keys_world [simp]: "wg_keys (s\<lparr>wg_world := w\<rparr>) = wg_keys s"
  by (simp add: wg_keys_def)

interpretation wg: vpn_service "wg_service h" wg_keys wg_inv True
  for h
proof unfold_locales
  fix s s' :: "'a wireguard" and d r b e r'
  assume "wg_inv s"
  then obtain g where g: "wg_inv_at g s" by (auto simp: wg_inv_def)
  show "finite (wg_keys s)" by (simp add: wg_keys_def)
  show "svc_PeerCount (wg_service h) s = card (wg_keys s)"
    by (simp add: wg_service_def wg_PeerCount_keys [OF g])
  show "svc_HasPeer (wg_service h) d s = (session_key d \<in> wg_keys s)" if "d \<noteq> []"
    using wg_HasPeer_keys [OF that] by (simp add: wg_service_def)
  show "wg_inv s' \<and> wg_keys s' = insert (session_key d) (wg_keys s)"
    if "svc_AddPeer (wg_service h) d s = (Inr b, s')"
    using wg_AddPeer_Inr [OF g, of h d b s'] that by (auto simp: wg_service_def wg_inv_def)
  show "wg_inv s' \<and> wg_keys s' = wg_keys s" if "svc_AddPeer (wg_service h) d s = (Inl e, s')"
    using wg_AddPeer_Inl [OF g, of h d e s'] that by (auto simp: wg_service_def wg_inv_def wg_keys_def)
  show "wg_keys s' = wg_keys s - {session_key d}"
    if "d \<noteq> []" "svc_RemovePeer (wg_service h) d s = (ok, s')"
    using wg_RemovePeer_law [OF g, of h d ok s'] that by (simp add: wg_service_def)
  show "wg_inv s' \<and> wg_keys s - {session_key d} \<subseteq> wg_keys s' \<and> wg_keys s' \<subseteq> wg_keys s"
    if "svc_RemovePeer (wg_service h) d s = (r, s')"
    using wg_RemovePeer_law [OF g, of h d r s'] that by (auto simp: wg_service_def wg_inv_def)
  show "wg_inv s' \<and> wg_keys s' = wg_keys s" if "svc_Peers (wg_service h) s = (r', s')"
    using wg_Peers_law [of h s r' s'] that g by (auto simp: wg_service_def wg_inv_def)
qed

section \<open>Reachable states of the service\<close>

text \<open>The states a node's WireGuard service goes through: started from \<^const>\<open>wg_NewService\<close> and
  \<^const>\<open>wg_Init\<close>, then any sequence of peer operations. \<open>P\<close> restricts which peers are added.\<close>

inductive wg_reach :: "'o host \<Rightarrow> (bytes \<Rightarrow> 'o wireguard \<Rightarrow> bool) \<Rightarrow> 'o wireguard \<Rightarrow> bool"
  for h :: "'o host" and P :: "bytes \<Rightarrow> 'o wireguard \<Rightarrow> bool" where
  wg_start: "wg_NewService w = Inr s0 \<Longrightarrow> wg_Init h read pub home s0 = (ok, s) \<Longrightarrow> wg_reach h P s"
| wg_add: "wg_reach h P s \<Longrightarrow> P d s \<Longrightarrow> wg_AddPeer h d s = (r, s') \<Longrightarrow> wg_reach h P s'"
| wg_remove: "wg_reach h P s \<Longrightarrow> wg_RemovePeer h d s = (u, s') \<Longrightarrow> wg_reach h P s'"
| wg_list: "wg_reach h P s \<Longrightarrow> wg_Peers h s = (l, s') \<Longrightarrow> wg_reach h P s'"

definition default_geom :: geom where
  "default_geom = \<lparr>g_st4 = IPv4 10 8 0 2, g_hi4 = default4_top, g_st6 = default6_start,
    g_hi6 = net_top default6_start 120\<rparr>"

lemma wg_Init_fields:
  assumes "wg_Init h read pub home s = (r, s')"
  shows "wg_peers s' = wg_peers s \<and> wg_pool s' = wg_pool s \<and> wg_variant s' = wg_variant s"
  using assms by (auto simp: wg_Init_def Let_def split: prod.splits sum.splits option.splits)

lemma wg_NewService_inv:
  assumes "wg_NewService w = Inr s"
  shows "wg_inv_at default_geom s" "wg_peers s = []" "wg_tight s" "wg_variant s = wg_Default"
    "p4_Net (pool_V4 (wg_pool s)) = prefix_net [10, 8, 0, 2] 24"
proof -
  obtain p4 p6 where p: "NewIPv4PoolFromCIDR IPv4CIDR = Inr p4" "NewIPv6PoolFromCIDR IPv6CIDR = Inr p6"
      and s: "s = NewVariant wg_Default \<lparr>pool_V4 = p4, pool_V6 = p6\<rparr> w"
    using assms by (auto simp: wg_NewService_def rbind_eq_Inr_iff)
  have "p4_reserved p4 = {}" "p6_reserved p6 = {}" "p4_Net p4 = prefix_net [10, 8, 0, 2] 24"
    using p by (auto simp: NewIPv4PoolFromCIDR_def NewIPv6PoolFromCIDR_def ParseCIDR_defaults
        NewIPv4Pool_def NewIPv6Pool_def)
  then show "wg_inv_at default_geom s" "wg_peers s = []" "wg_tight s" "wg_variant s = wg_Default"
    "p4_Net (pool_V4 (wg_pool s)) = prefix_net [10, 8, 0, 2] 24"
    using default_pool4 [OF p(1)] default_pool6 [OF p(2)]
    by (simp_all add: s NewVariant_def wg_inv_at_def default_geom_def wg_tight_def)
qed

lemma IPv4Pool_Release_Net [simp]: "p4_Net (IPv4Pool_Release a p) = p4_Net p"
  by (auto simp: IPv4Pool_Release_def)

lemma IPv4Pool_Get_Net: "IPv4Pool_Get p = (r, p') \<Longrightarrow> p4_Net p' = p4_Net p"
  by (auto simp: IPv4Pool_Get_def Let_def split: list.splits if_splits)

lemma IPPool_Get_Net: "IPPool_Get p = (r, p') \<Longrightarrow> p4_Net (pool_V4 p') = p4_Net (pool_V4 p)"
  by (auto simp: IPPool_Get_def split: prod.splits sum.splits dest: IPv4Pool_Get_Net)

lemma wg_AddPeer_fields:
  assumes "wg_AddPeer h d s = (r, s')"
  shows "p4_Net (pool_V4 (wg_pool s')) = p4_Net (pool_V4 (wg_pool s)) \<and> wg_variant s' = wg_variant s"
  using assms
  by (auto simp: wg_AddPeer_def Let_def IPPool_Release_def split: prod.splits sum.splits
      dest: IPPool_Get_Net)

lemma wg_RemovePeer_fields:
  assumes "wg_RemovePeer h d s = (r, s')"
  shows "p4_Net (pool_V4 (wg_pool s')) = p4_Net (pool_V4 (wg_pool s)) \<and> wg_variant s' = wg_variant s"
  using assms
  by (auto simp: wg_RemovePeer_def Let_def IPPool_Release_def split: prod.splits sum.splits if_splits)

lemma wg_reach_inv:
  assumes "wg_reach h P s"
  shows "wg_inv_at default_geom s \<and> p4_Net (pool_V4 (wg_pool s)) = prefix_net [10, 8, 0, 2] 24 \<and>
    wg_variant s = wg_Default"
  using assms
proof induction
  case (wg_start w s0 read pub home s)
  then show ?case
    using wg_NewService_inv [OF wg_start(1)] wg_Init_fields [OF wg_start(2)]
    by (simp add: wg_inv_at_def)
next
  case (wg_add s d r s')
  then show ?case
    using wg_AddPeer_Inr [of default_geom s h d _ s'] wg_AddPeer_Inl [of default_geom s h d _ s']
      wg_AddPeer_fields [of h d s r s']
    by (cases r) auto
next
  case (wg_remove s d u s')
  then show ?case
    using wg_RemovePeer_law [of default_geom s h d u s'] wg_RemovePeer_fields [of h d s u s'] by auto
next
  case (wg_list s l s')
  then show ?case using wg_Peers_law [of h s l s'] by auto
qed

text \<open>C2: WireGuard clients are isolated by address: in every reachable state of the service no two
  peers share an identity or a tunnel IPv4 address, every address is one of 10.8.0.2 to
  10.8.0.254, and none is the node's own tunnel address 10.8.0.1.\<close>

theorem wg_addresses_distinct:
  assumes "wg_reach h P s"
  shows "distinct (map wgp_Identity (wg_peers s)) \<and> distinct (map wgp_IPv4 (wg_peers s)) \<and>
    (\<forall>p \<in> set (wg_peers s). (\<exists>d. 2 \<le> unat d \<and> unat d \<le> 254 \<and> wgp_IPv4 p = IPv4 10 8 0 d) \<and>
      v4_Bytes (wgp_IPv4 p) \<noteq> TunnelIPv4 s)"
proof -
  from wg_reach_inv [OF assms] have inv: "wg_inv_at default_geom s"
    and net: "p4_Net (pool_V4 (wg_pool s)) = prefix_net [10, 8, 0, 2] 24" by simp_all
  have pool: "pool4_inv (IPv4 10 8 0 2) default4_top (pool_V4 (wg_pool s))"
    using inv by (simp add: wg_inv_at_def default_geom_def)
  have "net_IP (prefix_net [10, 8, 0, 2] 24) = [10, 8, 0, 0]" by (simp add: prefix_net_def)
  moreover have "NewIPv4FromIP [10, 8, 0, 0] = IPv4 10 8 0 0"
    by (simp add: NewIPv4FromIP_def ip_To4_def v4_zero_def go_copy_def v4_of_list_def)
  moreover have "v4_Next (IPv4 10 8 0 0) = IPv4 10 8 0 1"
  proof -
    have "v4_nat (v4_Next (IPv4 10 8 0 0)) = v4_nat (IPv4 10 8 0 1)"
      by (subst v4_nat_Next) (simp_all add: v4_nat_IPv4)
    then show ?thesis by simp
  qed
  ultimately have own: "TunnelIPv4 s = [10, 8, 0, 1]" by (simp add: TunnelIPv4_def net)
  have "\<exists>d. 2 \<le> unat d \<and> unat d \<le> 254 \<and> wgp_IPv4 p = IPv4 10 8 0 d" if "p \<in> set (wg_peers s)" for p
    using inv that pool4.reserved_usable [OF pool] usable_default4(2) [of "wgp_IPv4 p"]
    by (auto simp: wg_inv_at_def)
  then show ?thesis using inv own by (fastforce simp: wg_inv_at_def)
qed

text \<open>A host on which every command succeeds: the smallest non-trivial run.\<close>

definition demo_wg_config :: wg_config where
  "demo_wg_config = \<lparr>wgc_Interface = ''wg0'', wgc_ListenPort = 51820,
    wgc_PrivateKey = b64_encode (replicate 32 1), wgc_Uplink = ''eth0'', wgc_EnableIPv6 = False\<rparr>"

lemma demo_wg_config_valid: "wgc_Validate demo_wg_config = ok"
  by (simp add: wgc_Validate_def demo_wg_config_def KeyFromString_def KeyFromBytes_def KeyLength_def)

lemma demo_wg_config_uplink: "wgc_Uplink demo_wg_config = ''eth0''"
  by (simp add: demo_wg_config_def)

lemma demo_wg_key: "KeyFromString (wgc_PrivateKey demo_wg_config) = Inr (replicate 32 1)"
  by (simp add: demo_wg_config_def KeyFromString_def KeyFromBytes_def KeyLength_def)

lemma demo_wg_reach:
  "\<exists>s. wg_reach (quiet_host :: unit host) P s \<and> wg_peers s = [] \<and> wg_tight s \<and> wg_conf s = demo_wg_config"
proof -
  obtain s0 :: "unit wireguard" where s0: "wg_NewService () = Inr s0"
    by (simp add: wg_NewService_def NewIPv4PoolFromCIDR_def NewIPv6PoolFromCIDR_def ParseCIDR_defaults)
  then have preset: "wg_preset s0 = None"
    by (auto simp: wg_NewService_def rbind_eq_Inr_iff NewVariant_def)
  obtain s where s: "wg_Init quiet_host (\<lambda>_ _. Inr demo_wg_config) (\<lambda>k. k) ''/home'' s0 = (ok, s)"
      "wg_conf s = demo_wg_config"
    using demo_wg_config_valid preset demo_wg_config_uplink demo_wg_key by (simp add: wg_Init_def quiet_host_def)
  have "wg_reach quiet_host P s" by (rule wg_start [OF s0 s(1)])
  moreover have "wg_peers s = []" "wg_tight s"
    using wg_NewService_inv(2,3) [OF s0] wg_Init_fields [OF s(1)] by (simp_all add: wg_tight_def)
  ultimately show ?thesis using s(2) by blast
qed

lemma card_usable6:
  assumes "hi \<le> 256 ^ 16"
  shows "card (usable6 st hi) = hi - big_of_bytes st"
proof -
  have "big_of_bytes ` usable6 st hi = {big_of_bytes st ..< hi}"
  proof (intro equalityI subsetI)
    fix n assume n: "n \<in> {big_of_bytes st ..< hi}"
    then have "big_of_bytes (be_bytes 16 n) = n" using assms by (intro big_of_be_bytes_id) simp
    with n show "n \<in> big_of_bytes ` usable6 st hi"
      by (intro image_eqI [of _ _ "be_bytes 16 n"]) (simp_all add: usable6_def)
  qed (auto simp: usable6_def)
  moreover have "inj_on big_of_bytes (usable6 st hi)"
    by (auto simp: inj_on_def usable6_def intro: big_of_bytes_inj)
  ultimately show ?thesis by (metis card_image card_atLeastLessThan)
qed

lemma usable_default6: "card (usable6 default6_start (net_top default6_start 120)) = 254"
proof -
  have "net_top default6_start 120 \<le> 256 ^ 16" by (simp add: net_top_def)
  from card_usable6 [OF this] have "card (usable6 default6_start (net_top default6_start 120)) =
      net_top default6_start 120 - big_of_bytes default6_start" .
  also have "\<dots> = 254" by (simp add: net_top_def)
  finally show ?thesis .
qed

lemma wg_tight_card:
  assumes "wg_inv_at g s" "wg_tight s"
  shows "card (used4 s) = wg_PeerCount s" "card (used6 s) \<le> wg_PeerCount s"
proof -
  have "card (wgp_IPv4 ` set (wg_peers s)) = length (wg_peers s)"
    using assms(1) by (metis distinct_card length_map list.set_map wg_inv_at_def)
  then show "card (used4 s) = wg_PeerCount s"
    using assms(2) by (simp add: wg_tight_def wg_PeerCount_def wgp_Len_def)
  have "length (peers6 (wg_peers s)) \<le> length (wg_peers s)"
    by (metis length_filter_le length_map peers6_def)
  then show "card (used6 s) \<le> wg_PeerCount s"
    using assms(2) card_length [of "peers6 (wg_peers s)"] by (simp add: wg_tight_def wg_PeerCount_def wgp_Len_def)
qed

lemma wg_reach_tight:
  assumes "wg_reach h (\<lambda>d s. d \<noteq> [] \<and> \<not> wg_HasPeer d s) s"
  shows "wg_tight s"
  using assms
proof induction
  case (wg_start w s0 read pub home s)
  then show ?case
    using wg_NewService_inv [OF wg_start(1)] wg_Init_fields [OF wg_start(2)] by (simp add: wg_tight_def)
next
  case (wg_add s d r s')
  have inv: "wg_inv_at default_geom s" using wg_reach_inv [OF wg_add(1)] by simp
  have new: "session_key d \<notin> wg_keys s" using wg_add wg_HasPeer_keys by blast
  show ?case
  proof (cases r)
    case (Inl e)
    with wg_AddPeer_Inl [OF inv, of h d e s'] wg_add show ?thesis by (simp add: wg_tight_def)
  next
    case (Inr b)
    with wg_AddPeer_Inr [OF inv, of h d b s'] wg_add new show ?thesis by blast
  qed
next
  case (wg_remove s d u s')
  then show ?case using wg_RemovePeer_law [of default_geom s h d u s'] wg_reach_inv by blast
next
  case (wg_list s l s')
  then show ?case using wg_Peers_law [of h s l s'] by (auto simp: wg_tight_def)
qed

lemma wg_AddPeer_tool_error:
  assumes inv: "wg_inv_at default_geom s" and "wg_tight s" "wg_PeerCount s < 253"
    and "wg_AddPeer h d s = (Inl e, s')"
  shows "\<exists>args w w'. run_cmd h (var_Tool (wg_variant s)) args w = (Inl e, w')"
proof -
  note tight = wg_tight_card [OF inv assms(2)]
  have fin: "finite (used4 s)" "finite (used6 s)"
    using inv pool4.finite_reserved pool6.finite_reserved by (auto simp: wg_inv_at_def)
  have "\<not> usable4 (g_st4 default_geom) (g_hi4 default_geom) \<subseteq> used4 s"
    by (rule not_subset_card [OF fin(1)]) (simp add: default_geom_def usable_default4(1) tight(1) assms(3))
  moreover have "card (used6 s) < 254" using tight(2) assms(3) by linarith
  then have "\<not> usable6 (g_st6 default_geom) (g_hi6 default_geom) \<subseteq> used6 s"
    by (intro not_subset_card [OF fin(2)]) (simp only: default_geom_def geom.simps usable_default6)
  ultimately show ?thesis
    using wg_AddPeer_Inl [OF inv assms(4)] by blast
qed


text \<open>A host on which every command fails leaves the service as it was.\<close>

definition broken_host :: "'o host" where
  "broken_host = quiet_host\<lparr>h_Run := (\<lambda>_ _ w. (Inl ''failed'', w))\<rparr>"

lemma wg_fresh_add:
  assumes "wg_reach (quiet_host :: unit host) (\<lambda>d s. d \<noteq> [] \<and> \<not> wg_HasPeer d s) s"
    and "wg_PeerCount s < 253" "d \<noteq> []" "session_key d \<notin> wg_keys s"
  shows "\<exists>s' :: unit wireguard. wg_reach quiet_host (\<lambda>d s. d \<noteq> [] \<and> \<not> wg_HasPeer d s) s' \<and>
    wg_keys s' = insert (session_key d) (wg_keys s)"
proof -
  have inv: "wg_inv_at default_geom s" using wg_reach_inv [OF assms(1)] by simp
  obtain r s' where add: "wg_AddPeer quiet_host d s = (r, s')" by fastforce
  have "run_cmd quiet_host tool args w = (ok, w)" for tool args and w :: unit
    by (simp add: run_cmd_def quiet_host_def)
  then obtain b where b: "r = Inr b"
    using wg_AddPeer_tool_error [OF inv wg_reach_tight [OF assms(1)] assms(2), of quiet_host d _ s'] add
    by (cases r) auto
  have "wg_reach quiet_host (\<lambda>d s. d \<noteq> [] \<and> \<not> wg_HasPeer d s) s'"
    using assms add wg_HasPeer_keys [of d s] by (intro wg_add [OF assms(1) _ add]) simp
  moreover have "wg_keys s' = insert (session_key d) (wg_keys s)"
    using wg_AddPeer_Inr [OF inv add [unfolded b]] by (elim conjE)
  ultimately show ?thesis by - (rule exI [of _ s'], intro conjI)
qed

theorem wg_addresses_distinct_witness:
  "\<exists>s :: unit wireguard. wg_reach quiet_host (\<lambda>d s. d \<noteq> [] \<and> \<not> wg_HasPeer d s) s \<and>
    card (wg_keys s) = 2 \<and> distinct (map wgp_IPv4 (wg_peers s))"
proof -
  let ?P = "\<lambda>d (s :: unit wireguard). d \<noteq> [] \<and> \<not> wg_HasPeer d s"
  obtain s :: "unit wireguard" where s: "wg_reach quiet_host ?P s" "wg_peers s = []"
    using demo_wg_reach [of ?P] by blast
  then have k0: "wg_keys s = {}" "wg_PeerCount s = 0"
    by (simp_all add: wg_keys_def wg_PeerCount_def wgp_Len_def)
  obtain s1 where s1: "wg_reach quiet_host ?P s1" "wg_keys s1 = {session_key [1]}"
    using wg_fresh_add [OF s(1), of "[1]"] k0 by (auto simp del: b64_encode.simps)
  have "wg_PeerCount s1 = 1"
    using wg_PeerCount_keys [of default_geom s1] wg_reach_inv [OF s1(1)] s1(2) by simp
  then obtain s2 where s2: "wg_reach quiet_host ?P s2" "wg_keys s2 = {session_key [2], session_key [1]}"
    using wg_fresh_add [OF s1(1), of "[2]"] s1(2) by (auto simp del: b64_encode.simps)
  have "card (wg_keys s2) = 2" unfolding s2(2) by (simp del: b64_encode.simps)
  moreover have "distinct (map wgp_IPv4 (wg_peers s2))"
    using wg_addresses_distinct [OF s2(1)] by (elim conjE)
  ultimately show ?thesis using s2(1) by - (rule exI [of _ s2], intro conjI)
qed


end
