(* ===== verification/Peer_Request.thy ===== *)
theory Peer_Request
  imports WireGuard Json
begin

text \<open>
  The peer request of a handshake: \<^verbatim>\<open>UUIDPeerRequest\<close> of \<^verbatim>\<open>services/common/uuid.go\<close> and the
  \<^verbatim>\<open>ParsePeerRequest\<close> of the services, on the value Go's JSON decoder reads, \<^const>\<open>None\<close> when the
  text is not JSON.
\<close>

section \<open>The UUID\<close>

definition UUIDFromJSON :: "json \<Rightarrow> bytes result" where
  "UUIDFromJSON v =
    (case bytes_of_json v of
       Some bs \<Rightarrow> if length bs \<noteq> UUIDLen then Inl ''uuid must be 16 bytes'' else Inr bs
     | None \<Rightarrow>
        (case v of
           JStr s \<Rightarrow> ParseUUID s
         | _ \<Rightarrow> Inl ''uuid must be a 16-byte array or a string''))"

definition UUIDPeerRequest :: "string \<Rightarrow> json option \<Rightarrow> bytes result" where
  "UUIDPeerRequest protocol raw =
    (case as_object raw of
       None \<Rightarrow> Inl (''invalid '' @ protocol @ '' peer request'')
     | Some obj \<Rightarrow>
        (case ptr_field as_string_ptr ''public_key'' obj of
           None \<Rightarrow> Inl (''invalid '' @ protocol @ '' peer request'')
         | Some public \<Rightarrow>
            (case raw_field ''uuid'' obj of
               None \<Rightarrow>
                 if public \<noteq> None
                 then Inl (''this node runs '' @ protocol @ '', whose peer request carries a uuid; this request carries public_key, which is what a wireguard client sends'')
                 else Inl (''this node runs '' @ protocol @ '', whose peer request carries a uuid; none was sent'')
             | Some v \<Rightarrow>
                (case UUIDFromJSON v of
                   Inl e \<Rightarrow> Inl (''invalid '' @ protocol @ '' peer request: '' @ e)
                 | Inr i \<Rightarrow> Inr i))))"

section \<open>The services' requests\<close>

definition wg_ParsePeerRequest :: "string \<Rightarrow> json option \<Rightarrow> bytes result" where
  "wg_ParsePeerRequest name raw =
    (case as_object raw of
       None \<Rightarrow> Inl (''invalid '' @ name @ '' peer request'')
     | Some obj \<Rightarrow>
        (case ptr_field as_string_ptr ''public_key'' obj of
           None \<Rightarrow> Inl (''invalid '' @ name @ '' peer request'')
         | Some None \<Rightarrow>
            if raw_field ''uuid'' obj \<noteq> None
            then Inl (''this node runs '' @ name @ '', whose peer request carries a public_key; this request carries uuid, which is what a proxy client sends'')
            else Inl (''this node runs '' @ name @ '', whose peer request carries a public_key; none was sent'')
         | Some (Some k) \<Rightarrow>
            (case KeyFromString k of
               Inl e \<Rightarrow> Inl (''invalid public_key: '' @ e)
             | Inr key \<Rightarrow> Inr key)))"

definition hy_ParsePeerRequest :: "json option \<Rightarrow> bytes result" where
  "hy_ParsePeerRequest raw = UUIDPeerRequest ''hysteria2'' raw"

definition ovpn_ParsePeerRequest :: "json option \<Rightarrow> bytes result" where
  "ovpn_ParsePeerRequest raw = UUIDPeerRequest ''openvpn'' raw"

definition v2_ParsePeerRequest :: "json option \<Rightarrow> bytes result" where
  "v2_ParsePeerRequest raw = rbind (UUIDPeerRequest ''v2ray'' raw) (\<lambda>i. Inr (1 # i))"

definition xr_ParsePeerRequest :: "json option \<Rightarrow> bytes result" where
  "xr_ParsePeerRequest raw = rbind (UUIDPeerRequest ''xray'' raw) (\<lambda>i. Inr (1 # i))"

section \<open>Both forms of a UUID\<close>

lemma those_map_Some [simp]: "those (map Some xs) = Some xs"
  by (induction xs) auto

lemma those_length: "those xs = Some ys \<Longrightarrow> length ys = length xs"
  by (induction xs arbitrary: ys) (auto split: option.splits)

lemma byte_of_json_uint [simp]: "byte_of_json (JNum (uint b)) = Some b"
proof -
  have "0 \<le> uint b" "uint b < 256" using uint_bounded [of b] by simp_all
  then show ?thesis by simp
qed

lemma bytes_of_json_array [simp]: "bytes_of_json (JArr (map (\<lambda>b. JNum (uint b)) bs)) = Some bs"
  by (simp add: comp_def del: byte_of_json.simps)

lemma b64_quanta_dash: "CHR ''-'' \<in> set s \<Longrightarrow> b64_quanta s = None"
proof (induction "length s" arbitrary: s rule: less_induct)
  case less
  have dash: "b64_val (CHR ''-'') = None" by (simp add: b64_val_def)
  show ?case
  proof (cases s rule: b64_quanta.cases)
    case (2 p q r t rest)
    show ?thesis
    proof (cases "CHR ''-'' \<in> {p, q, r, t}")
      case True
      then show ?thesis using dash 2 by (auto split: option.splits)
    next
      case False
      then have "CHR ''-'' \<in> set rest" using less.prems 2 by auto
      then have "b64_quanta rest = None" "rest \<noteq> []" using less.hyps [of rest] 2 by auto
      then show ?thesis using 2 by (auto simp: Let_def split: option.splits)
    qed
  qed (use less.prems in auto)
qed

lemma UUIDFromJSON_length: "UUIDFromJSON v = Inr i \<Longrightarrow> length i = 16"
  by (auto simp: UUIDFromJSON_def ParseUUID_def UUIDLen_def Let_def split: option.splits if_splits json.splits)

lemma FormatUUID_dash: "CHR ''-'' \<in> set (FormatUUID i)"
  by (simp add: FormatUUID_def Let_def)

lemma FormatUUID_not_base64: "b64_decode (FormatUUID i) = None"
proof -
  have "CHR ''-'' \<in> set (filter (\<lambda>c. c \<noteq> CHR 0x0A \<and> c \<noteq> CHR 0x0D) (FormatUUID i))"
    using FormatUUID_dash [of i] by simp
  then show ?thesis unfolding b64_decode_def by (rule b64_quanta_dash)
qed

text \<open>C27: a client may send its UUID as an array of bytes or in canonical form; both are read as the same
  sixteen bytes, whatever else the request carries.\<close>

theorem uuid_request_forms:
  assumes "length i = 16"
  shows "UUIDPeerRequest protocol (Some (JObj [(''uuid'', JArr (map (\<lambda>b. JNum (uint b)) i))])) = Inr i \<and>
    UUIDPeerRequest protocol (Some (JObj [(''uuid'', JStr (FormatUUID i))])) = Inr i"
proof -
  have arr: "UUIDFromJSON (JArr (map (\<lambda>b. JNum (uint b)) i)) = Inr i"
    using assms by (simp add: UUIDFromJSON_def UUIDLen_def del: bytes_of_json.simps)
  have str: "UUIDFromJSON (JStr (FormatUUID i)) = Inr i"
    using uuid_round_trip [of i] assms by (simp add: UUIDFromJSON_def FormatUUID_not_base64 UUIDLen_def)
  show ?thesis
    unfolding UUIDPeerRequest_def
    by (simp add: ptr_field_def field_values_def raw_field_def to_lower_def char_code_def arr str)
qed

lemma uuid_request_forms_witness:
  "UUIDPeerRequest ''xray'' (Some (JObj [(''uuid'', JStr (FormatUUID (replicate 16 7)))])) = Inr (replicate 16 7)"
  using uuid_request_forms [of "replicate 16 7" "''xray''"] by simp



section \<open>A UUID as a credential\<close>

text \<open>Hysteria2 and OpenVPN clients present their UUID in canonical form.\<close>

lemma FormatUUID_inj: "length a = 16 \<Longrightarrow> length b = 16 \<Longrightarrow> FormatUUID a = FormatUUID b \<longleftrightarrow> a = b"
  by (metis UUIDLen_def sum.inject(2) uuid_round_trip)

text \<open>\<open>auth_of K\<close> relates the passwords of the peers with keys in \<open>K\<close> to those keys.\<close>

definition auth_of :: "string set \<Rightarrow> string \<Rightarrow> string \<Rightarrow> bool" where
  "auth_of K a k \<longleftrightarrow> (\<exists>i. length i = 16 \<and> a = FormatUUID i \<and> k = session_key i \<and> k \<in> K)"

lemma auth_of_insert:
  assumes "length d = 16"
  shows "auth_of (insert (session_key d) K) a k \<longleftrightarrow>
    (if a = FormatUUID d then k = session_key d else auth_of K a k)"
proof (cases "a = FormatUUID d")
  case True
  have "i = d" if "length i = 16" "FormatUUID d = FormatUUID i" for i
    using FormatUUID_inj [OF assms that(1)] that(2) by simp
  then show ?thesis using True assms unfolding auth_of_def by (metis insertI1)
next
  case False
  then show ?thesis unfolding auth_of_def by (metis b64_encode_inj insert_iff)
qed

lemma auth_of_remove:
  assumes "length d = 16"
  shows "auth_of (K - {session_key d}) a k \<longleftrightarrow> a \<noteq> FormatUUID d \<and> auth_of K a k"
proof (cases "a = FormatUUID d")
  case True
  have "i = d" if "length i = 16" "FormatUUID d = FormatUUID i" for i
    using FormatUUID_inj [OF assms that(1)] that(2) by simp
  then show ?thesis using True unfolding auth_of_def by (metis DiffD2 insertI1)
next
  case False
  then show ?thesis unfolding auth_of_def by (metis DiffD1 DiffI b64_encode_inj singletonD)
qed

end
