(* ===== verification/Hysteria.thy ===== *)
theory Hysteria
  imports Daemon Peer_Request "HOL-Library.AList"
begin

text \<open>
  The Hysteria2 service: \<^verbatim>\<open>services/hysteria/hysteria.go\<close>, \<^verbatim>\<open>handshake.go\<close>, \<^verbatim>\<open>config.go\<close> and
  \<^verbatim>\<open>services/hysteria/types\<close>. The server's statistics API, the listening socket of the authentication
  hook and the configuration file reader are parameters. The service refines one map from session keys
  to traffic totals, and its hook admits exactly the clients that are registered.
\<close>

section \<open>Configuration\<close>

record hy_server_config =
  hys_ListenPort :: "16 word"
  hys_ObfsPassword :: string
  hys_Up :: string
  hys_Down :: string

record hy_config =
  hyc_Server :: hy_server_config
  hyc_AuthPort :: "16 word"
  hyc_StatsPort :: "16 word"

definition hy_NewConfig :: hy_config where
  "hy_NewConfig =
    \<lparr>hyc_Server = \<lparr>hys_ListenPort = 0, hys_ObfsPassword = [], hys_Up = [], hys_Down = []\<rparr>,
     hyc_AuthPort = 0, hyc_StatsPort = 0\<rparr>"

text \<open>The regular expression \<^verbatim>\<open>^[0-9]+(\.[0-9]+)?\s*(bps|kbps|mbps|gbps|tbps)?$\<close>.\<close>

definition regexp_space :: "char \<Rightarrow> bool" where
  "regexp_space c \<longleftrightarrow> char_code c \<in> {9, 10, 12, 13, 32}"

definition rate_matches :: "string \<Rightarrow> bool" where
  "rate_matches s \<longleftrightarrow>
    (let unit_ok = (\<lambda>r. dropWhile regexp_space r \<in> {[], ''bps'', ''kbps'', ''mbps'', ''gbps'', ''tbps''});
         r = dropWhile is_digit s
     in takeWhile is_digit s \<noteq> [] \<and>
       (case r of
          c # r' \<Rightarrow> if c = CHR ''.'' then takeWhile is_digit r' \<noteq> [] \<and> unit_ok (dropWhile is_digit r') else unit_ok r
        | [] \<Rightarrow> True))"

definition bad_rate :: "string \<Rightarrow> bool" where
  "bad_rate v \<longleftrightarrow> v \<noteq> [] \<and> \<not> rate_matches (to_lower (trim_space v))"

definition hys_Validate :: "hy_server_config \<Rightarrow> unit result" where
  "hys_Validate c =
    first_error
      [(hys_ListenPort c = 0, ''listen_port cannot be zero''),
       (CHR 0x22 \<in> set (hys_ObfsPassword c) \<or> CHR 0x0A \<in> set (hys_ObfsPassword c),
          ''obfs_password cannot contain quotes or newlines''),
       (bad_rate (hys_Up c) \<or> bad_rate (hys_Down c), ''must be a rate such as 100 mbps''),
       ((hys_Up c = []) \<noteq> (hys_Down c = []), ''up and down must be set together'')]"

definition hya_Validate :: "hy_config \<Rightarrow> unit result" where
  "hya_Validate c =
    first_error
      [(hyc_AuthPort c = 0 \<or> hyc_StatsPort c = 0, ''auth_port and stats_port cannot be zero''),
       (hyc_AuthPort c = hyc_StatsPort c, ''auth_port and stats_port must differ'')]"

definition hyc_Validate :: "hy_config \<Rightarrow> unit result" where
  "hyc_Validate c =
    (case hys_Validate (hyc_Server c) of
       Inl e \<Rightarrow> Inl (''invalid section server: '' @ e)
     | Inr _ \<Rightarrow>
         (case hya_Validate c of Inl e \<Rightarrow> Inl (''invalid section api: '' @ e) | Inr _ \<Rightarrow> ok))"

text \<open>\<open>rnd\<close> is the sequence of random numbers drawn; the loop draws until the ports differ, and is
  \<^const>\<open>None\<close> when it never ends.\<close>

partial_function (option) draw_other :: "(nat \<Rightarrow> nat) \<Rightarrow> nat \<Rightarrow> 16 word \<Rightarrow> (16 word) option" where
  "draw_other rnd i p =
    (if RandomPort (rnd i) = p then draw_other rnd (Suc i) p else Some (RandomPort (rnd i)))"

definition hyc_WithDefaultValues :: "(nat \<Rightarrow> nat) \<Rightarrow> hy_config \<Rightarrow> hy_config option" where
  "hyc_WithDefaultValues rnd c =
    (let auth = RandomPort (rnd 1) in
     case draw_other rnd 2 auth of
       None \<Rightarrow> None
     | Some stats \<Rightarrow>
         Some (c\<lparr>hyc_Server := (hyc_Server c)\<lparr>hys_ListenPort := RandomPort (rnd 0)\<rparr>,
                 hyc_AuthPort := auth, hyc_StatsPort := stats\<rparr>))"

section \<open>The server configuration\<close>

record hy_template =
  hyt_Config :: hy_config
  hyt_TLSCertPath :: string
  hyt_TLSKeyPath :: string
  hyt_StatsSecret :: string
  hyt_AllowSMTP :: bool

definition hy_acl :: "bool \<Rightarrow> string list" where
  "hy_acl allowSMTP =
    [''reject(suffix:'' @ BlockedLocalDomain @ '')''] @
    map (\<lambda>n. ''reject('' @ n @ '')'') BlockedNetworks @
    (if allowSMTP then [] else [''reject(all, tcp/'' @ itoa SMTPPort @ '')''])"

definition hy_configText :: "hy_template \<Rightarrow> string" where
  "hy_configText t =
    (let c = hyt_Config t; sv = hyc_Server c in
     concat (map (\<lambda>l. l @ [CHR 0x0A])
      ([''listen: '' @ quoted ('':'' @ port_str (hys_ListenPort sv)),
        ''tls:'',
        ''  cert: '' @ json_string (hyt_TLSCertPath t),
        ''  key: '' @ json_string (hyt_TLSKeyPath t)] @
       (if hys_ObfsPassword sv = [] then []
        else [''obfs:'', ''  type: salamander'', ''  salamander:'',
              ''    password: '' @ json_string (hys_ObfsPassword sv)]) @
       [''auth:'', ''  type: http'', ''  http:'',
        ''    url: '' @ quoted (''http://127.0.0.1:'' @ port_str (hyc_AuthPort c) @ ''/auth''),
        ''    insecure: false'',
        ''trafficStats:'',
        ''  listen: '' @ quoted (''127.0.0.1:'' @ port_str (hyc_StatsPort c)),
        ''  secret: '' @ json_string (hyt_StatsSecret t)] @
       (if hys_Up sv = [] then []
        else [''bandwidth:'', ''  up: '' @ json_string (hys_Up sv), ''  down: '' @ json_string (hys_Down sv)]) @
       [''ignoreClientBandwidth: false'', ''disableUDP: false'', ''acl:'', ''  inline:''] @
       map (\<lambda>r. ''    - '' @ json_string r) (hy_acl (hyt_AllowSMTP t)))))"

section \<open>The service\<close>

record 'o hysteria =
  hy_info :: bytes
  hy_process :: "child option"
  hy_conf :: hy_config
  hy_tlsPin :: string
  hy_statsSecret :: string
  hy_configPath :: string
  hy_byAuth :: "string \<rightharpoonup> string"
  hy_traffic :: "string \<rightharpoonup> int \<times> int"
  hy_peers :: peer_set
  hy_auth :: bool
  hy_world :: 'o

definition NewHysteria :: "'o \<Rightarrow> 'o hysteria" where
  "NewHysteria w =
    \<lparr>hy_info = replicate 3 0, hy_process = None, hy_conf = hy_NewConfig, hy_tlsPin = [], hy_statsSecret = [],
     hy_configPath = [], hy_byAuth = Map.empty, hy_traffic = Map.empty, hy_peers = [], hy_auth = False,
     hy_world = w\<rparr>"

text \<open>The hook's listening socket, and an exchange with the statistics API: method, URL, secret and body;
  the answer's status and body, \<^const>\<open>None\<close> for a body that is not JSON.\<close>

record 'o hy_net =
  hn_Listen :: "string \<Rightarrow> 'o \<Rightarrow> unit result \<times> 'o"
  hn_CloseAuth :: "'o \<Rightarrow> 'o"
  hn_Do :: "string \<Rightarrow> string \<Rightarrow> string \<Rightarrow> string option \<Rightarrow> 'o \<Rightarrow> (nat \<times> json option) result \<times> 'o"

definition hy_Init ::
  "'o host \<Rightarrow> pki \<Rightarrow> (string \<Rightarrow> 'o \<Rightarrow> hy_config result) \<Rightarrow> runtime \<Rightarrow> egress_policy \<Rightarrow> bytes result \<Rightarrow>
    string \<Rightarrow> 'o hysteria \<Rightarrow> unit result \<times> 'o hysteria" where
  "hy_Init h pk read rt pol rnd home s =
    (let w = hy_world s; cert = filepath_Join [home, ''tls.crt''] in
     case h_LookPath h ''hysteria'' w of
       Inl e \<Rightarrow> (Inl ''the hysteria binary is not on PATH'', s)
     | Inr _ \<Rightarrow>
     (case read (filepath_Join [home, ''hysteria.toml'']) w of
       Inl e \<Rightarrow> (Inl e, s)
     | Inr c \<Rightarrow>
     (let s1 = s\<lparr>hy_conf := c\<rparr> in
      case hyc_Validate c of
       Inl e \<Rightarrow> (Inl e, s1)
     | Inr _ \<Rightarrow>
     (case CertificatePin h pk cert w of
       Inl e \<Rightarrow> (Inl e, s1)
     | Inr pin \<Rightarrow>
     (let s2 = s1\<lparr>hy_tlsPin := ColonPin pin\<rparr> in
      if \<not> h_Stat h (filepath_Join [home, ''tls.key'']) w then (Inl ''tls key'', s2)
      else case TLSFiles h rt home w of
       (Inl e, w1) \<Rightarrow> (Inl e, s2\<lparr>hy_world := w1\<rparr>)
     | (Inr (certPath, keyPath), w1) \<Rightarrow>
     (case rnd of
       Inl e \<Rightarrow> (Inl e, s2\<lparr>hy_world := w1\<rparr>)
     | Inr secret \<Rightarrow>
     (let s3 = s2\<lparr>hy_statsSecret := hex_encode secret\<rparr>;
          text = hy_configText \<lparr>hyt_Config = c, hyt_TLSCertPath = certPath, hyt_TLSKeyPath = keyPath,
                                hyt_StatsSecret = hex_encode secret, hyt_AllowSMTP = eg_AllowSMTP pol\<rparr>
      in case rt_WriteFile h rt ''hysteria_config.yaml'' text w1 of
       (Inl e, w2) \<Rightarrow> (Inl e, s3\<lparr>hy_configPath := [], hy_world := w2\<rparr>)
     | (Inr path, w2) \<Rightarrow>
         (ok, s3\<lparr>hy_configPath := path, hy_world := w2,
                 hy_info := go_copy (hy_info s) (be_bytes 2 (unat (hys_ListenPort (hyc_Server c))) @
                   (if hys_ObfsPassword (hyc_Server c) \<noteq> [] then [1] else []))\<rparr>))))))))"

definition hy_serverArgs :: "bool \<Rightarrow> string \<Rightarrow> string list" where
  "hy_serverArgs verbose configPath =
    [''server'', ''--disable-update-check'', ''--log-level'', if verbose then ''info'' else ''error'',
     ''-c'', configPath]"

definition udpBufferBytes :: nat where
  "udpBufferBytes = 16 * 2 ^ 20"

definition udpBufferSwitches :: "string list" where
  "udpBufferSwitches = [''/proc/sys/net/core/rmem_max'', ''/proc/sys/net/core/wmem_max'']"

definition raiseUDPBuffers :: "'o host \<Rightarrow> 'o \<Rightarrow> 'o" where
  "raiseUDPBuffers h w =
    for_each (\<lambda>path w.
      case h_ReadFile h path w of
        Inl _ \<Rightarrow> w
      | Inr raw \<Rightarrow>
          (case parse_int64 (trim_space raw) of
             None \<Rightarrow> w
           | Some current \<Rightarrow>
               if int udpBufferBytes \<le> current then w
               else snd (h_WriteFile h path (itoa udpBufferBytes) 0 w))) udpBufferSwitches w"

definition hy_Start ::
  "'o host \<Rightarrow> 'o hy_net \<Rightarrow> egress_policy \<Rightarrow> runtime \<Rightarrow> bool \<Rightarrow> 'o hysteria \<Rightarrow> unit result \<times> 'o hysteria" where
  "hy_Start h net pol rt verbose s =
    (let c = hy_conf s; w0 = raiseUDPBuffers h (hy_world s) in
     case hn_Listen net (''127.0.0.1:'' @ port_str (hyc_AuthPort c)) w0 of
       (Inl e, w1) \<Rightarrow> (Inl (''auth hook: '' @ e), s\<lparr>hy_world := w1\<rparr>)
     | (Inr _, w1) \<Rightarrow>
         (case StartProxy h pol rt ''hysteria'' (hy_serverArgs verbose (hy_configPath s)) []
                 (hys_ListenPort (hyc_Server c)) [hyc_AuthPort c] w1 of
            (Inl e, w2) \<Rightarrow> (Inl e, s\<lparr>hy_auth := True, hy_process := None, hy_world := hn_CloseAuth net w2\<rparr>)
          | (Inr p, w2) \<Rightarrow> (ok, s\<lparr>hy_auth := True, hy_process := Some p, hy_world := w2\<rparr>)))"

definition hy_Stop :: "'o host \<Rightarrow> 'o process_ops \<Rightarrow> 'o hy_net \<Rightarrow> 'o hysteria \<Rightarrow> unit result \<times> 'o hysteria" where
  "hy_Stop h po net s =
    (if hy_process s = None then (Inl ''hysteria was not started'', s)
     else case Process_Stop h po (hy_process s) (hy_world s) of
       (r, w) \<Rightarrow> (r, s\<lparr>hy_world := if hy_auth s then hn_CloseAuth net w else w\<rparr>))"

text \<open>The authentication hook.\<close>

datatype auth_reply = AuthError nat string | AuthReply bool string

definition hy_handleAuth :: "'o hysteria \<Rightarrow> string \<Rightarrow> json option \<Rightarrow> auth_reply" where
  "hy_handleAuth s method body =
    (if method \<noteq> ''POST'' then AuthError 405 ''POST only''
     else case as_object body of
       None \<Rightarrow> AuthError 400 ''bad request''
     | Some obj \<Rightarrow>
         (case (plain_field as_string_ptr [] ''addr'' obj, plain_field as_string_ptr [] ''auth'' obj,
                plain_field as_uint64_ptr 0 ''tx'' obj) of
            (Some _, Some a, Some _) \<Rightarrow>
              (case hy_byAuth s a of None \<Rightarrow> AuthReply False [] | Some key \<Rightarrow> AuthReply True key)
          | _ \<Rightarrow> AuthError 400 ''bad request''))"

definition hy_checkPeerData :: "bytes \<Rightarrow> unit result" where
  "hy_checkPeerData d = (if length d \<noteq> UUIDLen then Inl ''peer data must be a 16-byte uuid'' else ok)"

definition hy_AddPeer :: "bytes \<Rightarrow> 'o hysteria \<Rightarrow> bytes result \<times> 'o hysteria" where
  "hy_AddPeer d s =
    (case hy_checkPeerData d of
       Inl e \<Rightarrow> (Inl e, s)
     | Inr _ \<Rightarrow>
         let key = session_key d in
         (Inr [], s\<lparr>hy_byAuth := (hy_byAuth s)(FormatUUID d \<mapsto> key),
                    hy_traffic := (if hy_traffic s key = None then (hy_traffic s)(key \<mapsto> (0, 0)) else hy_traffic s),
                    hy_peers := ps_Put key (hy_peers s)\<rparr>))"

definition hy_HasPeer :: "bytes \<Rightarrow> 'o hysteria \<Rightarrow> bool" where
  "hy_HasPeer d s = ps_Has (session_key d) (hy_peers s)"

definition hy_statsAPI ::
  "'o hy_net \<Rightarrow> string \<Rightarrow> string \<Rightarrow> string option \<Rightarrow> 'o hysteria \<Rightarrow> (nat \<times> json option) result \<times> 'o hysteria" where
  "hy_statsAPI net method path body s =
    (case hn_Do net method (''http://127.0.0.1:'' @ port_str (hyc_StatsPort (hy_conf s)) @ path)
            (hy_statsSecret s) body (hy_world s) of
       (r, w) \<Rightarrow> (r, s\<lparr>hy_world := w\<rparr>))"

definition hy_RemovePeer :: "'o hy_net \<Rightarrow> bytes \<Rightarrow> 'o hysteria \<Rightarrow> unit result \<times> 'o hysteria" where
  "hy_RemovePeer net d s =
    (case hy_checkPeerData d of
       Inl e \<Rightarrow> (Inl e, s)
     | Inr _ \<Rightarrow>
         let key = session_key d;
             s1 = s\<lparr>hy_byAuth := (hy_byAuth s)(FormatUUID d := None),
                    hy_traffic := (hy_traffic s)(key := None),
                    hy_peers := ps_Delete key (hy_peers s)\<rparr>
         in case hy_statsAPI net ''POST'' ''/kick'' (Some (''['' @ json_string key @ '']'')) s1 of
              (Inl e, s2) \<Rightarrow> (Inl e, s2)
            | (Inr (status, _), s2) \<Rightarrow> if status \<noteq> 200 then (Inl ''kick: status'', s2) else (ok, s2))"

text \<open>The traffic answer is a map from ids to the bytes the client sent and received.\<close>

definition delta_entry :: "json \<Rightarrow> (int \<times> int) option" where
  "delta_entry v =
    (case as_object (Some v) of
       None \<Rightarrow> None
     | Some obj \<Rightarrow>
         (case (plain_field as_int_ptr 0 ''tx'' obj, plain_field as_int_ptr 0 ''rx'' obj) of
            (Some tx, Some rx) \<Rightarrow> Some (tx, rx)
          | _ \<Rightarrow> None))"

fun delta_entries :: "(string \<times> json) list \<Rightarrow> (string \<times> int \<times> int) list \<Rightarrow> (string \<times> int \<times> int) list option" where
  "delta_entries [] acc = Some acc"
| "delta_entries ((k, v) # kvs) acc =
    (case delta_entry v of None \<Rightarrow> None | Some e \<Rightarrow> delta_entries kvs (AList.update k e acc))"

definition count_delta :: "string \<times> int \<times> int \<Rightarrow> (string \<rightharpoonup> int \<times> int) \<Rightarrow> (string \<rightharpoonup> int \<times> int)" where
  "count_delta = (\<lambda>(k, tx, rx) t.
    case t k of None \<Rightarrow> t | Some (u, d) \<Rightarrow> t(k \<mapsto> (i64 (u + tx), i64 (d + rx))))"

definition hy_peer_of :: "(string \<rightharpoonup> int \<times> int) \<Rightarrow> string \<Rightarrow> peer" where
  "hy_peer_of t k =
    (case t k of
       None \<Rightarrow> \<lparr>peer_Key = k, peer_Upload = 0, peer_Download = 0\<rparr>
     | Some (u, d) \<Rightarrow> \<lparr>peer_Key = k, peer_Upload = u, peer_Download = d\<rparr>)"

definition hy_Peers :: "'o hy_net \<Rightarrow> 'o hysteria \<Rightarrow> peer list result \<times> 'o hysteria" where
  "hy_Peers net s =
    (case hy_statsAPI net ''GET'' ''/traffic?clear=1'' None s of
       (Inl e, s1) \<Rightarrow> (Inl e, s1)
     | (Inr (status, body), s1) \<Rightarrow>
         if status \<noteq> 200 then (Inl ''traffic: status'', s1)
         else case as_object body of
           None \<Rightarrow> (Inl ''traffic: invalid body'', s1)
         | Some obj \<Rightarrow>
             (case delta_entries obj [] of
                None \<Rightarrow> (Inl ''traffic: invalid body'', s1)
              | Some delta \<Rightarrow>
                  let t = for_each count_delta delta (hy_traffic s1);
                      s2 = s1\<lparr>hy_traffic := t\<rparr>
                  in (Inr (map (hy_peer_of t) (ps_Keys (hy_peers s2))), s2)))"

definition hy_PeerCount :: "'o hysteria \<Rightarrow> nat" where
  "hy_PeerCount s = ps_Len (hy_peers s)"

definition hy_service :: "'o hy_net \<Rightarrow> 'o hysteria service" where
  "hy_service net =
    \<lparr>svc_AddPeer = hy_AddPeer, svc_HasPeer = hy_HasPeer, svc_RemovePeer = hy_RemovePeer net,
     svc_Peers = hy_Peers net, svc_PeerCount = hy_PeerCount\<rparr>"

section \<open>What a client receives\<close>

definition hy_ListenPort :: "'o hysteria \<Rightarrow> 16 word" where
  "hy_ListenPort s = be16 (hy_info s)"

record hy_inbound =
  hyi_Port :: "16 word"
  hyi_TLSPin :: string
  hyi_ObfsPassword :: string

definition hy_HandshakePayload :: "'o hysteria \<Rightarrow> bytes \<Rightarrow> hy_inbound list result" where
  "hy_HandshakePayload s _ =
    Inr [\<lparr>hyi_Port = hy_ListenPort s, hyi_TLSPin = hy_tlsPin s,
          hyi_ObfsPassword = hys_ObfsPassword (hyc_Server (hy_conf s))\<rparr>]"

definition hy_PublicMetadata :: "'o hysteria \<Rightarrow> hy_inbound list" where
  "hy_PublicMetadata s =
    [\<lparr>hyi_Port = 0, hyi_TLSPin = [],
      hyi_ObfsPassword = (if hys_ObfsPassword (hyc_Server (hy_conf s)) \<noteq> [] then ''<redacted>'' else [])\<rparr>]"

section \<open>The contract\<close>

lemma hy_statsAPI_keeps:
  "hy_statsAPI net m p b s = (r, s') \<Longrightarrow>
    hy_peers s' = hy_peers s \<and> hy_traffic s' = hy_traffic s \<and> hy_byAuth s' = hy_byAuth s"
  by (auto simp: hy_statsAPI_def split: prod.splits)

lemma hy_RemovePeer_cases:
  assumes "hy_RemovePeer net d s = (r, s')"
  obtains (refused) e where "length d \<noteq> 16" "r = Inl e" "s' = s"
  | (removed) "length d = 16" "hy_peers s' = ps_Delete (session_key d) (hy_peers s)"
      "hy_traffic s' = (hy_traffic s)(session_key d := None)"
      "hy_byAuth s' = (hy_byAuth s)(FormatUUID d := None)"
proof (cases "length d = 16")
  case True
  then have "hy_peers s' = ps_Delete (session_key d) (hy_peers s) \<and>
      hy_traffic s' = (hy_traffic s)(session_key d := None) \<and>
      hy_byAuth s' = (hy_byAuth s)(FormatUUID d := None)"
    using assms
    by (auto simp: hy_RemovePeer_def hy_checkPeerData_def UUIDLen_def Let_def dest!: hy_statsAPI_keeps
        split: prod.splits sum.splits if_splits)
  with True show ?thesis using removed by blast
next
  case False
  with assms have "s' = s" "\<exists>e. r = Inl e" by (auto simp: hy_RemovePeer_def hy_checkPeerData_def UUIDLen_def)
  with False refused show ?thesis by blast
qed

text \<open>What the server answers to a poll: the traffic since the last one, if it answers at all.\<close>

definition polled :: "'o hy_net \<Rightarrow> 'o hysteria \<Rightarrow> (string \<rightharpoonup> int \<times> int) option" where
  "polled net s =
    (case fst (hy_statsAPI net ''GET'' ''/traffic?clear=1'' None s) of
       Inl _ \<Rightarrow> None
     | Inr (status, body) \<Rightarrow>
         if status \<noteq> 200 then None
         else case as_object body of
           None \<Rightarrow> None
         | Some obj \<Rightarrow> (case delta_entries obj [] of None \<Rightarrow> None | Some delta \<Rightarrow> Some (map_of delta)))"

lemma hy_Peers_cases:
  assumes "hy_Peers net s = (r, s')"
  obtains (failed) e where "polled net s = None" "r = Inl e" "hy_peers s' = hy_peers s" "hy_traffic s' = hy_traffic s"
      "hy_byAuth s' = hy_byAuth s"
  | (read) obj delta where "polled net s = Some (map_of delta)" "delta_entries obj [] = Some delta" "hy_peers s' = hy_peers s"
      "hy_traffic s' = for_each count_delta delta (hy_traffic s)" "hy_byAuth s' = hy_byAuth s"
      "r = Inr (map (hy_peer_of (hy_traffic s')) (hy_peers s))"
proof -
  obtain a s1 where api: "hy_statsAPI net ''GET'' ''/traffic?clear=1'' None s = (a, s1)" by fastforce
  note k = hy_statsAPI_keeps [OF this]
  show ?thesis
  proof (cases "polled net s")
    case None
    then have "s' = s1" "\<exists>e. r = Inl e"
      using assms api by (auto simp: hy_Peers_def polled_def Let_def split: sum.splits if_splits option.splits prod.splits)
    with None k failed show ?thesis by metis
  next
    case (Some m)
    then obtain obj delta where "m = map_of delta" "delta_entries obj [] = Some delta"
      "s' = s1\<lparr>hy_traffic := for_each count_delta delta (hy_traffic s1)\<rparr>"
      "r = Inr (map (hy_peer_of (for_each count_delta delta (hy_traffic s1))) (hy_peers s1))"
      using assms api by (auto simp: hy_Peers_def polled_def Let_def split: sum.splits if_splits option.splits prod.splits)
    with k read Some show ?thesis by simp
  qed
qed

interpretation hy: peer_set_service "hy_service net" hy_peers
  for net
proof
  fix s s' :: "'a hysteria" and d r r' r''
  show "svc_HasPeer (hy_service net) d s = ps_Has (session_key d) (hy_peers s)"
    by (simp add: hy_service_def hy_HasPeer_def)
  show "svc_PeerCount (hy_service net) s = ps_Len (hy_peers s)"
    by (simp add: hy_service_def hy_PeerCount_def)
  show "hy_peers s' = (if is_ok r then ps_Put (session_key d) (hy_peers s) else hy_peers s)"
    if "svc_AddPeer (hy_service net) d s = (r, s')"
    using that by (auto simp: hy_service_def hy_AddPeer_def hy_checkPeerData_def Let_def split: if_splits)
  show "hy_peers s' = ps_Delete (session_key d) (hy_peers s) \<or> \<not> is_ok r' \<and> hy_peers s' = hy_peers s"
    if "svc_RemovePeer (hy_service net) d s = (r', s')"
    using that by (auto simp: hy_service_def elim!: hy_RemovePeer_cases)
  show "hy_peers s' = hy_peers s" if "svc_Peers (hy_service net) s = (r'', s')"
    using that by (auto simp: hy_service_def elim!: hy_Peers_cases)
qed

section \<open>The authentication hook\<close>

text \<open>The states a started service goes through.\<close>

inductive hy_reach :: "'o hy_net \<Rightarrow> 'o hysteria \<Rightarrow> bool" for net where
  hy_init: "hy_Init h pk read rt pol rnd home (NewHysteria w) = (ok, s) \<Longrightarrow> hy_reach net s"
| hy_add: "hy_reach net s \<Longrightarrow> hy_reach net (snd (hy_AddPeer d s))"
| hy_remove: "hy_reach net s \<Longrightarrow> hy_reach net (snd (hy_RemovePeer net d s))"
| hy_poll: "hy_reach net s \<Longrightarrow> hy_reach net (snd (hy_Peers net s))"

text \<open>The three structures of the service describe one set of peers: the totals are those of the
  registered keys, and the passwords are their UUIDs.\<close>

definition hy_inv :: "'o hysteria \<Rightarrow> bool" where
  "hy_inv s \<longleftrightarrow>
    distinct (hy_peers s) \<and> dom (hy_traffic s) = set (hy_peers s) \<and>
    (\<forall>a k. hy_byAuth s a = Some k \<longleftrightarrow> auth_of (set (hy_peers s)) a k)"

lemma hy_Init_fields:
  "hy_peers (snd (hy_Init h pk read rt pol rnd home s)) = hy_peers s \<and>
   hy_traffic (snd (hy_Init h pk read rt pol rnd home s)) = hy_traffic s \<and>
   hy_byAuth (snd (hy_Init h pk read rt pol rnd home s)) = hy_byAuth s"
  unfolding hy_Init_def Let_def by (simp split: sum.split prod.split)

lemma hy_AddPeer_inv:
  assumes "hy_inv s"
  shows "hy_inv (snd (hy_AddPeer d s))"
proof (cases "length d = 16")
  case True
  let ?s = "snd (hy_AddPeer d s)"
  have eq: "hy_byAuth ?s = (hy_byAuth s)(FormatUUID d \<mapsto> session_key d)"
    "hy_peers ?s = ps_Put (session_key d) (hy_peers s)"
    "dom (hy_traffic ?s) = insert (session_key d) (dom (hy_traffic s))"
    using True by (auto simp: hy_AddPeer_def hy_checkPeerData_def UUIDLen_def Let_def)
  have "hy_byAuth ?s a = Some k \<longleftrightarrow> auth_of (set (hy_peers ?s)) a k" for a k
    using assms unfolding hy_inv_def eq by (auto simp: auth_of_insert [OF True])
  with assms show ?thesis unfolding hy_inv_def eq by simp
next
  case False
  with assms show ?thesis by (simp add: hy_AddPeer_def hy_checkPeerData_def UUIDLen_def)
qed

lemma hy_RemovePeer_inv:
  assumes "hy_inv s" "hy_RemovePeer net d s = (r, s')"
  shows "hy_inv s'"
  using assms(2)
proof (cases rule: hy_RemovePeer_cases)
  case removed
  have "hy_byAuth s' a = Some k \<longleftrightarrow> auth_of (set (hy_peers s')) a k" for a k
    using assms(1) unfolding hy_inv_def removed by (auto simp: auth_of_remove [OF removed(1)])
  with assms(1) show ?thesis unfolding hy_inv_def removed by auto
qed (use assms in simp)

lemma count_delta_dom [simp]: "dom (count_delta e t) = dom t"
  by (auto simp: count_delta_def split: prod.splits option.splits if_splits)

lemma count_deltas_dom [simp]: "dom (for_each count_delta es t) = dom t"
  by (induction es arbitrary: t) auto

lemma hy_Peers_inv:
  assumes "hy_inv s" "hy_Peers net s = (r, s')"
  shows "hy_inv s'"
  using assms(2) by (cases rule: hy_Peers_cases) (use assms(1) in \<open>simp_all add: hy_inv_def\<close>)

lemma hy_reach_inv: "hy_reach net s \<Longrightarrow> hy_inv s"
proof (induction rule: hy_reach.induct)
  case (hy_init h pk read rt pol rnd home w s)
  with hy_Init_fields [of h pk read rt pol rnd home "NewHysteria w"] show ?case
    by (simp add: NewHysteria_def hy_inv_def auth_of_def)
qed (metis hy_AddPeer_inv hy_RemovePeer_inv hy_Peers_inv prod.collapse)+


definition demo_hy_config :: hy_config where
  "demo_hy_config =
    \<lparr>hyc_Server = \<lparr>hys_ListenPort = 8443, hys_ObfsPassword = [], hys_Up = [], hys_Down = []\<rparr>,
     hyc_AuthPort = 7001, hyc_StatsPort = 7002\<rparr>"

definition cert_host :: "unit host" where
  "cert_host = quiet_host\<lparr>h_Stat := (\<lambda>_ _. True), h_ReadFile := (\<lambda>_ _. Inr [])\<rparr>"

definition demo_pki :: pki where
  "demo_pki = \<lparr>pk_PemDecode = (\<lambda>_. Some (''CERTIFICATE'', [])), pk_SHA256 = (\<lambda>b. b)\<rparr>"

definition silent_net :: "unit hy_net" where
  "silent_net = \<lparr>hn_Listen = (\<lambda>_ w. (ok, w)), hn_CloseAuth = (\<lambda>w. w), hn_Do = (\<lambda>_ _ _ _ w. (Inr (200, Some (JObj [])), w))\<rparr>"

lemma demo_TLSFiles: "\<exists>c k. TLSFiles cert_host demo_runtime home w = (Inr (c, k), w)"
  by (simp add: TLSFiles_def copy_file_def rt_WriteFile_def cert_host_def quiet_host_def demo_runtime_def)

lemma hy_reach_demo: "\<exists>s :: unit hysteria. hy_reach net s \<and> hy_peers s = []"
proof -
  let ?init = "hy_Init cert_host demo_pki (\<lambda>_ _. Inr demo_hy_config) demo_runtime zero_policy (Inr []) ''/home'' (NewHysteria ())"
  obtain c k where "TLSFiles cert_host demo_runtime ''/home'' () = (Inr (c, k), ())" using demo_TLSFiles by blast
  then have "fst ?init = ok"
    by (simp add: hy_Init_def cert_host_def quiet_host_def demo_hy_config_def hyc_Validate_def hys_Validate_def
        hya_Validate_def bad_rate_def CertificatePin_def demo_pki_def rbind_def rt_WriteFile_def demo_runtime_def
        Let_def NewHysteria_def)
  then have "hy_reach net (snd ?init)" using hy_init by (metis prod.collapse)
  moreover have "hy_peers (snd ?init) = []" by (simp add: hy_Init_fields) (simp add: NewHysteria_def)
  ultimately show ?thesis by blast
qed


section \<open>Refinement of a meter\<close>

text \<open>What the service promises: one map from the keys of the registered peers to the traffic
  they caused since they were added. The server hands out what it counted since the last read, and
  int64 addition wraps.\<close>

type_synonym meter = "string \<rightharpoonup> int \<times> int"

definition meter_add :: "string \<Rightarrow> meter \<Rightarrow> meter" where
  "meter_add k m = (if k \<in> dom m then m else m(k \<mapsto> (0, 0)))"

definition meter_count :: "(string \<rightharpoonup> int \<times> int) \<Rightarrow> meter \<Rightarrow> meter" where
  "meter_count delta m = (\<lambda>k.
    case (m k, delta k) of
      (Some (u, d), Some (tx, rx)) \<Rightarrow> Some (i64 (u + tx), i64 (d + rx))
    | (c, _) \<Rightarrow> c)"

definition meter_peers :: "meter \<Rightarrow> peer set" where
  "meter_peers m = {\<lparr>peer_Key = k, peer_Upload = u, peer_Download = d\<rparr> | k u d. m k = Some (u, d)}"

text \<open>The abstraction: the totals of the registered keys.\<close>

definition hy_meter :: "'o hysteria \<Rightarrow> meter" where
  "hy_meter s = hy_traffic s |` set (hy_peers s)"

lemma hy_inv_meter: "hy_inv s \<Longrightarrow> hy_meter s = hy_traffic s"
proof (rule ext)
  fix k
  assume "hy_inv s"
  then have "hy_traffic s k = None" if "k \<notin> set (hy_peers s)" using that by (auto simp: hy_inv_def)
  then show "hy_meter s k = hy_traffic s k" by (simp add: hy_meter_def restrict_map_def)
qed

lemma count_delta_apply: "count_delta (k, e) t = meter_count [k \<mapsto> e] t"
  by (cases e) (auto simp: count_delta_def meter_count_def fun_eq_iff split: option.splits)

lemma meter_count_add:
  "k \<notin> dom m \<Longrightarrow> meter_count m (meter_count [k \<mapsto> e] t) = meter_count (m(k \<mapsto> e)) t"
  by (auto simp: meter_count_def fun_eq_iff domIff split: option.splits prod.splits)

lemma count_deltas: "distinct (map fst es) \<Longrightarrow> for_each count_delta es t = meter_count (map_of es) t"
proof (induction es arbitrary: t)
  case Nil
  show ?case by (auto simp: meter_count_def fun_eq_iff split: option.splits)
next
  case (Cons e es)
  obtain k d where e: "e = (k, d)" by (meson surj_pair)
  from Cons.prems have "k \<notin> dom (map_of es)" by (simp add: e dom_map_of_conv_image_fst)
  with Cons show ?case by (simp add: e count_delta_apply meter_count_add) (simp add: fun_upd_def)
qed

lemma delta_entries_distinct:
  "delta_entries kvs acc = Some delta \<Longrightarrow> distinct (map fst acc) \<Longrightarrow> distinct (map fst delta)"
  by (induction kvs acc rule: delta_entries.induct) (auto simp: distinct_update split: option.splits)

lemma meter_peers_conv:
  assumes "dom t = set ks"
  shows "set (map (hy_peer_of t) ks) = meter_peers t"
proof (rule set_eqI)
  fix p
  have "p \<in> set (map (hy_peer_of t) ks) \<longleftrightarrow> (\<exists>k \<in> dom t. p = hy_peer_of t k)" using assms by auto
  also have "\<dots> \<longleftrightarrow> (\<exists>k u d. t k = Some (u, d) \<and> p = hy_peer_of t k)" by (auto simp: Bex_def dom_def)
  also have "\<dots> \<longleftrightarrow> (\<exists>k u d. t k = Some (u, d) \<and> p = \<lparr>peer_Key = k, peer_Upload = u, peer_Download = d\<rparr>)"
    by (intro ex_cong1 conj_cong refl) (simp add: hy_peer_of_def)
  also have "\<dots> \<longleftrightarrow> p \<in> meter_peers t" unfolding meter_peers_def by auto
  finally show "p \<in> set (map (hy_peer_of t) ks) \<longleftrightarrow> p \<in> meter_peers t" .
qed

text \<open>C31: the service refines the meter. In a reachable state, adding a peer starts its total at zero
  unless it has one, removing it forgets the total whether or not the server answers, and a poll either
  fails and changes nothing or adds what the server counted and reports exactly the registered peers with
  their totals.\<close>

theorem hy_refines_meter:
  assumes "hy_reach net s" "length d = 16"
  shows "hy_meter (snd (hy_AddPeer d s)) = meter_add (session_key d) (hy_meter s) \<and>
    hy_meter (snd (hy_RemovePeer net d s)) = (hy_meter s)(session_key d := None) \<and>
    (case polled net s of
       None \<Rightarrow> \<not> is_ok (fst (hy_Peers net s)) \<and> hy_meter (snd (hy_Peers net s)) = hy_meter s
     | Some delta \<Rightarrow>
         (\<exists>items. fst (hy_Peers net s) = Inr items \<and> set items = meter_peers (meter_count delta (hy_meter s))) \<and>
         hy_meter (snd (hy_Peers net s)) = meter_count delta (hy_meter s))"
proof (intro conjI)
  have inv: "hy_inv s" using assms(1) by (rule hy_reach_inv)
  show "hy_meter (snd (hy_AddPeer d s)) = meter_add (session_key d) (hy_meter s)"
    unfolding hy_inv_meter [OF inv] hy_inv_meter [OF hy_AddPeer_inv [OF inv]]
    using assms(2) by (auto simp: hy_AddPeer_def hy_checkPeerData_def UUIDLen_def Let_def meter_add_def)
  obtain r s1 where rem: "hy_RemovePeer net d s = (r, s1)" by fastforce
  from rem show "hy_meter (snd (hy_RemovePeer net d s)) = (hy_meter s)(session_key d := None)"
    using hy_inv_meter [OF hy_RemovePeer_inv [OF inv rem]] hy_inv_meter [OF inv] assms(2) rem
    by (cases rule: hy_RemovePeer_cases) simp_all
  obtain r' s' where poll: "hy_Peers net s = (r', s')" by fastforce
  have inv': "hy_inv s'" using hy_Peers_inv [OF inv poll] .
  from poll show "case polled net s of
       None \<Rightarrow> \<not> is_ok (fst (hy_Peers net s)) \<and> hy_meter (snd (hy_Peers net s)) = hy_meter s
     | Some delta \<Rightarrow>
         (\<exists>items. fst (hy_Peers net s) = Inr items \<and> set items = meter_peers (meter_count delta (hy_meter s))) \<and>
         hy_meter (snd (hy_Peers net s)) = meter_count delta (hy_meter s)"
  proof (cases rule: hy_Peers_cases)
    case (failed e)
    with poll show ?thesis by (simp add: hy_inv_meter inv inv')
  next
    case (read obj delta)
    have m: "hy_traffic s' = meter_count (map_of delta) (hy_traffic s)"
      using count_deltas [OF delta_entries_distinct [OF read(2)]] read(4) by simp
    moreover have "set (map (hy_peer_of (hy_traffic s')) (hy_peers s)) = meter_peers (hy_traffic s')"
      using meter_peers_conv [of "hy_traffic s'" "hy_peers s"] inv' read(3) by (simp add: hy_inv_def)
    ultimately show ?thesis using poll read(1,6) by (simp add: hy_inv_meter inv inv')
  qed
qed

theorem hy_refines_meter_witness:
  "\<exists>s :: unit hysteria. hy_reach silent_net s \<and>
    hy_meter (snd (hy_AddPeer (replicate 16 7) s)) = meter_add (session_key (replicate 16 7)) (hy_meter s)"
proof -
  obtain s :: "unit hysteria" where s: "hy_reach silent_net s" using hy_reach_demo by blast
  with hy_refines_meter [OF s, of "replicate 16 7"] show ?thesis by auto
qed

section \<open>Default values\<close>

lemma draw_other_returns:
  assumes "RandomPort (rnd (i + k)) \<noteq> p"
  shows "\<exists>q. draw_other rnd i p = Some q \<and> q \<noteq> p \<and> q \<noteq> 0"
  using assms
proof (induction k arbitrary: i)
  case 0
  then show ?case by (simp add: draw_other.simps RandomPort_nonzero)
next
  case (Suc k)
  show ?case
  proof (cases "RandomPort (rnd i) = p")
    case True
    with Suc show ?thesis by (simp add: draw_other.simps [of rnd i])
  next
    case False
    then show ?thesis by (simp add: draw_other.simps [of rnd i] RandomPort_nonzero)
  qed
qed

text \<open>\<^verbatim>\<open>config init\<close> comes to an end as soon as the random ports are not all the same from the second
  one on, and the configuration it yields passes its own validation.\<close>

lemma hy_defaults_terminate:
  assumes "RandomPort (rnd (2 + k)) \<noteq> RandomPort (rnd 1)"
  shows "\<exists>c. hyc_WithDefaultValues rnd hy_NewConfig = Some c \<and> hyc_Validate c = ok"
proof -
  obtain q where q: "draw_other rnd 2 (RandomPort (rnd 1)) = Some q" "q \<noteq> RandomPort (rnd 1)" "q \<noteq> 0"
    using draw_other_returns [of rnd 2 k, OF assms] by blast
  then show ?thesis
    by (simp add: hyc_WithDefaultValues_def hyc_Validate_def hys_Validate_def hya_Validate_def hy_NewConfig_def
        bad_rate_def RandomPort_nonzero)
qed

end
