(* ===== verification/XRay.thy ===== *)
theory XRay
  imports Daemon Peer_Request
begin

text \<open>
  The XRAY service: \<^verbatim>\<open>services/xray/xray.go\<close>, \<^verbatim>\<open>wire.go\<close>, \<^verbatim>\<open>handshake.go\<close>, \<^verbatim>\<open>config.go\<close> and
  \<^verbatim>\<open>services/xray/types\<close>. The gRPC calls, the protobuf wire primitives the messages are written with, the
  X25519 function and the configuration file reader are parameters. The parser of the statistics answer
  returns on every input and reads back what the wire format says.
\<close>

section \<open>Configuration\<close>

record reality_config =
  xrr_ServerName :: string
  xrr_PrivateKey :: string
  xrr_PublicKey :: string
  xrr_ShortID :: string
  xrr_Fingerprint :: string

record xr_config =
  xrc_ListenPort :: "16 word"
  xrc_Security :: string
  xrc_Flow :: bool
  xrc_Reality :: reality_config
  xrc_APIPort :: "16 word"

definition SecurityTLS :: string where
  "SecurityTLS = ''tls''"

definition SecurityReality :: string where
  "SecurityReality = ''reality''"

definition InboundTag :: string where
  "InboundTag = ''vless''"

text \<open>\<^verbatim>\<open>base64.RawURLEncoding\<close>: the alphabet ends in \<^verbatim>\<open>-_\<close> and there is no padding.\<close>

definition b64url_encode :: "bytes \<Rightarrow> string" where
  "b64url_encode b =
    map (\<lambda>c. if c = CHR ''+'' then CHR ''-'' else if c = CHR ''/'' then CHR ''_'' else c)
      (filter (\<lambda>c. c \<noteq> CHR ''='') (b64_encode b))"

definition b64url_decode :: "string \<Rightarrow> bytes option" where
  "b64url_decode s =
    (let t = filter (\<lambda>c. c \<noteq> CHR 0x0A \<and> c \<noteq> CHR 0x0D) s in
     if CHR ''+'' \<in> set t \<or> CHR ''/'' \<in> set t \<or> CHR ''='' \<in> set t \<or> length t mod 4 = 1 then None
     else b64_decode (map (\<lambda>c. if c = CHR ''-'' then CHR ''+'' else if c = CHR ''_'' then CHR ''/'' else c) t @
            replicate ((4 - length t mod 4) mod 4) (CHR ''='')))"

definition xrv_Validate :: "xr_config \<Rightarrow> unit result" where
  "xrv_Validate c =
    first_error
      [(xrc_ListenPort c = 0, ''listen_port cannot be zero''),
       (xrc_Security c \<noteq> SecurityTLS \<and> xrc_Security c \<noteq> SecurityReality, ''security must be tls or reality'')]"

text \<open>\<open>x25519\<close> is the product with the base point.\<close>

definition xrr_Validate :: "(bytes \<Rightarrow> bytes result) \<Rightarrow> reality_config \<Rightarrow> unit result" where
  "xrr_Validate x25519 c =
    (if trim_space (xrr_ServerName c) = [] then Inl ''server_name cannot be empty''
     else if CHR '':'' \<in> set (xrr_ServerName c) \<or> CHR ''/'' \<in> set (xrr_ServerName c)
     then Inl ''server_name must be a host name without port or path''
     else case b64url_decode (xrr_PrivateKey c) of
       None \<Rightarrow> Inl ''private_key must be a base64url x25519 key''
     | Some private \<Rightarrow>
         if length private \<noteq> 32 then Inl ''private_key must be a base64url x25519 key''
         else (case x25519 private of
            Inl e \<Rightarrow> Inl (''invalid private_key: '' @ e)
          | Inr public \<Rightarrow>
              first_error
                [(b64url_encode public \<noteq> xrr_PublicKey c, ''public_key does not match private_key''),
                 (16 < length (xrr_ShortID c) \<or> length (xrr_ShortID c) mod 2 \<noteq> 0,
                    ''short_id must be up to 16 hex characters''),
                 (hex_decode (xrr_ShortID c) = None, ''short_id must be hex''),
                 (xrr_Fingerprint c = [], ''fingerprint cannot be empty'')]))"

definition xrr_Dest :: "reality_config \<Rightarrow> string" where
  "xrr_Dest c = xrr_ServerName c @ '':443''"

definition xrc_Validate :: "(bytes \<Rightarrow> bytes result) \<Rightarrow> xr_config \<Rightarrow> unit result" where
  "xrc_Validate x25519 c =
    (case xrv_Validate c of
       Inl e \<Rightarrow> Inl (''invalid section vless: '' @ e)
     | Inr _ \<Rightarrow>
         (case (if xrc_Security c = SecurityReality then xrr_Validate x25519 (xrc_Reality c) else ok) of
            Inl e \<Rightarrow> Inl (''invalid section reality: '' @ e)
          | Inr _ \<Rightarrow>
              if xrc_APIPort c = 0 then Inl ''invalid section api: port cannot be zero'' else ok))"

definition xr_NewConfig :: xr_config where
  "xr_NewConfig =
    \<lparr>xrc_ListenPort = 0, xrc_Security = [], xrc_Flow = False,
     xrc_Reality = \<lparr>xrr_ServerName = [], xrr_PrivateKey = [], xrr_PublicKey = [], xrr_ShortID = [], xrr_Fingerprint = []\<rparr>,
     xrc_APIPort = 0\<rparr>"

definition withStaticDefaults :: "nat \<Rightarrow> nat \<Rightarrow> xr_config \<Rightarrow> xr_config" where
  "withStaticDefaults n m c =
    c\<lparr>xrc_ListenPort := RandomPort n, xrc_Security := SecurityTLS, xrc_Flow := True,
      xrc_Reality := (xrc_Reality c)\<lparr>xrr_ServerName := ''www.apple.com'', xrr_Fingerprint := ''chrome''\<rparr>,
      xrc_APIPort := RandomPort m\<rparr>"

text \<open>The random private key and short id are arguments; \<^const>\<open>None\<close> is the panic.\<close>

definition xrc_WithDefaultValues ::
  "(bytes \<Rightarrow> bytes result) \<Rightarrow> nat \<Rightarrow> nat \<Rightarrow> bytes \<Rightarrow> bytes \<Rightarrow> xr_config \<Rightarrow> xr_config option" where
  "xrc_WithDefaultValues x25519 n m private shortID c =
    (let c1 = withStaticDefaults n m c in
     case x25519 private of
       Inl _ \<Rightarrow> None
     | Inr public \<Rightarrow>
         Some (c1\<lparr>xrc_Reality := (xrc_Reality c1)\<lparr>xrr_PrivateKey := b64url_encode private,
                   xrr_PublicKey := b64url_encode public, xrr_ShortID := hex_encode shortID\<rparr>\<rparr>))"

section \<open>The proxy's configuration\<close>

record xr_template =
  xrt_Config :: xr_config
  xrt_TLSCertPath :: string
  xrt_TLSKeyPath :: string
  xrt_LogLevel :: string
  xrt_AllowSMTP :: bool

definition xr_logLevel :: "bool \<Rightarrow> string" where
  "xr_logLevel verbose = (if verbose then ''warning'' else ''error'')"

definition xr_configText :: "xr_template \<Rightarrow> string" where
  "xr_configText t =
    (let c = xrt_Config t in
     join ''\<newline>''
     ([''{'',
       ''    \"log\": {'',
       ''        \"access\": \"none\",'',
       ''        \"loglevel\": \"'' @ xrt_LogLevel t @ ''\"'',
       ''    },'',
       ''    \"api\": {'',
       ''        \"tag\": \"api\",'',
       ''        \"services\": ['',
       ''            \"HandlerService\",'',
       ''            \"StatsService\"'',
       ''        ]'',
       ''    },'',
       ''    \"stats\": {},'',
       ''    \"policy\": {'',
       ''        \"levels\": {'',
       ''            \"0\": {'',
       ''                \"statsUserUplink\": true,'',
       ''                \"statsUserDownlink\": true'',
       ''            }'',
       ''        }'',
       ''    },'',
       ''    \"inbounds\": ['',
       ''        {'',
       ''            \"tag\": \"api\",'',
       ''            \"listen\": \"127.0.0.1\",'',
       ''            \"port\": '' @ port_str (xrc_APIPort c) @ '','',
       ''            \"protocol\": \"dokodemo-door\",'',
       ''            \"settings\": {'',
       ''                \"address\": \"127.0.0.1\"'',
       ''            }'',
       ''        },'',
       ''        {'',
       ''            \"tag\": \"vless\",'',
       ''            \"port\": '' @ port_str (xrc_ListenPort c) @ '','',
       ''            \"protocol\": \"vless\",'',
       ''            \"settings\": {'',
       ''                \"clients\": [],'',
       ''                \"decryption\": \"none\"'',
       ''            },'',
       ''            \"streamSettings\": {'',
       ''                \"network\": \"tcp\",'',
       ''                \"security\": \"'' @ xrc_Security c @ ''\",''] @
      (if xrc_Security c = ''tls'' then
        [''                \"tlsSettings\": {'',
         ''                    \"minVersion\": \"1.2\",'',
         ''                    \"certificates\": ['',
         ''                        {'',
         ''                            \"certificateFile\": \"'' @ xrt_TLSCertPath t @ ''\",'',
         ''                            \"keyFile\": \"'' @ xrt_TLSKeyPath t @ ''\"'',
         ''                        }'',
         ''                    ]'',
         ''                }'']
       else [''                \"realitySettings\": {'',
         ''                    \"show\": false,'',
         ''                    \"dest\": \"'' @ xrr_Dest (xrc_Reality c) @ ''\",'',
         ''                    \"xver\": 0,'',
         ''                    \"serverNames\": ['',
         ''                        \"'' @ xrr_ServerName (xrc_Reality c) @ ''\"'',
         ''                    ],'',
         ''                    \"privateKey\": \"'' @ xrr_PrivateKey (xrc_Reality c) @ ''\",'',
         ''                    \"shortIds\": ['',
         ''                        \"'' @ xrr_ShortID (xrc_Reality c) @ ''\"'',
         ''                    ]'',
         ''                }'']) @
      [''            }'',
       ''        }'',
       ''    ],'',
       ''    \"outbounds\": ['',
       ''        {'',
       ''            \"tag\": \"direct\",'',
       ''            \"protocol\": \"freedom\"'',
       ''        },'',
       ''        {'',
       ''            \"tag\": \"blocked\",'',
       ''            \"protocol\": \"blackhole\"'',
       ''        }'',
       ''    ],'',
       ''    \"routing\": {'',
       ''        \"domainStrategy\": \"IPIfNonMatch\",'',
       ''        \"rules\": ['',
       ''            {'',
       ''                \"type\": \"field\",'',
       ''                \"inboundTag\": ['',
       ''                    \"api\"'',
       ''                ],'',
       ''                \"outboundTag\": \"api\"'',
       ''            },'',
       ''            {'',
       ''                \"type\": \"field\",'',
       ''                \"domain\": ['',
       ''                    \"domain:'' @ BlockedLocalDomain @ ''\"'',
       ''                ],'',
       ''                \"outboundTag\": \"blocked\"'',
       ''            },''] @
      (if \<not> xrt_AllowSMTP t then
        [''            {'',
         ''                \"type\": \"field\",'',
         ''                \"network\": \"tcp\",'',
         ''                \"port\": \"'' @ itoa SMTPPort @ ''\",'',
         ''                \"outboundTag\": \"blocked\"'',
         ''            },'']
       else []) @
      [''            {'',
       ''                \"type\": \"field\",'',
       ''                \"ip\": '' @ common_JSON BlockedNetworks @ '','',
       ''                \"outboundTag\": \"blocked\"'',
       ''            }'',
       ''        ]'',
       ''    }'',
       ''}'']))"

section \<open>Messages\<close>

text \<open>The primitives of \<^verbatim>\<open>protowire\<close>: what appending a tag, a number or a length-prefixed string adds, and
  what consuming one yields, with the number of bytes it took.\<close>

record protowire =
  pw_AppendTag :: "nat \<Rightarrow> nat \<Rightarrow> bytes"
  pw_AppendVarint :: "64 word \<Rightarrow> bytes"
  pw_AppendBytes :: "bytes \<Rightarrow> bytes"
  pw_ConsumeTag :: "bytes \<Rightarrow> (nat \<times> nat \<times> nat) result"
  pw_ConsumeVarint :: "bytes \<Rightarrow> (64 word \<times> nat) result"
  pw_ConsumeBytes :: "bytes \<Rightarrow> (bytes \<times> nat) result"
  pw_ConsumeFieldValue :: "nat \<Rightarrow> nat \<Rightarrow> bytes \<Rightarrow> nat result"

abbreviation (input) VarintType :: nat where
  "VarintType \<equiv> 0"

abbreviation (input) BytesType :: nat where
  "BytesType \<equiv> 2"

definition appendString :: "protowire \<Rightarrow> nat \<Rightarrow> string \<Rightarrow> bytes" where
  "appendString pw num s =
    (if s = [] then [] else pw_AppendTag pw num BytesType @ pw_AppendBytes pw (bytes_of_string s))"

definition appendMessage :: "protowire \<Rightarrow> nat \<Rightarrow> bytes \<Rightarrow> bytes" where
  "appendMessage pw num m = pw_AppendTag pw num BytesType @ pw_AppendBytes pw m"

definition appendBool :: "protowire \<Rightarrow> nat \<Rightarrow> bool \<Rightarrow> bytes" where
  "appendBool pw num v = (if v then pw_AppendTag pw num VarintType @ pw_AppendVarint pw 1 else [])"

definition typedMessage :: "protowire \<Rightarrow> string \<Rightarrow> bytes \<Rightarrow> bytes" where
  "typedMessage pw typeName v = appendString pw 1 typeName @ appendMessage pw 2 v"

definition vlessAccount :: "protowire \<Rightarrow> string \<Rightarrow> string \<Rightarrow> string \<Rightarrow> bytes" where
  "vlessAccount pw i flow encryption = appendString pw 1 i @ appendString pw 2 flow @ appendString pw 3 encryption"

definition xr_user :: "protowire \<Rightarrow> string \<Rightarrow> bytes \<Rightarrow> bytes" where
  "xr_user pw email account = appendString pw 2 email @ appendMessage pw 3 account"

definition alterInboundRequest :: "protowire \<Rightarrow> string \<Rightarrow> bytes \<Rightarrow> bytes" where
  "alterInboundRequest pw tag operation = appendString pw 1 tag @ appendMessage pw 2 operation"

definition addUserRequest :: "protowire \<Rightarrow> string \<Rightarrow> string \<Rightarrow> string \<Rightarrow> string \<Rightarrow> bytes" where
  "addUserRequest pw tag email uuid flow =
    (let account = typedMessage pw ''xray.proxy.vless.Account'' (vlessAccount pw uuid flow ''none'');
         operation = appendMessage pw 1 (xr_user pw email account)
     in alterInboundRequest pw tag (typedMessage pw ''xray.app.proxyman.command.AddUserOperation'' operation))"

definition removeUserRequest :: "protowire \<Rightarrow> string \<Rightarrow> string \<Rightarrow> bytes" where
  "removeUserRequest pw tag email =
    alterInboundRequest pw tag
      (typedMessage pw ''xray.app.proxyman.command.RemoveUserOperation'' (appendString pw 1 email))"

definition queryStatsRequest :: "protowire \<Rightarrow> string \<Rightarrow> bool \<Rightarrow> bytes" where
  "queryStatsRequest pw pattern reset = appendString pw 1 pattern @ appendBool pw 2 reset"

text \<open>The loops that read a message. A loop that does not end is \<^const>\<open>None\<close>.\<close>

partial_function (option) parseStat ::
  "protowire \<Rightarrow> bytes \<Rightarrow> string \<Rightarrow> int \<Rightarrow> (string \<times> int) result option" where
  "parseStat pw b name v =
    (if b = [] then Some (Inr (name, v))
     else case pw_ConsumeTag pw b of
       Inl e \<Rightarrow> Some (Inl e)
     | Inr (num, typ, n) \<Rightarrow>
         (let b1 = drop n b in
          if num = 1 \<and> typ = BytesType then
            (case pw_ConsumeBytes pw b1 of
               Inl e \<Rightarrow> Some (Inl e)
             | Inr (s, m) \<Rightarrow> parseStat pw (drop m b1) (string_of_bytes s) v)
          else if num = 2 \<and> typ = VarintType then
            (case pw_ConsumeVarint pw b1 of
               Inl e \<Rightarrow> Some (Inl e)
             | Inr (x, m) \<Rightarrow> parseStat pw (drop m b1) name (sint x))
          else
            (case pw_ConsumeFieldValue pw num typ b1 of
               Inl e \<Rightarrow> Some (Inl e)
             | Inr m \<Rightarrow> parseStat pw (drop m b1) name v)))"

partial_function (option) parseQueryStats ::
  "protowire \<Rightarrow> bytes \<Rightarrow> (string \<rightharpoonup> int) \<Rightarrow> (string \<rightharpoonup> int) result option" where
  "parseQueryStats pw b stats =
    (if b = [] then Some (Inr stats)
     else case pw_ConsumeTag pw b of
       Inl e \<Rightarrow> Some (Inl e)
     | Inr (num, typ, n) \<Rightarrow>
         (let b1 = drop n b in
          if num \<noteq> 1 \<or> typ \<noteq> BytesType then
            (case pw_ConsumeFieldValue pw num typ b1 of
               Inl e \<Rightarrow> Some (Inl e)
             | Inr m \<Rightarrow> parseQueryStats pw (drop m b1) stats)
          else
            (case pw_ConsumeBytes pw b1 of
               Inl e \<Rightarrow> Some (Inl e)
             | Inr (stat, m) \<Rightarrow>
                 Option.bind (parseStat pw stat [] 0) (\<lambda>r.
                   case r of
                     Inl e \<Rightarrow> Some (Inl e)
                   | Inr (name, v) \<Rightarrow> parseQueryStats pw (drop m b1) (stats(name \<mapsto> v))))))"

definition parseQueryStatsResponse :: "protowire \<Rightarrow> bytes \<Rightarrow> (string \<rightharpoonup> int) result option" where
  "parseQueryStatsResponse pw b = parseQueryStats pw b Map.empty"

section \<open>The service\<close>

record 'o xray =
  xr_info :: bytes
  xr_process :: "child option"
  xr_conf :: xr_config
  xr_peers :: peer_set
  xr_tlsPin :: string
  xr_configPath :: string
  xr_conn :: bool
  xr_world :: 'o

definition NewXRay :: "'o \<Rightarrow> 'o xray" where
  "NewXRay w =
    \<lparr>xr_info = replicate 5 0, xr_process = None, xr_conf = xr_NewConfig, xr_peers = [], xr_tlsPin = [],
     xr_configPath = [], xr_conn = False, xr_world = w\<rparr>"

text \<open>A unary call: method and request, the reply's bytes.\<close>

record 'o xr_api = "'o grpc" +
  xa_Invoke :: "string \<Rightarrow> bytes \<Rightarrow> 'o \<Rightarrow> bytes result \<times> 'o"

text \<open>The TLS part of \<^verbatim>\<open>Init\<close>: the pin, and the copies of the certificate and the key.\<close>

definition xr_tls ::
  "'o host \<Rightarrow> pki \<Rightarrow> runtime \<Rightarrow> string \<Rightarrow> 'o xray \<Rightarrow> (string \<times> string) result \<times> 'o xray" where
  "xr_tls h pk rt home s =
    (case CertificatePin h pk (filepath_Join [home, ''tls.crt'']) (xr_world s) of
       Inl e \<Rightarrow> (Inl e, s)
     | Inr pin \<Rightarrow>
         let s1 = s\<lparr>xr_tlsPin := pin\<rparr> in
         if \<not> h_Stat h (filepath_Join [home, ''tls.key'']) (xr_world s) then (Inl ''tls key'', s1)
         else case TLSFiles h rt home (xr_world s) of (r, w) \<Rightarrow> (r, s1\<lparr>xr_world := w\<rparr>))"

definition xr_Init ::
  "'o host \<Rightarrow> pki \<Rightarrow> (bytes \<Rightarrow> bytes result) \<Rightarrow> (string \<Rightarrow> 'o \<Rightarrow> xr_config result) \<Rightarrow> runtime \<Rightarrow>
    egress_policy \<Rightarrow> bool \<Rightarrow> string \<Rightarrow> 'o xray \<Rightarrow> unit result \<times> 'o xray" where
  "xr_Init h pk x25519 read rt pol verbose home s =
    (case h_LookPath h ''xray'' (xr_world s) of
       Inl e \<Rightarrow> (Inl ''the xray binary is not on PATH'', s)
     | Inr _ \<Rightarrow>
     (case read (filepath_Join [home, ''xray.toml'']) (xr_world s) of
       Inl e \<Rightarrow> (Inl e, s)
     | Inr c \<Rightarrow>
     (case xrc_Validate x25519 c of
       Inl e \<Rightarrow> (Inl e, s\<lparr>xr_conf := c\<rparr>)
     | Inr _ \<Rightarrow>
     (let tls = (xrc_Security c = SecurityTLS);
          s1 = s\<lparr>xr_conf := c\<rparr>
      in case (if tls then xr_tls h pk rt home s1
               else (Inr (filepath_Join [home, ''tls.crt''], filepath_Join [home, ''tls.key'']), s1)) of
       (Inl e, s2) \<Rightarrow> (Inl e, s2)
     | (Inr (cert, key), s2) \<Rightarrow>
     (case rt_WriteFile h rt ''xray_config.json''
             (xr_configText \<lparr>xrt_Config = c, xrt_TLSCertPath = cert, xrt_TLSKeyPath = key,
                             xrt_LogLevel = xr_logLevel verbose, xrt_AllowSMTP = eg_AllowSMTP pol\<rparr>) (xr_world s2) of
       (Inl e, w) \<Rightarrow> (Inl e, s2\<lparr>xr_configPath := [], xr_world := w\<rparr>)
     | (Inr path, w) \<Rightarrow>
         (ok, s2\<lparr>xr_configPath := path, xr_world := w,
                 xr_info := be_bytes 2 (unat (xrc_ListenPort c)) @ [1, 1, if tls then 2 else 3]\<rparr>))))))"

definition xr_Start :: "'o host \<Rightarrow> egress_policy \<Rightarrow> runtime \<Rightarrow> 'o xray \<Rightarrow> unit result \<times> 'o xray" where
  "xr_Start h pol rt s =
    (case StartProxy h pol rt ''xray'' [''run'', ''-config'', xr_configPath s] []
            (xrc_ListenPort (xr_conf s)) [] (xr_world s) of
       (Inl e, w) \<Rightarrow> (Inl e, s\<lparr>xr_process := None, xr_world := w\<rparr>)
     | (Inr p, w) \<Rightarrow> (ok, s\<lparr>xr_process := Some p, xr_world := w\<rparr>))"

definition xr_Stop :: "'o host \<Rightarrow> 'o process_ops \<Rightarrow> 'o xr_api \<Rightarrow> 'o xray \<Rightarrow> unit result \<times> 'o xray" where
  "xr_Stop h po api s =
    (let w = (if xr_conn s then gr_Close api (xr_world s) else xr_world s) in
     case Process_Stop h po (xr_process s) w of (r, w') \<Rightarrow> (r, s\<lparr>xr_conn := False, xr_world := w'\<rparr>))"

definition xr_clientConn :: "'o xr_api \<Rightarrow> 'o xray \<Rightarrow> unit result \<times> 'o xray" where
  "xr_clientConn api s =
    (if xr_conn s then (ok, s)
     else case gr_NewClient api (''127.0.0.1:'' @ port_str (xrc_APIPort (xr_conf s))) (xr_world s) of
       (Inl e, w) \<Rightarrow> (Inl e, s\<lparr>xr_world := w\<rparr>)
     | (Inr _, w) \<Rightarrow> (ok, s\<lparr>xr_conn := True, xr_world := w\<rparr>))"

text \<open>A call over the connection, opened on first use.\<close>

definition xr_invoke :: "'o xr_api \<Rightarrow> string \<Rightarrow> bytes \<Rightarrow> 'o xray \<Rightarrow> bytes result \<times> 'o xray" where
  "xr_invoke api method req s =
    (case xr_clientConn api s of
       (Inl e, s1) \<Rightarrow> (Inl e, s1)
     | (Inr _, s1) \<Rightarrow> (case xa_Invoke api method req (xr_world s1) of (r, w) \<Rightarrow> (r, s1\<lparr>xr_world := w\<rparr>)))"

definition methodAlterInbound :: string where
  "methodAlterInbound = ''/xray.app.proxyman.command.HandlerService/AlterInbound''"

definition methodQueryStats :: string where
  "methodQueryStats = ''/xray.app.stats.command.StatsService/QueryStats''"

definition flowVision :: string where
  "flowVision = ''xtls-rprx-vision''"

definition xr_checkPeerData :: "bytes \<Rightarrow> unit result" where
  "xr_checkPeerData d =
    (if length d \<noteq> 1 + UUIDLen \<or> d ! 0 \<noteq> 1
     then Inl ''peer data must be the VLESS byte followed by a 16-byte uuid'' else ok)"

definition xr_AddPeer :: "protowire \<Rightarrow> 'o xr_api \<Rightarrow> bytes \<Rightarrow> 'o xray \<Rightarrow> bytes result \<times> 'o xray" where
  "xr_AddPeer pw api d s =
    (case xr_checkPeerData d of
       Inl e \<Rightarrow> (Inl e, s)
     | Inr _ \<Rightarrow>
         let flow = (if xrc_Flow (xr_conf s) then flowVision else []); key = session_key d in
         (case xr_invoke api methodAlterInbound
                 (addUserRequest pw InboundTag key (FormatUUID (tl d)) flow) s of
            (Inl e, s1) \<Rightarrow> (Inl e, s1)
          | (Inr _, s1) \<Rightarrow> (Inr [], s1\<lparr>xr_peers := ps_Put key (xr_peers s1)\<rparr>)))"

definition xr_HasPeer :: "bytes \<Rightarrow> 'o xray \<Rightarrow> bool" where
  "xr_HasPeer d s = ps_Has (session_key d) (xr_peers s)"

text \<open>An error of the connection itself is returned as it is; one of the call is overlooked when it says
  that the user is not found.\<close>

definition xr_RemovePeer :: "protowire \<Rightarrow> 'o xr_api \<Rightarrow> bytes \<Rightarrow> 'o xray \<Rightarrow> unit result \<times> 'o xray" where
  "xr_RemovePeer pw api d s =
    (case xr_checkPeerData d of
       Inl e \<Rightarrow> (Inl e, s)
     | Inr _ \<Rightarrow>
         (case xr_clientConn api s of
            (Inl e, s1) \<Rightarrow> (Inl e, s1)
          | (Inr _, s1) \<Rightarrow>
              let key = session_key d in
              (case xr_invoke api methodAlterInbound (removeUserRequest pw InboundTag key) s1 of
                 (Inl e, s2) \<Rightarrow>
                   if contains_str e ''not found'' then (ok, s2\<lparr>xr_peers := ps_Delete key (xr_peers s2)\<rparr>)
                   else (Inl e, s2)
               | (Inr _, s2) \<Rightarrow> (ok, s2\<lparr>xr_peers := ps_Delete key (xr_peers s2)\<rparr>))))"

definition stat_name :: "string \<Rightarrow> string \<Rightarrow> string" where
  "stat_name key link = ''user>>>'' @ key @ ''>>>traffic>>>'' @ link"

definition counter :: "(string \<rightharpoonup> int) \<Rightarrow> string \<Rightarrow> int" where
  "counter m k = (case m k of None \<Rightarrow> 0 | Some v \<Rightarrow> v)"

text \<open>\<^const>\<open>None\<close> when the answer is never read to its end.\<close>

definition xr_Peers_opt :: "protowire \<Rightarrow> 'o xr_api \<Rightarrow> 'o xray \<Rightarrow> (peer list result \<times> 'o xray) option" where
  "xr_Peers_opt pw api s =
    (case xr_invoke api methodQueryStats (queryStatsRequest pw ''user>>>'' False) s of
       (Inl e, s1) \<Rightarrow> Some (Inl e, s1)
     | (Inr res, s1) \<Rightarrow>
         Option.bind (parseQueryStatsResponse pw res) (\<lambda>r.
           case r of
             Inl e \<Rightarrow> Some (Inl e, s1)
           | Inr counters \<Rightarrow>
               Some (Inr (map (\<lambda>key. \<lparr>peer_Key = key, peer_Upload = counter counters (stat_name key ''uplink''),
                                      peer_Download = counter counters (stat_name key ''downlink'')\<rparr>)
                            (ps_Keys (xr_peers s1))), s1)))"

text \<open>The operation itself. That the answer is always read to its end is a lemma below; the first branch
  is never taken.\<close>

definition xr_Peers :: "protowire \<Rightarrow> 'o xr_api \<Rightarrow> 'o xray \<Rightarrow> peer list result \<times> 'o xray" where
  "xr_Peers pw api s =
    (case xr_Peers_opt pw api s of None \<Rightarrow> (Inl ''not read to its end'', s) | Some r \<Rightarrow> r)"

definition xr_PeerCount :: "'o xray \<Rightarrow> nat" where
  "xr_PeerCount s = ps_Len (xr_peers s)"

definition xr_service :: "protowire \<Rightarrow> 'o xr_api \<Rightarrow> 'o xray service" where
  "xr_service pw api =
    \<lparr>svc_AddPeer = xr_AddPeer pw api, svc_HasPeer = xr_HasPeer, svc_RemovePeer = xr_RemovePeer pw api,
     svc_Peers = xr_Peers pw api, svc_PeerCount = xr_PeerCount\<rparr>"

section \<open>What a client receives\<close>

definition xr_ListenPort :: "'o xray \<Rightarrow> 16 word" where
  "xr_ListenPort s = be16 (xr_info s)"

definition xr_inbound :: "'o xray \<Rightarrow> inbound" where
  "xr_inbound s =
    (let c = xr_conf s; sec = uint (xr_info s ! 4);
         entry = zero_inbound\<lparr>in_Port := xr_ListenPort s, in_ProxyProtocol := ProxyProtocolVLESS,
           in_TransportProtocol := TransportProtocolTCP, in_TransportSecurity := sec,
           in_Flow := (if xrc_Flow c then FlowVision else FlowNone)\<rparr>
     in if sec = TransportSecurityTLS then entry\<lparr>in_TLSPin := xr_tlsPin s\<rparr>
        else if sec = TransportSecurityReality then
          entry\<lparr>in_RealityServerName := xrr_ServerName (xrc_Reality c), in_RealityShortID := xrr_ShortID (xrc_Reality c),
            in_RealityPublicKey := xrr_PublicKey (xrc_Reality c), in_RealityFingerprint := xrr_Fingerprint (xrc_Reality c)\<rparr>
        else entry)"

definition xr_HandshakePayload :: "'o xray \<Rightarrow> bytes \<Rightarrow> inbound list result" where
  "xr_HandshakePayload s _ = Inr [xr_inbound s]"

text \<open>The public entry has the codes and the flow only.\<close>

definition xr_PublicMetadata :: "'o xray \<Rightarrow> inbound list" where
  "xr_PublicMetadata s =
    (let i = xr_inbound s in
     [zero_inbound\<lparr>in_ProxyProtocol := in_ProxyProtocol i, in_TransportProtocol := in_TransportProtocol i,
        in_TransportSecurity := in_TransportSecurity i, in_Flow := in_Flow i\<rparr>])"

section \<open>The contract\<close>

lemma xr_clientConn_keeps: "xr_clientConn api s = (r, s') \<Longrightarrow> xr_peers s' = xr_peers s"
  by (auto simp: xr_clientConn_def split: if_splits prod.splits sum.splits)

lemma xr_invoke_keeps: "xr_invoke api m req s = (r, s') \<Longrightarrow> xr_peers s' = xr_peers s"
  by (auto simp: xr_invoke_def dest: xr_clientConn_keeps split: prod.splits sum.splits)

lemma xr_AddPeer_peers:
  "xr_AddPeer pw api d s = (r, s') \<Longrightarrow>
    xr_peers s' = (if is_ok r then ps_Put (session_key d) (xr_peers s) else xr_peers s)"
  by (auto simp: xr_AddPeer_def Let_def dest!: xr_invoke_keeps split: prod.splits sum.splits)

lemma xr_RemovePeer_peers:
  assumes "xr_RemovePeer pw api d s = (r, s')"
  shows "xr_peers s' = ps_Delete (session_key d) (xr_peers s) \<or> \<not> is_ok r \<and> xr_peers s' = xr_peers s"
proof (cases "xr_checkPeerData d")
  case (Inl e)
  from assms show ?thesis unfolding xr_RemovePeer_def Inl by auto
next
  case (Inr u)
  with assms show ?thesis
    by (auto simp: xr_RemovePeer_def Let_def dest!: xr_invoke_keeps xr_clientConn_keeps
        split: prod.splits sum.splits if_splits)
qed

lemma xr_Peers_peers: "xr_Peers pw api s = (r, s') \<Longrightarrow> xr_peers s' = xr_peers s"
  by (auto simp: xr_Peers_def xr_Peers_opt_def dest!: xr_invoke_keeps split: prod.splits sum.splits option.splits bind_splits)

interpretation xr: peer_set_service "xr_service pw api" xr_peers
  for pw api
  by unfold_locales
    (simp_all add: xr_service_def xr_HasPeer_def xr_PeerCount_def xr_AddPeer_peers xr_RemovePeer_peers xr_Peers_peers)

section \<open>Reading the statistics\<close>

text \<open>What the wire primitives are documented to do: consuming undoes appending, whatever follows, and a
  tag takes at least one byte. Field numbers have 29 bits and wire types three.\<close>

definition protowire_doc :: "protowire \<Rightarrow> bool" where
  "protowire_doc pw \<longleftrightarrow>
    (\<forall>num typ rest. 1 \<le> num \<and> num < 2 ^ 29 \<and> typ < 8 \<longrightarrow>
      pw_ConsumeTag pw (pw_AppendTag pw num typ @ rest) = Inr (num, typ, length (pw_AppendTag pw num typ))) \<and>
    (\<forall>v rest. pw_ConsumeVarint pw (pw_AppendVarint pw v @ rest) = Inr (v, length (pw_AppendVarint pw v))) \<and>
    (\<forall>m rest. pw_ConsumeBytes pw (pw_AppendBytes pw m @ rest) = Inr (m, length (pw_AppendBytes pw m))) \<and>
    (\<forall>b num typ n. pw_ConsumeTag pw b = Inr (num, typ, n) \<longrightarrow> 0 < n \<and> n \<le> length b)"

lemma protowire_docD:
  assumes "protowire_doc pw"
  shows "1 \<le> num \<Longrightarrow> num < 2 ^ 29 \<Longrightarrow> typ < 8 \<Longrightarrow>
      pw_ConsumeTag pw (pw_AppendTag pw num typ @ rest) = Inr (num, typ, length (pw_AppendTag pw num typ))"
    and "pw_ConsumeVarint pw (pw_AppendVarint pw v @ rest) = Inr (v, length (pw_AppendVarint pw v))"
    and "pw_ConsumeBytes pw (pw_AppendBytes pw m @ rest) = Inr (m, length (pw_AppendBytes pw m))"
    and "pw_ConsumeTag pw b = Inr (num, typ, n) \<Longrightarrow> 0 < n \<and> n \<le> length b"
  using assms unfolding protowire_doc_def by blast+

lemma parseStat_returns:
  assumes "protowire_doc pw"
  shows "\<exists>r. parseStat pw b name v = Some r"
proof (induction "length b" arbitrary: b name v rule: less_induct)
  case less
  have ih: "\<exists>r. parseStat pw (drop (m + n) b) name' v' = Some r" if "pw_ConsumeTag pw b = Inr (num, t, n)"
    for num t n m name' v'
    using protowire_docD(4) [OF assms that] by (intro less.hyps) (simp, arith)
  show ?case
    by (subst parseStat.simps)
      (auto simp: Let_def split: sum.split prod.split intro: ih)
qed

lemma parseQueryStats_returns:
  assumes "protowire_doc pw"
  shows "\<exists>r. parseQueryStats pw b stats = Some r"
proof (induction "length b" arbitrary: b stats rule: less_induct)
  case less
  have ih: "\<exists>r. parseQueryStats pw (drop (m + n) b) stats' = Some r" if "pw_ConsumeTag pw b = Inr (num, t, n)"
    for num t n m stats'
    using protowire_docD(4) [OF assms that] by (intro less.hyps) (simp, arith)
  have stat: "\<exists>r. Option.bind (parseStat pw x [] 0) f = Some r" if "\<And>y. \<exists>r. f y = Some r"
    for x and f :: "(string \<times> int) result \<Rightarrow> (string \<rightharpoonup> int) result option"
    using parseStat_returns [OF assms, of x "[]" 0] that by auto
  show ?case
    by (subst parseQueryStats.simps)
      (auto simp: Let_def split: sum.split prod.split intro!: stat ih)
qed

text \<open>C35: the reader of the statistics answer returns on every sequence of bytes the proxy may send, well
  formed or not, so a poll never hangs on an answer.\<close>

theorem xr_stats_terminate:
  assumes "protowire_doc pw"
  shows "\<exists>r. parseQueryStatsResponse pw b = Some r"
  unfolding parseQueryStatsResponse_def by (rule parseQueryStats_returns [OF assms])

text \<open>The answer as the proxy writes it: a message per counter, with its name and its value, fields with
  the default value left out.\<close>

definition stat_bytes :: "protowire \<Rightarrow> string \<times> int \<Rightarrow> bytes" where
  "stat_bytes pw = (\<lambda>(name, v). appendString pw 1 name @
    (if v = 0 then [] else pw_AppendTag pw 2 VarintType @ pw_AppendVarint pw (of_int v)))"

definition stats_bytes :: "protowire \<Rightarrow> (string \<times> int) list \<Rightarrow> bytes" where
  "stats_bytes pw stats = concat (map (\<lambda>s. appendMessage pw 1 (stat_bytes pw s)) stats)"

lemma AppendTag_nonempty:
  assumes "protowire_doc pw" "1 \<le> num" "num < 2 ^ 29" "typ < 8"
  shows "pw_AppendTag pw num typ \<noteq> []"
  using protowire_docD(4) [OF assms(1) protowire_docD(1) [OF assms, of "[]"]] by auto

lemma sint_of_int64: "in_i64 v \<Longrightarrow> sint (of_int v :: 64 word) = v"
  unfolding sint_sbintrunc' in_i64_def by (subst signed_take_bit_int_eq_self) simp_all

lemma parseStat_value:
  assumes "protowire_doc pw" "in_i64 v"
  shows "parseStat pw (if v = 0 then [] else pw_AppendTag pw 2 VarintType @ pw_AppendVarint pw (of_int v)) name 0 =
    Some (Inr (name, v))"
proof (cases "v = 0")
  case False
  note tag = protowire_docD(1) [OF assms(1), of 2 VarintType "pw_AppendVarint pw (of_int v)"]
  note var = protowire_docD(2) [OF assms(1), of "of_int v" "[]"]
  have "parseStat pw (pw_AppendTag pw 2 VarintType @ pw_AppendVarint pw (of_int v)) name 0 = parseStat pw [] name v"
    by (subst parseStat.simps)
      (use tag var AppendTag_nonempty [OF assms(1), of 2 VarintType] in \<open>simp add: Let_def sint_of_int64 assms(2)\<close>)
  also have "\<dots> = Some (Inr (name, v))" by (simp add: parseStat.simps)
  finally show ?thesis using False by simp
qed (simp add: parseStat.simps)

lemma string_of_bytes_of_string [simp]: "string_of_bytes (bytes_of_string s) = s"
proof -
  have "char_of (unat (of_nat (of_char c) :: byte)) = c" for c :: char
    by (simp add: unat_of_nat)
  then show ?thesis by (simp add: string_of_bytes_def bytes_of_string_def comp_def)
qed

lemma parseStat_bytes:
  assumes "protowire_doc pw" "in_i64 v"
  shows "parseStat pw (stat_bytes pw (name, v)) [] 0 = Some (Inr (name, v))"
proof (cases "name = []")
  case True
  then show ?thesis using parseStat_value [OF assms, of "[]"] by (simp add: stat_bytes_def appendString_def)
next
  case False
  let ?rest = "if v = 0 then [] else pw_AppendTag pw 2 VarintType @ pw_AppendVarint pw (of_int v)"
  let ?name = "bytes_of_string name"
  note tag = protowire_docD(1) [OF assms(1), of 1 BytesType "pw_AppendBytes pw ?name @ ?rest"]
  note str = protowire_docD(3) [OF assms(1), of ?name ?rest]
  have "parseStat pw (stat_bytes pw (name, v)) [] 0 = parseStat pw ?rest name 0"
    unfolding stat_bytes_def appendString_def
    by (subst parseStat.simps)
      (use False tag str AppendTag_nonempty [OF assms(1), of 1 BytesType] in \<open>simp add: Let_def\<close>)
  with parseStat_value [OF assms] show ?thesis by simp
qed

lemma parseQueryStats_bytes:
  assumes "protowire_doc pw" "\<forall>(n, v) \<in> set stats. in_i64 v"
  shows "parseQueryStats pw (stats_bytes pw stats) m = Some (Inr (m ++ map_of (rev stats)))"
  using assms(2)
proof (induction stats arbitrary: m)
  case Nil
  show ?case by (simp add: stats_bytes_def parseQueryStats.simps)
next
  case (Cons s stats)
  obtain n v where s: "s = (n, v)" by (meson surj_pair)
  let ?rest = "stats_bytes pw stats" and ?st = "stat_bytes pw (n, v)"
  note tag = protowire_docD(1) [OF assms(1), of 1 BytesType "pw_AppendBytes pw ?st @ ?rest"]
  note str = protowire_docD(3) [OF assms(1), of ?st ?rest]
  have eq: "stats_bytes pw (s # stats) = pw_AppendTag pw 1 BytesType @ pw_AppendBytes pw ?st @ ?rest"
    by (simp add: stats_bytes_def appendMessage_def s)
  have "parseStat pw ?st [] 0 = Some (Inr (n, v))"
    using parseStat_bytes [OF assms(1)] Cons.prems s by simp
  then have "parseQueryStats pw (stats_bytes pw (s # stats)) m = parseQueryStats pw ?rest (m(n \<mapsto> v))"
    unfolding eq
    by (subst parseQueryStats.simps)
      (use tag str AppendTag_nonempty [OF assms(1), of 1 BytesType] in \<open>simp add: Let_def\<close>)
  also have "\<dots> = Some (Inr (m(n \<mapsto> v) ++ map_of (rev stats)))" using Cons by (simp add: s)
  also have "m(n \<mapsto> v) ++ map_of (rev stats) = m ++ map_of (rev (s # stats))"
    by (simp add: s)
  finally show ?case .
qed


section \<open>An implementation of the wire format\<close>

text \<open>Base-128 numbers, least significant group first, which meets \<^const>\<open>protowire_doc\<close>.\<close>

fun uvarint :: "nat \<Rightarrow> bytes" where
  "uvarint n = (if n < 128 then [of_nat n] else of_nat (n mod 128 + 128) # uvarint (n div 128))"

declare uvarint.simps [simp del]

fun read_uvarint :: "bytes \<Rightarrow> (nat \<times> nat) option" where
  "read_uvarint [] = None"
| "read_uvarint (b # bs) =
    (if b < 128 then Some (unat b, 1)
     else case read_uvarint bs of None \<Rightarrow> None | Some (v, k) \<Rightarrow> Some (unat b - 128 + 128 * v, Suc k))"

lemma byte_less_128: "n < 256 \<Longrightarrow> (of_nat n :: byte) < 128 \<longleftrightarrow> n < 128"
  by (simp add: word_less_nat_alt unat_of_nat)

lemma read_uvarint_append: "read_uvarint (uvarint n @ rest) = Some (n, length (uvarint n))"
proof (induction n rule: uvarint.induct)
  case (1 n)
  show ?case
  proof (cases "n < 128")
    case True
    then show ?thesis using byte_less_128 [of n] by (simp add: uvarint.simps [of n] unat_of_nat)
  next
    case False
    define b :: byte where "b = of_nat (n mod 128 + 128)"
    have b: "unat b = n mod 128 + 128" "\<not> b < 128"
      unfolding b_def using byte_less_128 [of "n mod 128 + 128"] by (simp_all add: unat_of_nat del: of_nat_add)
    have "uvarint n = b # uvarint (n div 128)" using False by (simp add: uvarint.simps [of n] b_def)
    with False "1.IH" b show ?thesis by simp
  qed
qed

lemma read_uvarint_length: "read_uvarint b = Some (v, k) \<Longrightarrow> 0 < k \<and> k \<le> length b"
  by (induction b arbitrary: v k) (auto split: if_splits option.splits)

definition varint_wire :: protowire where
  "varint_wire =
    (let num = (\<lambda>b. case read_uvarint b of None \<Rightarrow> Inl ''unexpected EOF'' | Some p \<Rightarrow> Inr p);
         str = (\<lambda>b. rbind (num b) (\<lambda>(v, k).
                  if length b < k + v then Inl ''unexpected EOF'' else Inr (take v (drop k b), k + v)))
     in \<lparr>pw_AppendTag = (\<lambda>n t. uvarint (8 * n + t)),
         pw_AppendVarint = (\<lambda>v. uvarint (unat v)),
         pw_AppendBytes = (\<lambda>m. uvarint (length m) @ m),
         pw_ConsumeTag = (\<lambda>b. rbind (num b) (\<lambda>(v, k). Inr (v div 8, v mod 8, k))),
         pw_ConsumeVarint = (\<lambda>b. rbind (num b) (\<lambda>(v, k). Inr (of_nat v, k))),
         pw_ConsumeBytes = str,
         pw_ConsumeFieldValue = (\<lambda>_ t b.
           if t = VarintType then rbind (num b) (\<lambda>(v, k). Inr k)
           else if t = BytesType then rbind (str b) (\<lambda>(v, k). Inr k) else Inl ''cannot parse'')\<rparr>)"

lemma varint_wire_doc: "protowire_doc varint_wire"
  unfolding protowire_doc_def varint_wire_def Let_def
  by (auto simp: read_uvarint_append rbind_def dest: read_uvarint_length split: option.splits)

theorem xr_stats_terminate_witness: "\<exists>r. parseQueryStatsResponse varint_wire [0xFF, 0x01] = Some r"
  by (rule xr_stats_terminate [OF varint_wire_doc])

definition demo_xr_stats :: "(string \<times> int) list" where
  "demo_xr_stats = [(stat_name ''AQ=='' ''uplink'', 5), (stat_name ''AQ=='' ''downlink'', 9)]"

definition demo_xr_api :: "unit xr_api" where
  "demo_xr_api =
    \<lparr>gr_NewClient = (\<lambda>_ w. (ok, w)), gr_Close = (\<lambda>w. w),
     xa_Invoke = (\<lambda>_ _ w. (Inr (stats_bytes varint_wire demo_xr_stats), w))\<rparr>"


end
