(* ===== verification/V2Ray.thy ===== *)
theory V2Ray
  imports Daemon Peer_Request
begin

text \<open>
  The V2Ray service: \<^verbatim>\<open>services/v2ray/v2ray.go\<close>, \<^verbatim>\<open>handshake.go\<close>, \<^verbatim>\<open>config.go\<close> and \<^verbatim>\<open>services/v2ray/types\<close>.
  The calls to the proxy's control API, the textual form of a UUID in the proxy's library and the
  configuration file reader are parameters.
\<close>

section \<open>Proxies and transports\<close>

type_synonym transport = byte

definition transport_String :: "transport \<Rightarrow> string" where
  "transport_String t =
    (if t = 1 then ''tcp'' else if t = 2 then ''mkcp'' else if t = 3 then ''websocket''
     else if t = 4 then ''http'' else if t = 5 then ''domainsocket'' else if t = 6 then ''quic''
     else if t = 7 then ''gun'' else if t = 8 then ''grpc'' else [])"

definition transport_IsValid :: "transport \<Rightarrow> bool" where
  "transport_IsValid t \<longleftrightarrow> transport_String t \<noteq> []"

definition NewTransportFromString :: "string \<Rightarrow> transport" where
  "NewTransportFromString v =
    (if v = ''tcp'' then 1 else if v = ''mkcp'' then 2 else if v = ''websocket'' then 3
     else if v = ''httpt'' then 4 else if v = ''domainsocket'' then 5 else if v = ''quic'' then 6
     else if v = ''gun'' then 7 else if v = ''grpc'' then 8 else 0)"

definition proxy_String :: "byte \<Rightarrow> string" where
  "proxy_String p = (if p = 1 then ''vmess'' else [])"

definition proxy_Tag :: "byte \<Rightarrow> string" where
  "proxy_Tag p = proxy_String p"

text \<open>The account of a user, which only the VMess proxy has: its id, the alternative id 0, automatic
  security, no tests.\<close>

record vmess_account =
  va_Id :: string
  va_AlterId :: nat
  va_Security :: string
  va_TestsEnabled :: string

definition proxy_Account :: "byte \<Rightarrow> string \<Rightarrow> vmess_account option" where
  "proxy_Account p uid =
    (if p = 1 then Some \<lparr>va_Id = uid, va_AlterId = 0, va_Security = ''AUTO'', va_TestsEnabled = []\<rparr> else None)"

section \<open>Configuration\<close>

record v2_config =
  v2c_Security :: string
  v2c_TLSCertPath :: string
  v2c_TLSKeyPath :: string
  v2c_ListenPort :: "16 word"
  v2c_TLS :: bool
  v2c_Transport :: string
  v2c_APIPort :: "16 word"

definition v2_NewConfig :: v2_config where
  "v2_NewConfig =
    \<lparr>v2c_Security = [], v2c_TLSCertPath = [], v2c_TLSKeyPath = [], v2c_ListenPort = 0, v2c_TLS = False,
     v2c_Transport = [], v2c_APIPort = 0\<rparr>"

definition vmess_WithDefaultValues :: "nat \<Rightarrow> v2_config \<Rightarrow> v2_config" where
  "vmess_WithDefaultValues n c =
    c\<lparr>v2c_ListenPort := RandomPort n, v2c_TLS := False, v2c_Transport := ''tcp''\<rparr>"

definition vmess_Validate :: "v2_config \<Rightarrow> unit result" where
  "vmess_Validate c =
    first_error
      [(v2c_ListenPort c = 0, ''listen_port cannot be zero''),
       (v2c_Transport c = [], ''transport cannot be empty''),
       (\<not> transport_IsValid (NewTransportFromString (v2c_Transport c)), ''invalid transport'')]"

definition v2c_Validate :: "v2_config \<Rightarrow> unit result" where
  "v2c_Validate c =
    (case vmess_Validate c of
       Inl e \<Rightarrow> Inl (''invalid section vmess: '' @ e)
     | Inr _ \<Rightarrow>
         first_error
           [(v2c_APIPort c = 0, ''invalid section api: port cannot be zero''),
            (v2c_APIPort c = v2c_ListenPort c, ''api port must differ from the vmess listen_port'')])"

definition v2c_WithDefaultValues :: "nat \<Rightarrow> nat \<Rightarrow> v2_config \<Rightarrow> v2_config" where
  "v2c_WithDefaultValues n m c = (vmess_WithDefaultValues n c)\<lparr>v2c_APIPort := RandomPort m\<rparr>"

definition v2_configText :: "v2_config \<Rightarrow> bool \<Rightarrow> string" where
  "v2_configText c allowSMTP =
    join ''\<newline>''
     ([''{'',
      ''    \"api\": {'',
      ''        \"services\": ['',
      ''            \"HandlerService\",'',
      ''            \"StatsService\"'',
      ''        ],'',
      ''        \"tag\": \"api\"'',
      ''    },'',
      ''    \"inbounds\": ['',
      ''        {'',
      ''            \"listen\": \"127.0.0.1\",'',
      ''            \"port\": '' @ port_str (v2c_APIPort c) @ '','',
      ''            \"protocol\": \"dokodemo-door\",'',
      ''            \"settings\": {'',
      ''                \"address\": \"127.0.0.1\"'',
      ''            },'',
      ''            \"tag\": \"api\"'',
      ''        },'',
      ''        {'',
      ''            \"port\": \"'' @ port_str (v2c_ListenPort c) @ ''\",'',
      ''            \"protocol\": \"vmess\",'',
      ''            \"streamSettings\": {'',
      ''                \"network\": \"'' @ v2c_Transport c @ ''\",'',
      ''                \"security\": \"'' @ v2c_Security c @ ''\",'',
      ''                \"tlsSettings\": {'',
      ''                    \"allowInsecure\": true,'',
      ''                    \"certificates\": ['',
      ''                        {'',
      ''                            \"certificateFile\": \"'' @ v2c_TLSCertPath c @ ''\",'',
      ''                            \"keyFile\": \"'' @ v2c_TLSKeyPath c @ ''\"'',
      ''                        }'',
      ''                    ]'',
      ''                }'',
      ''            },'',
      ''            \"tag\": \"vmess\"'',
      ''        }'',
      ''    ],'',
      ''    \"log\": {'',
      ''        \"access\": \"none\",'',
      ''        \"error\": \"none\",'',
      ''        \"loglevel\": \"none\"'',
      ''    },'',
      ''    \"outbounds\": ['',
      ''        {'',
      ''            \"protocol\": \"freedom\",'',
      ''            \"tag\": \"direct\"'',
      ''        },'',
      ''        {'',
      ''            \"protocol\": \"blackhole\",'',
      ''            \"tag\": \"blocked\"'',
      ''        }'',
      ''    ],'',
      ''    \"policy\": {'',
      ''        \"levels\": {'',
      ''            \"0\": {'',
      ''                \"statsUserDownlink\": true,'',
      ''                \"statsUserUplink\": true'',
      ''            }'',
      ''        }'',
      ''    },'',
      ''    \"routing\": {'',
      ''        \"domainStrategy\": \"IPIfNonMatch\",'',
      ''        \"rules\": ['',
      ''            {'',
      ''                \"inboundTag\": ['',
      ''                    \"api\"'',
      ''                ],'',
      ''                \"outboundTag\": \"api\",'',
      ''                \"type\": \"field\"'',
      ''            },'',
      ''            {'',
      ''                \"domain\": ['',
      ''                    \"domain:'' @ BlockedLocalDomain @ ''\"'',
      ''                ],'',
      ''                \"outboundTag\": \"blocked\",'',
      ''                \"type\": \"field\"'',
      ''            },''] @
     (if \<not> allowSMTP then
       [''            {'',
        ''                \"network\": \"tcp\",'',
        ''                \"outboundTag\": \"blocked\",'',
        ''                \"port\": \"'' @ itoa SMTPPort @ ''\",'',
        ''                \"type\": \"field\"'',
        ''            },'']
      else []) @
     [''            {'',
      ''                \"ip\": '' @ common_JSON BlockedNetworks @ '','',
      ''                \"outboundTag\": \"blocked\",'',
      ''                \"type\": \"field\"'',
      ''            }'',
      ''        ]'',
      ''    },'',
      ''    \"stats\": {},'',
      ''    \"transport\": {'',
      ''        \"dsSettings\": {},'',
      ''        \"grpcSettings\": {},'',
      ''        \"gunSettings\": {},'',
      ''        \"httpSettings\": {},'',
      ''        \"kcpSettings\": {},'',
      ''        \"quicSettings\": {'',
      ''            \"security\": \"chacha20-poly1305\"'',
      ''        },'',
      ''        \"tcpSettings\": {},'',
      ''        \"wsSettings\": {}'',
      ''    }'',
      ''}''])"

section \<open>The peer table\<close>

text \<open>A map from keys to peers, a peer being its own key; the list is one order of it.\<close>

type_synonym v2_peers = "(string \<times> string) list"

definition v2p_Get :: "string \<Rightarrow> v2_peers \<Rightarrow> string" where
  "v2p_Get k ps = (case map_of ps k of None \<Rightarrow> [] | Some v \<Rightarrow> v)"

definition v2p_Put :: "string \<Rightarrow> v2_peers \<Rightarrow> v2_peers" where
  "v2p_Put v ps = (if map_of ps v \<noteq> None then ps else ps @ [(v, v)])"

definition v2p_Delete :: "string \<Rightarrow> v2_peers \<Rightarrow> v2_peers" where
  "v2p_Delete k ps = filter (\<lambda>(k', _). k' \<noteq> k) ps"

definition v2p_Len :: "v2_peers \<Rightarrow> nat" where
  "v2p_Len ps = length ps"

section \<open>The service\<close>

record 'o v2ray =
  v2_info :: bytes
  v2_process :: "child option"
  v2_conf :: v2_config
  v2_peers :: v2_peers
  v2_tlsPin :: string
  v2_configPath :: string
  v2_conn :: bool
  v2_world :: 'o

definition NewV2Ray :: "'o \<Rightarrow> 'o v2ray" where
  "NewV2Ray w =
    \<lparr>v2_info = replicate 4 0, v2_process = None, v2_conf = v2_NewConfig, v2_peers = [], v2_tlsPin = [],
     v2_configPath = [], v2_conn = False, v2_world = w\<rparr>"

text \<open>The two calls: changing an inbound's users, and reading a counter, which the answer may lack.\<close>

datatype v2_operation = AddUser string "vmess_account option" | RemoveUser string

record 'o v2_api = "'o grpc" +
  va_AlterInbound :: "string \<Rightarrow> v2_operation \<Rightarrow> 'o \<Rightarrow> unit result \<times> 'o"
  va_GetStats :: "string \<Rightarrow> 'o \<Rightarrow> int option result \<times> 'o"
  va_uuid_String :: "bytes \<Rightarrow> string"

definition ByteFromBool :: "bool \<Rightarrow> byte" where
  "ByteFromBool v = (if v then 1 else 0)"

text \<open>The TLS part of \<^verbatim>\<open>Init\<close>.\<close>

definition v2_tls :: "'o host \<Rightarrow> pki \<Rightarrow> runtime \<Rightarrow> string \<Rightarrow> 'o v2ray \<Rightarrow> unit result \<times> 'o v2ray" where
  "v2_tls h pk rt home s =
    (let s0 = s\<lparr>v2_conf := (v2_conf s)\<lparr>v2c_Security := ''tls''\<rparr>\<rparr> in
     case CertificatePin h pk (filepath_Join [home, ''tls.crt'']) (v2_world s) of
       Inl e \<Rightarrow> (Inl e, s0)
     | Inr pin \<Rightarrow>
         (case TLSFiles h rt home (v2_world s) of
            (Inl e, w) \<Rightarrow> (Inl e, s0\<lparr>v2_tlsPin := pin, v2_world := w\<rparr>)
          | (Inr (cert, key), w) \<Rightarrow>
              (ok, s0\<lparr>v2_tlsPin := pin, v2_world := w,
                      v2_conf := (v2_conf s0)\<lparr>v2c_TLSCertPath := cert, v2c_TLSKeyPath := key\<rparr>\<rparr>)))"

definition v2_Init ::
  "'o host \<Rightarrow> pki \<Rightarrow> (string \<Rightarrow> 'o \<Rightarrow> v2_config result) \<Rightarrow> runtime \<Rightarrow> egress_policy \<Rightarrow> string \<Rightarrow>
    'o v2ray \<Rightarrow> unit result \<times> 'o v2ray" where
  "v2_Init h pk read rt pol home s =
    (case h_LookPath h ''v2ray'' (v2_world s) of
       Inl e \<Rightarrow> (Inl ''the v2ray binary is not on PATH'', s)
     | Inr _ \<Rightarrow>
     (case read (filepath_Join [home, ''v2ray.toml'']) (v2_world s) of
       Inl e \<Rightarrow> (Inl e, s)
     | Inr c \<Rightarrow>
     (let s1 = s\<lparr>v2_conf := c\<rparr> in
      case v2c_Validate c of
       Inl e \<Rightarrow> (Inl e, s1)
     | Inr _ \<Rightarrow>
     (case (if v2c_TLS c then v2_tls h pk rt home s1 else (ok, s1)) of
       (Inl e, s2) \<Rightarrow> (Inl e, s2)
     | (Inr _, s2) \<Rightarrow>
     (case rt_WriteFile h rt ''v2ray_config.json'' (v2_configText (v2_conf s2) (eg_AllowSMTP pol)) (v2_world s2) of
       (Inl e, w) \<Rightarrow> (Inl e, s2\<lparr>v2_configPath := [], v2_world := w\<rparr>)
     | (Inr path, w) \<Rightarrow>
         (ok, s2\<lparr>v2_configPath := path, v2_world := w,
                 v2_info := be_bytes 2 (unat (v2c_ListenPort c)) @
                   [NewTransportFromString (v2c_Transport c), ByteFromBool (v2c_TLS c)]\<rparr>))))))"

definition v2_Start :: "'o host \<Rightarrow> egress_policy \<Rightarrow> runtime \<Rightarrow> 'o v2ray \<Rightarrow> unit result \<times> 'o v2ray" where
  "v2_Start h pol rt s =
    (case StartProxy h pol rt ''v2ray'' [''run'', ''--config'', v2_configPath s] []
            (v2c_ListenPort (v2_conf s)) [] (v2_world s) of
       (Inl e, w) \<Rightarrow> (Inl e, s\<lparr>v2_process := None, v2_world := w\<rparr>)
     | (Inr p, w) \<Rightarrow> (ok, s\<lparr>v2_process := Some p, v2_world := w\<rparr>))"

definition v2_Stop :: "'o host \<Rightarrow> 'o process_ops \<Rightarrow> 'o v2_api \<Rightarrow> 'o v2ray \<Rightarrow> unit result \<times> 'o v2ray" where
  "v2_Stop h po api s =
    (let w = (if v2_conn s then gr_Close api (v2_world s) else v2_world s) in
     case Process_Stop h po (v2_process s) w of (r, w') \<Rightarrow> (r, s\<lparr>v2_conn := False, v2_world := w'\<rparr>))"

definition v2_clientConn :: "'o v2_api \<Rightarrow> 'o v2ray \<Rightarrow> unit result \<times> 'o v2ray" where
  "v2_clientConn api s =
    (if v2_conn s then (ok, s)
     else case gr_NewClient api (''127.0.0.1:'' @ port_str (v2c_APIPort (v2_conf s))) (v2_world s) of
       (Inl e, w) \<Rightarrow> (Inl e, s\<lparr>v2_world := w\<rparr>)
     | (Inr _, w) \<Rightarrow> (ok, s\<lparr>v2_conn := True, v2_world := w\<rparr>))"

definition v2_AddPeer :: "'o v2_api \<Rightarrow> bytes \<Rightarrow> 'o v2ray \<Rightarrow> bytes result \<times> 'o v2ray" where
  "v2_AddPeer api d s =
    (if length d \<noteq> 1 + 16 then (Inl ''data length must be 17 bytes'', s)
     else case v2_clientConn api s of
       (Inl e, s1) \<Rightarrow> (Inl e, s1)
     | (Inr _, s1) \<Rightarrow>
         let email = session_key d; proxy = d ! 0; uid = va_uuid_String api (drop 1 d) in
         (case va_AlterInbound api (proxy_Tag proxy) (AddUser email (proxy_Account proxy uid)) (v2_world s1) of
            (Inl e, w) \<Rightarrow> (Inl e, s1\<lparr>v2_world := w\<rparr>)
          | (Inr _, w) \<Rightarrow> (Inr [], s1\<lparr>v2_world := w, v2_peers := v2p_Put email (v2_peers s1)\<rparr>)))"

definition v2_HasPeer :: "bytes \<Rightarrow> 'o v2ray \<Rightarrow> bool" where
  "v2_HasPeer d s \<longleftrightarrow> v2p_Get (session_key d) (v2_peers s) \<noteq> []"

definition v2_RemovePeer :: "'o v2_api \<Rightarrow> bytes \<Rightarrow> 'o v2ray \<Rightarrow> unit result \<times> 'o v2ray" where
  "v2_RemovePeer api d s =
    (if length d \<noteq> 1 + 16 then (Inl ''data length must be 17 bytes'', s)
     else case v2_clientConn api s of
       (Inl e, s1) \<Rightarrow> (Inl e, s1)
     | (Inr _, s1) \<Rightarrow>
         let email = session_key d in
         (case va_AlterInbound api (proxy_Tag (d ! 0)) (RemoveUser email) (v2_world s1) of
            (Inl e, w) \<Rightarrow>
              if contains_str e ''not found''
              then (ok, s1\<lparr>v2_world := w, v2_peers := v2p_Delete email (v2_peers s1)\<rparr>)
              else (Inl e, s1\<lparr>v2_world := w\<rparr>)
          | (Inr _, w) \<Rightarrow> (ok, s1\<lparr>v2_world := w, v2_peers := v2p_Delete email (v2_peers s1)\<rparr>)))"

text \<open>One counter: absent, or not found, counts as zero.\<close>

definition v2_counter :: "'o v2_api \<Rightarrow> string \<Rightarrow> 'o \<Rightarrow> int result \<times> 'o" where
  "v2_counter api name w =
    (case va_GetStats api name w of
       (Inl e, w') \<Rightarrow> if contains_str e ''not found'' then (Inr 0, w') else (Inl e, w')
     | (Inr None, w') \<Rightarrow> (Inr 0, w')
     | (Inr (Some v), w') \<Rightarrow> (Inr v, w'))"

fun v2_read_peers :: "'o v2_api \<Rightarrow> string list \<Rightarrow> peer list \<Rightarrow> 'o \<Rightarrow> peer list result \<times> 'o" where
  "v2_read_peers api [] items w = (Inr items, w)"
| "v2_read_peers api (key # keys) items w =
    (case v2_counter api (''user>>>'' @ key @ ''>>>traffic>>>uplink'') w of
       (Inl e, w1) \<Rightarrow> (Inl e, w1)
     | (Inr up, w1) \<Rightarrow>
         (case v2_counter api (''user>>>'' @ key @ ''>>>traffic>>>downlink'') w1 of
            (Inl e, w2) \<Rightarrow> (Inl e, w2)
          | (Inr down, w2) \<Rightarrow>
              v2_read_peers api keys (items @ [\<lparr>peer_Key = key, peer_Upload = up, peer_Download = down\<rparr>]) w2))"

definition v2_Peers :: "'o v2_api \<Rightarrow> 'o v2ray \<Rightarrow> peer list result \<times> 'o v2ray" where
  "v2_Peers api s =
    (case v2_clientConn api s of
       (Inl e, s1) \<Rightarrow> (Inl e, s1)
     | (Inr _, s1) \<Rightarrow>
         (case v2_read_peers api (map fst (v2_peers s1)) [] (v2_world s1) of
            (r, w) \<Rightarrow> (r, s1\<lparr>v2_world := w\<rparr>)))"

definition v2_PeerCount :: "'o v2ray \<Rightarrow> nat" where
  "v2_PeerCount s = v2p_Len (v2_peers s)"

definition v2_service :: "'o v2_api \<Rightarrow> 'o v2ray service" where
  "v2_service api =
    \<lparr>svc_AddPeer = v2_AddPeer api, svc_HasPeer = v2_HasPeer, svc_RemovePeer = v2_RemovePeer api,
     svc_Peers = v2_Peers api, svc_PeerCount = v2_PeerCount\<rparr>"

section \<open>What a client receives\<close>

definition transportProtocolCode :: "byte \<Rightarrow> int" where
  "transportProtocolCode b = (if transport_String b = ''tcp'' then TransportProtocolTCP else uint b)"

definition v2_ListenPort :: "'o v2ray \<Rightarrow> 16 word" where
  "v2_ListenPort s = be16 (v2_info s)"

definition v2_inbound :: "'o v2ray \<Rightarrow> inbound" where
  "v2_inbound s =
    (let entry = zero_inbound\<lparr>in_Port := v2_ListenPort s, in_ProxyProtocol := ProxyProtocolVMess,
           in_TransportProtocol := transportProtocolCode (v2_info s ! 2),
           in_TransportSecurity := TransportSecurityNone\<rparr>
     in if v2_info s ! 3 \<noteq> 0
        then entry\<lparr>in_TransportSecurity := TransportSecurityTLS, in_TLSPin := v2_tlsPin s\<rparr> else entry)"

definition v2_HandshakePayload :: "'o v2ray \<Rightarrow> bytes \<Rightarrow> inbound list result" where
  "v2_HandshakePayload s _ = Inr [v2_inbound s]"

definition v2_PublicMetadata :: "'o v2ray \<Rightarrow> inbound list" where
  "v2_PublicMetadata s =
    (let i = v2_inbound s in
     [zero_inbound\<lparr>in_ProxyProtocol := in_ProxyProtocol i, in_TransportProtocol := in_TransportProtocol i,
        in_TransportSecurity := in_TransportSecurity i\<rparr>])"

section \<open>The contract\<close>

text \<open>The table refines a peer set: its keys, provided no key is empty.\<close>

definition v2_keys :: "'o v2ray \<Rightarrow> string set" where
  "v2_keys s = fst ` set (v2_peers s)"

definition v2_inv :: "'o v2ray \<Rightarrow> bool" where
  "v2_inv s \<longleftrightarrow> distinct (map fst (v2_peers s)) \<and> (\<forall>(k, v) \<in> set (v2_peers s). v = k \<and> k \<noteq> [])"

lemma v2_clientConn_keeps: "v2_clientConn api s = (r, s') \<Longrightarrow> v2_peers s' = v2_peers s"
  by (auto simp: v2_clientConn_def split: if_splits prod.splits sum.splits)

lemma v2_same_peers: "v2_peers s' = v2_peers s \<Longrightarrow> v2_inv s' = v2_inv s \<and> v2_keys s' = v2_keys s"
  by (simp add: v2_inv_def v2_keys_def)

lemma v2_Put_inv:
  assumes "v2_inv s" "k \<noteq> []" "v2_peers s' = v2p_Put k (v2_peers s)"
  shows "v2_inv s' \<and> v2_keys s' = insert k (v2_keys s)"
  using assms by (auto simp: v2_inv_def v2_keys_def v2p_Put_def map_of_eq_None_iff image_iff)

lemma v2_Delete_inv:
  assumes "v2_inv s" "v2_peers s' = v2p_Delete k (v2_peers s)"
  shows "v2_inv s' \<and> v2_keys s' = v2_keys s - {k}"
proof -
  have m: "map fst (v2_peers s') = filter (\<lambda>x. x \<noteq> k) (map fst (v2_peers s))"
    using assms(2) by (simp add: v2p_Delete_def filter_map comp_def case_prod_unfold)
  have "v2_keys s' = set (map fst (v2_peers s'))" by (simp add: v2_keys_def)
  also have "\<dots> = v2_keys s - {k}" unfolding m by (auto simp: v2_keys_def)
  finally have "v2_keys s' = v2_keys s - {k}" .
  moreover have "v2_inv s'"
    using assms(1) assms(2) unfolding v2_inv_def m by (auto simp: v2p_Delete_def)
  ultimately show ?thesis by simp
qed

lemma v2_AddPeer_peers:
  assumes "v2_AddPeer api d s = (r, s')"
  shows "if is_ok r then v2_peers s' = v2p_Put (session_key d) (v2_peers s) \<and> length d = 17
    else v2_peers s' = v2_peers s"
proof -
  obtain c s1 where conn: "v2_clientConn api s = (c, s1)" by fastforce
  note k = v2_clientConn_keeps [OF conn]
  show ?thesis
    using assms k unfolding v2_AddPeer_def conn Let_def
    by (cases c) (auto split: if_splits prod.splits sum.splits)
qed

lemma v2_AddPeer_law:
  assumes "v2_inv s" "v2_AddPeer api d s = (r, s')"
  shows "v2_inv s' \<and> v2_keys s' = (if is_ok r then insert (session_key d) (v2_keys s) else v2_keys s)"
proof (cases "is_ok r")
  case True
  with v2_AddPeer_peers [OF assms(2)]
  have put: "v2_peers s' = v2p_Put (session_key d) (v2_peers s)" and len: "length d = 17" by simp_all
  from len have "d \<noteq> []" by auto
  then have "session_key d \<noteq> []" by simp
  from v2_Put_inv [OF assms(1) this put] True show ?thesis by simp
next
  case False
  with v2_AddPeer_peers [OF assms(2)] assms(1) v2_same_peers [of s' s] show ?thesis by simp
qed

lemma v2_RemovePeer_peers:
  assumes "v2_RemovePeer api d s = (r, s')"
  shows "v2_peers s' = (if is_ok r then v2p_Delete (session_key d) (v2_peers s) else v2_peers s)"
proof -
  obtain c s1 where conn: "v2_clientConn api s = (c, s1)" by fastforce
  note k = v2_clientConn_keeps [OF conn]
  show ?thesis
    using assms k unfolding v2_RemovePeer_def conn Let_def
    by (cases c) (auto split: if_splits prod.splits sum.splits)
qed

lemma v2_RemovePeer_law:
  assumes "v2_inv s" "v2_RemovePeer api d s = (r, s')"
  shows "v2_inv s' \<and> (v2_keys s' = v2_keys s - {session_key d} \<or> \<not> is_ok r \<and> v2_keys s' = v2_keys s)"
  using v2_RemovePeer_peers [OF assms(2)] v2_Delete_inv [OF assms(1), of s' "session_key d"] assms(1)
    v2_same_peers [of s' s]
  by (cases "is_ok r") simp_all

lemma v2_Peers_law: "v2_Peers api s = (r, s') \<Longrightarrow> v2_peers s' = v2_peers s"
  by (auto simp: v2_Peers_def dest!: v2_clientConn_keeps split: prod.splits sum.splits)

lemma v2_HasPeer_keys: "v2_inv s \<Longrightarrow> v2_HasPeer d s \<longleftrightarrow> session_key d \<in> v2_keys s"
  unfolding v2_HasPeer_def v2p_Get_def v2_keys_def v2_inv_def
  by (force split: option.splits simp: map_of_eq_None_iff dest: map_of_SomeD)

interpretation v2: vpn_service "v2_service api" v2_keys v2_inv True
  for api
proof
  fix s s' :: "'a v2ray" and d r b e r'
  assume s: "v2_inv s"
  show "finite (v2_keys s)" by (simp add: v2_keys_def)
  show "svc_PeerCount (v2_service api) s = card (v2_keys s)"
    using s distinct_card [of "map fst (v2_peers s)"]
    by (simp add: v2_service_def v2_PeerCount_def v2p_Len_def v2_keys_def v2_inv_def)
  show "svc_HasPeer (v2_service api) d s = (session_key d \<in> v2_keys s)"
    using v2_HasPeer_keys [OF s] by (simp add: v2_service_def)
  show "v2_inv s' \<and> v2_keys s' = insert (session_key d) (v2_keys s)"
    if "svc_AddPeer (v2_service api) d s = (Inr b, s')"
    using v2_AddPeer_law [OF s, of api d "Inr b" s'] that by (simp add: v2_service_def)
  show "v2_inv s' \<and> v2_keys s' = v2_keys s" if "svc_AddPeer (v2_service api) d s = (Inl e, s')"
    using v2_AddPeer_law [OF s, of api d "Inl e" s'] that by (simp add: v2_service_def)
  show "v2_keys s' = v2_keys s - {session_key d}" if "svc_RemovePeer (v2_service api) d s = (ok, s')"
    using v2_RemovePeer_law [OF s, of api d ok s'] that by (simp add: v2_service_def)
  show "v2_inv s' \<and> v2_keys s - {session_key d} \<subseteq> v2_keys s' \<and> v2_keys s' \<subseteq> v2_keys s"
    if "svc_RemovePeer (v2_service api) d s = (r, s')"
    using v2_RemovePeer_law [OF s, of api d r s'] that by (auto simp: v2_service_def)
  show "v2_inv s' \<and> v2_keys s' = v2_keys s" if "svc_Peers (v2_service api) s = (r', s')"
    using v2_Peers_law [of api s r' s'] that s v2_same_peers [of s' s] by (simp add: v2_service_def)
qed

section \<open>Transport names\<close>

text \<open>The two spellings of the HTTP transport: the name the code prints is not the one it reads.\<close>

lemma transport_http: "\<not> transport_IsValid (NewTransportFromString (transport_String 4))"
  by (simp add: transport_String_def NewTransportFromString_def transport_IsValid_def)

text \<open>The name of every transport except number 4 is read back as that transport; the name of number 4
  is refused, and a transport is only accepted in a configuration when its number is between 1 and 8.\<close>

lemma transport_names:
  "(\<forall>t. transport_IsValid t \<longrightarrow> (NewTransportFromString (transport_String t) = t \<longleftrightarrow> t \<noteq> 4)) \<and>
   (\<forall>v. transport_IsValid (NewTransportFromString v) \<longleftrightarrow> NewTransportFromString v \<in> {1, 2, 3, 4, 5, 6, 7, 8})"
  by (auto simp: transport_IsValid_def transport_String_def NewTransportFromString_def)

end
