(* ===== verification/OpenVPN.thy ===== *)
theory OpenVPN
  imports Daemon Peer_Request "HOL-Library.AList"
begin

text \<open>
  The OpenVPN service: \<^verbatim>\<open>services/openvpn/openvpn.go\<close>, \<^verbatim>\<open>management.go\<close>, \<^verbatim>\<open>pki.go\<close>, \<^verbatim>\<open>handshake.go\<close>,
  \<^verbatim>\<open>config.go\<close> and \<^verbatim>\<open>services/openvpn/types\<close>. The reader of the management connection is a state machine
  over the lines the server sends. Key generation and certificates, the management socket and the
  configuration file reader are parameters.
\<close>

section \<open>Configuration\<close>

record ov_config =
  ovc_Interface :: string
  ovc_ListenPort :: "16 word"
  ovc_Proto :: string
  ovc_Uplink :: string
  ovc_EnableIPv6 :: bool

definition ProtoUDP :: string where
  "ProtoUDP = ''udp''"

definition ProtoTCP :: string where
  "ProtoTCP = ''tcp''"

definition ov_NewConfig :: ov_config where
  "ov_NewConfig = \<lparr>ovc_Interface = [], ovc_ListenPort = 0, ovc_Proto = [], ovc_Uplink = [], ovc_EnableIPv6 = False\<rparr>"

definition ovc_Validate :: "ov_config \<Rightarrow> unit result" where
  "ovc_Validate c =
    first_error
      [(ovc_Interface c = [] \<or> set (ovc_Interface c) \<inter> {CHR '' '', CHR ''/'', CHR 0x0A} \<noteq> {} \<or>
          15 < length (ovc_Interface c), ''interface must be a valid interface name''),
       (ovc_ListenPort c = 0, ''listen_port cannot be zero''),
       (ovc_Proto c \<noteq> ProtoUDP \<and> ovc_Proto c \<noteq> ProtoTCP, ''proto must be udp or tcp''),
       (set (ovc_Uplink c) \<inter> {CHR '' '', CHR 0x0A} \<noteq> {}, ''invalid uplink'')]"

definition ovc_WithDefaultValues :: "nat \<Rightarrow> ov_config \<Rightarrow> ov_config" where
  "ovc_WithDefaultValues n c =
    c\<lparr>ovc_Interface := ''ovpn0'', ovc_ListenPort := RandomPort n, ovc_Proto := ProtoUDP, ovc_EnableIPv6 := True\<rparr>"

section \<open>The certificate authority\<close>

record ov_pki =
  pki_dir :: string
  pki_caDER :: bytes
  pki_tlsCrypt :: bytes

definition caCertPath :: "string \<Rightarrow> string" where
  "caCertPath dir = filepath_Join [dir, ''ca.crt'']"

definition caKeyPath :: "string \<Rightarrow> string" where
  "caKeyPath dir = filepath_Join [dir, ''ca.key'']"

definition serverCertPath :: "string \<Rightarrow> string" where
  "serverCertPath dir = filepath_Join [dir, ''server.crt'']"

definition serverKeyPath :: "string \<Rightarrow> string" where
  "serverKeyPath dir = filepath_Join [dir, ''server.key'']"

definition tlsCryptPath :: "string \<Rightarrow> string" where
  "tlsCryptPath dir = filepath_Join [dir, ''tc.key'']"

text \<open>What the standard library's cryptography does: a new authority with a server certificate, as the
  texts of the two certificates and the two keys, and a static key; whether a block is a certificate and
  an ECDSA private key; a certificate and key for a client's name.\<close>

record 'o ca_ops =
  ca_Create :: "'o \<Rightarrow> (string \<times> string \<times> string \<times> string \<times> bytes) result \<times> 'o"
  ca_ParseCertificate :: "bytes \<Rightarrow> unit result"
  ca_ParseKey :: "bytes \<Rightarrow> bool result"
  ca_IssueClient :: "bytes \<Rightarrow> string \<Rightarrow> 'o \<Rightarrow> (bytes \<times> bytes) result \<times> 'o"

definition pki_create :: "'o host \<Rightarrow> 'o ca_ops \<Rightarrow> string \<Rightarrow> 'o \<Rightarrow> unit result \<times> 'o" where
  "pki_create h ca dir w =
    (case ca_Create ca w of
       (Inl e, w1) \<Rightarrow> (Inl e, w1)
     | (Inr (caCert, caKey, serverCert, serverKey, tlsCrypt), w1) \<Rightarrow>
         for_each_err (\<lambda>(path, data, mode). h_WriteFile h path data mode)
           [(caCertPath dir, caCert, 420), (caKeyPath dir, caKey, 384), (serverCertPath dir, serverCert, 420),
            (serverKeyPath dir, serverKey, 384),
            (tlsCryptPath dir, case staticKeyFile tlsCrypt of Some t \<Rightarrow> t | None \<Rightarrow> [], 384)] w1)"

definition pki_load :: "'o host \<Rightarrow> pki \<Rightarrow> 'o ca_ops \<Rightarrow> string \<Rightarrow> 'o \<Rightarrow> ov_pki result" where
  "pki_load h pk ca dir w =
    rbind (h_ReadFile h (caCertPath dir) w) (\<lambda>caPEM.
      case pk_PemDecode pk caPEM of
        None \<Rightarrow> Inl ''ca.crt is not a PEM certificate''
      | Some (kind, caDER) \<Rightarrow>
          if kind \<noteq> ''CERTIFICATE'' then Inl ''ca.crt is not a PEM certificate''
          else rbind (ca_ParseCertificate ca caDER) (\<lambda>_.
            rbind (h_ReadFile h (caKeyPath dir) w) (\<lambda>keyPEM.
              case pk_PemDecode pk keyPEM of
                None \<Rightarrow> Inl ''ca.key is not a PEM private key''
              | Some (kind, der) \<Rightarrow>
                  if kind \<noteq> ''PRIVATE KEY'' then Inl ''ca.key is not a PEM private key''
                  else rbind (ca_ParseKey ca der) (\<lambda>ecdsa.
                    if \<not> ecdsa then Inl ''ca.key is not an ECDSA key''
                    else rbind (h_ReadFile h (tlsCryptPath dir) w) (\<lambda>tc.
                      rbind (parseStaticKeyFile tc) (\<lambda>key.
                        Inr \<lparr>pki_dir = dir, pki_caDER = caDER, pki_tlsCrypt = key\<rparr>))))))"

definition loadOrCreatePKI :: "'o host \<Rightarrow> pki \<Rightarrow> 'o ca_ops \<Rightarrow> string \<Rightarrow> 'o \<Rightarrow> ov_pki result \<times> 'o" where
  "loadOrCreatePKI h pk ca dir w =
    (case h_MkdirAll h dir 448 w of
       (Inl e, w1) \<Rightarrow> (Inl e, w1)
     | (Inr _, w1) \<Rightarrow>
         (case (if h_Stat h (caKeyPath dir) w1 then (ok, w1) else pki_create h ca dir w1) of
            (Inl e, w2) \<Rightarrow> (Inl (''creating the certificate authority: '' @ e), w2)
          | (Inr _, w2) \<Rightarrow> (pki_load h pk ca dir w2, w2)))"

section \<open>The server configuration\<close>

definition ipv4Network :: string where
  "ipv4Network = ''10.9.0.0''"

definition ipv4Netmask :: string where
  "ipv4Netmask = ''255.255.255.0''"

definition ipv6Network :: string where
  "ipv6Network = ''fd86:ea04:1116::/112''"

definition ov_verb :: "bool \<Rightarrow> nat" where
  "ov_verb verbose = (if verbose then 3 else 0)"

record ov_template =
  ovt_Config :: ov_config
  ovt_Dir :: string
  ovt_ManagementSocket :: string
  ovt_Verb :: nat
  ovt_User :: string
  ovt_Group :: string

definition ov_configText :: "ov_template \<Rightarrow> string" where
  "ov_configText t =
    (let c = ovt_Config t; dir = ovt_Dir t in
     concat (map (\<lambda>l. l @ ''\<newline>'')
     ([''dev '' @ ovc_Interface c,
       ''dev-type tun'',
       ''proto '' @ (if ovc_Proto c = ''tcp'' then ''tcp-server'' else ''udp''),
       ''port '' @ port_str (ovc_ListenPort c),
       ''server '' @ ipv4Network @ '' '' @ ipv4Netmask] @
      (if ovc_EnableIPv6 c then
        [''server-ipv6 '' @ ipv6Network]
       else []) @
      [''topology subnet'',
       ''ca '' @ caCertPath dir,
       ''cert '' @ serverCertPath dir,
       ''key '' @ serverKeyPath dir,
       ''dh none'',
       ''tls-crypt '' @ tlsCryptPath dir,
       ''tls-server'',
       ''tls-version-min 1.2'',
       ''auth SHA256'',
       ''data-ciphers AES-256-GCM:AES-128-GCM'',
       ''data-ciphers-fallback AES-256-GCM'',
       ''tls-cipher TLS-ECDHE-ECDSA-WITH-AES-256-GCM-SHA384'',
       ''remote-cert-tls client'',
       ''keepalive 10 60'',
       ''persist-key'',
       ''persist-tun''] @
      (if ovc_Proto c = ''udp'' then
        [''explicit-exit-notify 1'']
       else []) @
      [''management '' @ ovt_ManagementSocket t @ '' unix'',
       ''management-client-user root'',
       ''management-client-auth'',
       ''auth-user-pass-optional'',
       ''verb '' @ itoa (ovt_Verb t)] @
      (if ovt_User t \<noteq> [] then
        [''user '' @ ovt_User t,
         ''group '' @ ovt_Group t]
       else []))))"

section \<open>The management connection\<close>

text \<open>A command that waits for its reply, and the notification that is being received.\<close>

record pending_command =
  pd_id :: nat
  pd_multi :: bool
  pd_lines :: "string list"

record client_event =
  ev_kind :: string
  ev_cid :: string
  ev_kid :: string
  ev_env :: "string \<rightharpoonup> string"

record management =
  mg_pending :: "pending_command list"
  mg_event :: "client_event option"

text \<open>What the reader does besides keeping its state: it sends a command, reports the traffic of a
  connection that ended, or hands a finished command to the one who waits for it.\<close>

datatype mgmt_action =
    SendCommand string
  | Disconnected string int int
  | CommandDone pending_command

text \<open>\<^verbatim>\<open>strings.Cut\<close>, which gives the whole text and nothing when the separator is absent.\<close>

definition str_cut :: "char \<Rightarrow> string \<Rightarrow> string \<times> string" where
  "str_cut c s = (case cut_at c s of None \<Rightarrow> (s, []) | Some p \<Rightarrow> p)"

text \<open>The value of \<^verbatim>\<open>strconv.ParseInt(s, 10, 64)\<close> with its error ignored: zero when the text is not a number,
  the nearest bound when it is out of range.\<close>

datatype u64_parse = Syntax | Range | Value nat

fun parse_u64 :: "nat \<Rightarrow> string \<Rightarrow> u64_parse" where
  "parse_u64 acc [] = Value acc"
| "parse_u64 acc (c # cs) =
    (case digit_val c of
       None \<Rightarrow> Syntax
     | Some d \<Rightarrow> if 2 ^ 64 \<le> acc * 10 + d then Range else parse_u64 (acc * 10 + d) cs)"

definition ParseInt_value :: "string \<Rightarrow> int" where
  "ParseInt_value s =
    (let neg = (s \<noteq> [] \<and> hd s = CHR ''-'');
         digits = (if s \<noteq> [] \<and> (hd s = CHR ''-'' \<or> hd s = CHR ''+'') then tl s else s);
         clamp = (\<lambda>n :: nat. if neg then (if n \<le> 2 ^ 63 then - int n else i64_min)
                             else (if n < 2 ^ 63 then int n else i64_max))
     in if digits = [] then 0
        else case parse_u64 0 digits of Syntax \<Rightarrow> 0 | Range \<Rightarrow> clamp (2 ^ 64 - 1) | Value n \<Rightarrow> clamp n)"

definition env_get :: "client_event \<Rightarrow> string \<Rightarrow> string" where
  "env_get ev k = (case ev_env ev k of None \<Rightarrow> [] | Some v \<Rightarrow> v)"

definition event_cn :: "client_event \<Rightarrow> string" where
  "event_cn ev =
    (if env_get ev ''common_name'' = [] then env_get ev ''X509_0_CN'' else env_get ev ''common_name'')"

text \<open>\<open>admit\<close> is the decision on a common name.\<close>

definition finishEvent :: "(string \<Rightarrow> bool) \<Rightarrow> client_event \<Rightarrow> mgmt_action list" where
  "finishEvent admit ev =
    (let cn = event_cn ev in
     if ev_kind ev = ''CONNECT'' \<or> ev_kind ev = ''REAUTH'' then
       (if admit cn then [SendCommand (''client-auth-nt '' @ ev_cid ev @ '' '' @ ev_kid ev)]
        else [SendCommand (''client-deny '' @ ev_cid ev @ '' '' @ ev_kid ev @ '' '' @ quoted ''not a registered peer'')])
     else if ev_kind ev = ''DISCONNECT'' then
       [Disconnected cn (ParseInt_value (env_get ev ''bytes_received'')) (ParseInt_value (env_get ev ''bytes_sent''))]
     else [])"

definition handleEvent ::
  "(string \<Rightarrow> bool) \<Rightarrow> client_event option \<Rightarrow> string \<Rightarrow> client_event option \<times> mgmt_action list" where
  "handleEvent admit current line =
    (if \<not> has_prefix line ''>CLIENT:'' then (current, [])
     else let (kind, rest) = str_cut (CHR '','') (trim_prefix line ''>CLIENT:'') in
       if kind \<in> {''CONNECT'', ''REAUTH'', ''ESTABLISHED'', ''DISCONNECT''} then
         (let (cid, kid) = str_cut (CHR '','') rest in
          (Some \<lparr>ev_kind = kind, ev_cid = cid, ev_kid = kid, ev_env = Map.empty\<rparr>, []))
       else if kind = ''ENV'' then
         (case current of
            None \<Rightarrow> (None, [])
          | Some ev \<Rightarrow>
              if rest = ''END'' then (None, finishEvent admit ev)
              else (case cut_at (CHR ''='') rest of
                      None \<Rightarrow> (current, [])
                    | Some (k, v) \<Rightarrow> (Some (ev\<lparr>ev_env := (ev_env ev)(k \<mapsto> v)\<rparr>), [])))
       else (current, []))"

definition is_final :: "bool \<Rightarrow> string \<Rightarrow> bool" where
  "is_final multi line \<longleftrightarrow>
    has_prefix line ''SUCCESS:'' \<or> has_prefix line ''ERROR:'' \<or> multi \<and> line = ''END''"

text \<open>One turn of the loop of \<^verbatim>\<open>read\<close>.\<close>

definition mgmt_line :: "(string \<Rightarrow> bool) \<Rightarrow> management \<Rightarrow> string \<Rightarrow> management \<times> mgmt_action list" where
  "mgmt_line admit m line =
    (if has_prefix line ''>'' then
       (case handleEvent admit (mg_event m) line of (ev, acts) \<Rightarrow> (m\<lparr>mg_event := ev\<rparr>, acts))
     else case mg_pending m of
       [] \<Rightarrow> (m, [])
     | p # ps \<Rightarrow>
         let p' = p\<lparr>pd_lines := pd_lines p @ [line]\<rparr> in
         if is_final (pd_multi p) line then (m\<lparr>mg_pending := ps\<rparr>, [CommandDone p'])
         else (m\<lparr>mg_pending := p' # ps\<rparr>, []))"

text \<open>\<^verbatim>\<open>read\<close> on a stretch of lines between which no command is issued and no peer changes.\<close>

fun mgmt_read :: "(string \<Rightarrow> bool) \<Rightarrow> management \<Rightarrow> string list \<Rightarrow> management \<times> mgmt_action list" where
  "mgmt_read admit m [] = (m, [])"
| "mgmt_read admit m (line # ls) =
    (case mgmt_line admit m line of (m1, acts) \<Rightarrow>
       (case mgmt_read admit m1 ls of (m2, acts') \<Rightarrow> (m2, acts @ acts')))"

text \<open>The queueing half of \<^verbatim>\<open>run\<close>; whether the write then fails does not change the queue.\<close>

definition mgmt_issue :: "nat \<Rightarrow> bool \<Rightarrow> management \<Rightarrow> management" where
  "mgmt_issue i multi m = m\<lparr>mg_pending := mg_pending m @ [\<lparr>pd_id = i, pd_multi = multi, pd_lines = []\<rparr>]\<rparr>"

text \<open>How a command ends: the write fails, the reply is complete, the connection closes first, or time
  runs out.\<close>

datatype run_end = WriteFailed gerror | Replied "string list" | ConnectionClosed | TimedOut

record 'o ov_net =
  on_Dial :: "string \<Rightarrow> 'o \<Rightarrow> unit result \<times> 'o"
  on_Close :: "'o \<Rightarrow> 'o"
  on_Run :: "string \<Rightarrow> bool \<Rightarrow> 'o \<Rightarrow> run_end \<times> 'o"

definition mgmt_run :: "'o ov_net \<Rightarrow> string \<Rightarrow> bool \<Rightarrow> 'o \<Rightarrow> string list result \<times> 'o" where
  "mgmt_run net command multi w =
    (case on_Run net command multi w of
       (WriteFailed e, w') \<Rightarrow> (Inl e, w')
     | (ConnectionClosed, w') \<Rightarrow> (Inl ''management connection closed'', w')
     | (TimedOut, w') \<Rightarrow> (Inl (''management command '' @ command @ '' timed out''), w')
     | (Replied ls, w') \<Rightarrow>
         if ls \<noteq> [] \<and> has_prefix (last ls) ''ERROR:'' then (Inl (last ls), w') else (Inr ls, w'))"

text \<open>The deadline is given as the number of further attempts it leaves.\<close>

fun dialManagement :: "'o ov_net \<Rightarrow> nat \<Rightarrow> string \<Rightarrow> 'o \<Rightarrow> unit result \<times> 'o" where
  "dialManagement net 0 socket w =
    (case on_Dial net socket w of
       (Inr _, w') \<Rightarrow> (ok, w')
     | (Inl e, w') \<Rightarrow> (Inl (''management interface at '' @ socket @ '': '' @ e), w'))"
| "dialManagement net (Suc n) socket w =
    (case on_Dial net socket w of
       (Inr _, w') \<Rightarrow> (ok, w')
     | (Inl e, w') \<Rightarrow> dialManagement net n socket w')"

record client_status =
  cs_commonName :: string
  cs_received :: int
  cs_sent :: int
  cs_cid :: string

definition status_row :: "string \<Rightarrow> client_status option" where
  "status_row line =
    (let fs = split_on (CHR 0x09) line in
     if length fs < 11 \<or> fs ! 0 \<noteq> ''CLIENT_LIST'' then None
     else Some \<lparr>cs_commonName = fs ! 1, cs_received = ParseInt_value (fs ! 5), cs_sent = ParseInt_value (fs ! 6),
                cs_cid = fs ! 10\<rparr>)"

definition mgmt_status :: "'o ov_net \<Rightarrow> 'o \<Rightarrow> client_status list result \<times> 'o" where
  "mgmt_status net w =
    (case mgmt_run net ''status 3'' True w of
       (Inl e, w') \<Rightarrow> (Inl e, w')
     | (Inr ls, w') \<Rightarrow> (Inr (List.map_filter status_row ls), w'))"

definition kill_row :: "'o ov_net \<Rightarrow> string \<Rightarrow> client_status \<Rightarrow> 'o \<Rightarrow> unit result \<times> 'o" where
  "kill_row net cn row w =
    (if cs_commonName row \<noteq> cn then (ok, w)
     else case mgmt_run net (''client-kill '' @ cs_cid row @ '' RESTART,session-ended'') False w of
       (Inl e, w') \<Rightarrow> if contains_str e ''not found'' then (ok, w') else (Inl e, w')
     | (Inr _, w') \<Rightarrow> (ok, w'))"

definition mgmt_kill :: "'o ov_net \<Rightarrow> string \<Rightarrow> 'o \<Rightarrow> unit result \<times> 'o" where
  "mgmt_kill net cn w =
    (case mgmt_status net w of
       (Inl e, w') \<Rightarrow> (Inl e, w')
     | (Inr rows, w') \<Rightarrow> for_each_err (kill_row net cn) rows w')"

section \<open>The service\<close>

record 'o openvpn =
  ov_info :: bytes
  ov_conf :: ov_config
  ov_pki :: "ov_pki option"
  ov_process :: "child option"
  ov_mgmt :: bool
  ov_configPath :: string
  ov_socketPath :: string
  ov_byCN :: "(string \<times> string) list"
  ov_closed :: "string \<rightharpoonup> int \<times> int"
  ov_peers :: peer_set
  ov_world :: 'o

definition NewOpenVPN :: "'o \<Rightarrow> 'o openvpn" where
  "NewOpenVPN w =
    \<lparr>ov_info = replicate 4 0, ov_conf = ov_NewConfig, ov_pki = None, ov_process = None, ov_mgmt = False,
     ov_configPath = [], ov_socketPath = [], ov_byCN = [], ov_closed = Map.empty, ov_peers = [], ov_world = w\<rparr>"

definition ov_Init ::
  "'o host \<Rightarrow> pki \<Rightarrow> 'o ca_ops \<Rightarrow> (string \<Rightarrow> 'o \<Rightarrow> ov_config result) \<Rightarrow> runtime \<Rightarrow> bool \<Rightarrow> string \<Rightarrow>
    'o openvpn \<Rightarrow> unit result \<times> 'o openvpn" where
  "ov_Init h pk ca read rt verbose home s =
    (case h_LookPath h ''openvpn'' (ov_world s) of
       Inl e \<Rightarrow> (Inl ''the openvpn binary is not on PATH'', s)
     | Inr _ \<Rightarrow>
     (case read (filepath_Join [home, ''openvpn.toml'']) (ov_world s) of
       Inl e \<Rightarrow> (Inl e, s)
     | Inr c0 \<Rightarrow>
     (case ovc_Validate c0 of
       Inl e \<Rightarrow> (Inl e, s\<lparr>ov_conf := c0\<rparr>)
     | Inr _ \<Rightarrow>
     (let (uplink, w1) = (if ovc_Uplink c0 = [] then DetectUplink h (ov_world s) else (ovc_Uplink c0, ov_world s));
          c = c0\<lparr>ovc_Uplink := uplink\<rparr>;
          dir = filepath_Join [home, ''openvpn'']
      in case loadOrCreatePKI h pk ca dir w1 of
       (Inl e, w2) \<Rightarrow> (Inl e, s\<lparr>ov_conf := c, ov_world := w2\<rparr>)
     | (Inr p, w2) \<Rightarrow>
     (let socket = filepath_Join [rt_Dir rt, ''openvpn.sock''];
          w3 = snd (h_Remove h socket w2);
          t = \<lparr>ovt_Config = c, ovt_Dir = pki_dir p, ovt_ManagementSocket = socket, ovt_Verb = ov_verb verbose,
               ovt_User = (case rt_Proxy rt of None \<Rightarrow> [] | Some u \<Rightarrow> pu_Name u),
               ovt_Group = (case rt_Proxy rt of None \<Rightarrow> [] | Some u \<Rightarrow> pu_Group u)\<rparr>;
          s1 = s\<lparr>ov_conf := c, ov_pki := Some p, ov_socketPath := socket\<rparr>
      in case rt_WriteFile h rt ''openvpn_server.conf'' (ov_configText t) w3 of
       (Inl e, w4) \<Rightarrow> (Inl e, s1\<lparr>ov_configPath := [], ov_world := w4\<rparr>)
     | (Inr path, w4) \<Rightarrow>
         (ok, s1\<lparr>ov_configPath := path, ov_world := w4,
                 ov_info := be_bytes 2 (unat (ovc_ListenPort c)) @
                   [if ovc_Proto c = ProtoTCP then 2 else 1, if ovc_EnableIPv6 c then 1 else ov_info s ! 3]\<rparr>))))))"

definition ov_TunnelIPv4 :: bytes where
  "ov_TunnelIPv4 =
    (case ParseIP ipv4Network of
       None \<Rightarrow> []
     | Some a \<Rightarrow> (case ip_To4 a of None \<Rightarrow> [] | Some ip \<Rightarrow> v4InV6Prefix @ [ip ! 0, ip ! 1, ip ! 2, ip ! 3 + 1]))"

definition ov_Start ::
  "'o host \<Rightarrow> 'o process_ops \<Rightarrow> 'o ov_net \<Rightarrow> nat \<Rightarrow> egress_policy \<Rightarrow> 'o openvpn \<Rightarrow> unit result \<times> 'o openvpn" where
  "ov_Start h po net tries pol s =
    (let iface = ovc_Interface (ov_conf s); uplink = ovc_Uplink (ov_conf s) in
     case EnsureForwarding h (ov_world s) of
       (Inl e, w1) \<Rightarrow> (Inl e, s\<lparr>ov_world := w1\<rparr>)
     | (Inr _, w1) \<Rightarrow>
     (case tunnel_egress_Up h pol iface w1 of
       (Inl e, w2) \<Rightarrow> (Inl e, s\<lparr>ov_world := tunnel_egress_Down h iface w2\<rparr>)
     | (Inr _, w2) \<Rightarrow>
     (case StartProcess h ''openvpn'' [''--config'', ov_configPath s] [] None w2 of
       (Inl e, w3) \<Rightarrow> (Inl e, s\<lparr>ov_process := None, ov_world := tunnel_egress_Down h iface w3\<rparr>)
     | (Inr p, w3) \<Rightarrow>
     (case dialManagement net tries (ov_socketPath s) w3 of
       (Inl e, w4) \<Rightarrow>
         (Inl e, s\<lparr>ov_process := Some p,
                   ov_world := tunnel_egress_Down h iface (snd (Process_Stop h po (Some p) w4))\<rparr>)
     | (Inr _, w4) \<Rightarrow>
     (case NAT_Up h iface uplink w4 of
       (Inl e, w5) \<Rightarrow>
         (Inl e, s\<lparr>ov_process := Some p, ov_mgmt := True,
                   ov_world := tunnel_egress_Down h iface (NAT_Down h iface uplink
                     (snd (Process_Stop h po (Some p) (on_Close net w5))))\<rparr>)
     | (Inr _, w5) \<Rightarrow> (ok, s\<lparr>ov_process := Some p, ov_mgmt := True, ov_world := w5\<rparr>))))))"

definition ov_Stop :: "'o host \<Rightarrow> 'o process_ops \<Rightarrow> 'o ov_net \<Rightarrow> 'o openvpn \<Rightarrow> unit result \<times> 'o openvpn" where
  "ov_Stop h po net s =
    (if ov_process s = None then (Inl ''openvpn was not started'', s)
     else let iface = ovc_Interface (ov_conf s); uplink = ovc_Uplink (ov_conf s);
              w1 = (if ov_mgmt s then on_Close net (ov_world s) else ov_world s)
          in case Process_Stop h po (ov_process s) w1 of
               (r, w2) \<Rightarrow> (r, s\<lparr>ov_mgmt := False,
                               ov_world := tunnel_egress_Down h iface (NAT_Down h iface uplink w2)\<rparr>))"

definition ov_admit :: "'o openvpn \<Rightarrow> string \<Rightarrow> bool" where
  "ov_admit s cn \<longleftrightarrow> map_of (ov_byCN s) cn \<noteq> None"

definition ov_disconnected :: "string \<Rightarrow> int \<Rightarrow> int \<Rightarrow> 'o openvpn \<Rightarrow> 'o openvpn" where
  "ov_disconnected cn received sent s =
    (case map_of (ov_byCN s) cn of
       None \<Rightarrow> s
     | Some key \<Rightarrow>
         let (u, d) = (case ov_closed s key of None \<Rightarrow> (0, 0) | Some c \<Rightarrow> c) in
         s\<lparr>ov_closed := (ov_closed s)(key \<mapsto> (i64 (u + received), i64 (d + sent)))\<rparr>)"

definition ov_checkPeerData :: "bytes \<Rightarrow> unit result" where
  "ov_checkPeerData d = (if length d \<noteq> UUIDLen then Inl ''peer data must be a 16-byte uuid'' else ok)"

text \<open>The certificate's length is written as a \<^verbatim>\<open>uint32\<close>.\<close>

definition ov_pack :: "bytes \<Rightarrow> bytes \<Rightarrow> bytes" where
  "ov_pack certDER keyDER = be_bytes 4 (length certDER mod 2 ^ 32) @ certDER @ keyDER"

definition ov_AddPeer :: "'o ca_ops \<Rightarrow> bytes \<Rightarrow> 'o openvpn \<Rightarrow> bytes result \<times> 'o openvpn" where
  "ov_AddPeer ca d s =
    (case ov_checkPeerData d of
       Inl e \<Rightarrow> (Inl e, s)
     | Inr _ \<Rightarrow>
         (case ov_pki s of
            None \<Rightarrow> (Inl ''openvpn was not initialised'', s)
          | Some p \<Rightarrow>
              let cn = FormatUUID d; key = session_key d in
              (case ca_IssueClient ca (pki_caDER p) cn (ov_world s) of
                 (Inl e, w) \<Rightarrow> (Inl e, s\<lparr>ov_world := w\<rparr>)
               | (Inr (certDER, keyDER), w) \<Rightarrow>
                   (Inr (ov_pack certDER keyDER),
                    s\<lparr>ov_world := w, ov_byCN := AList.update cn key (ov_byCN s),
                      ov_closed := (if ov_closed s key = None then (ov_closed s)(key \<mapsto> (0, 0)) else ov_closed s),
                      ov_peers := ps_Put key (ov_peers s)\<rparr>))))"

definition ov_HasPeer :: "bytes \<Rightarrow> 'o openvpn \<Rightarrow> bool" where
  "ov_HasPeer d s = ps_Has (session_key d) (ov_peers s)"

definition ov_RemovePeer :: "'o ov_net \<Rightarrow> bytes \<Rightarrow> 'o openvpn \<Rightarrow> unit result \<times> 'o openvpn" where
  "ov_RemovePeer net d s =
    (case ov_checkPeerData d of
       Inl e \<Rightarrow> (Inl e, s)
     | Inr _ \<Rightarrow>
         let cn = FormatUUID d; key = session_key d;
             s1 = s\<lparr>ov_byCN := AList.delete cn (ov_byCN s), ov_closed := (ov_closed s)(key := None),
                    ov_peers := ps_Delete key (ov_peers s)\<rparr>
         in if \<not> ov_mgmt s1 then (ok, s1)
            else case mgmt_kill net cn (ov_world s1) of (r, w) \<Rightarrow> (r, s1\<lparr>ov_world := w\<rparr>))"

text \<open>The usage of one peer, given the connected clients: what its ended connections used, plus the
  counters of the live connection of each of its names.\<close>

definition live_of :: "client_status list \<Rightarrow> string \<Rightarrow> (int \<times> int) option" where
  "live_of rows cn = map_of (rev (map (\<lambda>r. (cs_commonName r, cs_received r, cs_sent r)) rows)) cn"

definition add_live :: "client_status list \<Rightarrow> string \<Rightarrow> string \<times> string \<Rightarrow> peer \<Rightarrow> peer" where
  "add_live rows key = (\<lambda>(cn, k) item.
    if k \<noteq> key then item
    else case live_of rows cn of
      None \<Rightarrow> item
    | Some (received, sent) \<Rightarrow>
        item\<lparr>peer_Upload := i64 (peer_Upload item + received), peer_Download := i64 (peer_Download item + sent)\<rparr>)"

definition ov_usage :: "client_status list \<Rightarrow> 'o openvpn \<Rightarrow> string \<Rightarrow> peer" where
  "ov_usage rows s key =
    for_each (add_live rows key) (ov_byCN s)
      (case ov_closed s key of
         None \<Rightarrow> \<lparr>peer_Key = key, peer_Upload = 0, peer_Download = 0\<rparr>
       | Some (u, d) \<Rightarrow> \<lparr>peer_Key = key, peer_Upload = u, peer_Download = d\<rparr>)"

definition ov_Peers :: "'o ov_net \<Rightarrow> 'o openvpn \<Rightarrow> peer list result \<times> 'o openvpn" where
  "ov_Peers net s =
    (if \<not> ov_mgmt s then (Inr (map (ov_usage [] s) (ps_Keys (ov_peers s))), s)
     else case mgmt_status net (ov_world s) of
       (Inl e, w) \<Rightarrow> (Inl e, s\<lparr>ov_world := w\<rparr>)
     | (Inr rows, w) \<Rightarrow>
         (Inr (map (ov_usage rows s) (ps_Keys (ov_peers s))), s\<lparr>ov_world := w\<rparr>))"

definition ov_PeerCount :: "'o openvpn \<Rightarrow> nat" where
  "ov_PeerCount s = ps_Len (ov_peers s)"

definition ov_service :: "'o ca_ops \<Rightarrow> 'o ov_net \<Rightarrow> 'o openvpn service" where
  "ov_service ca net =
    \<lparr>svc_AddPeer = ov_AddPeer ca, svc_HasPeer = ov_HasPeer, svc_RemovePeer = ov_RemovePeer net,
     svc_Peers = ov_Peers net, svc_PeerCount = ov_PeerCount\<rparr>"

section \<open>What a client receives\<close>

definition ov_ListenPort :: "'o openvpn \<Rightarrow> 16 word" where
  "ov_ListenPort s = be16 (ov_info s)"

record ov_payload =
  op_Port :: "16 word"
  op_Protocol :: string
  op_CA :: bytes
  op_TLS :: bytes
  op_Cert :: bytes
  op_Key :: bytes

definition ov_HandshakePayload :: "'o openvpn \<Rightarrow> bytes \<Rightarrow> ov_payload result" where
  "ov_HandshakePayload s result =
    (if length result < 4 then Inl ''unexpected openvpn peer result''
     else let certLen = big_of_bytes (take 4 result) in
       if certLen = 0 \<or> length result < 4 + certLen then Inl ''unexpected openvpn peer result length''
       else case ov_pki s of
         None \<Rightarrow> Inl ''openvpn was not initialised''
       | Some p \<Rightarrow>
           Inr \<lparr>op_Port = ov_ListenPort s, op_Protocol = ovc_Proto (ov_conf s), op_CA = pki_caDER p,
                op_TLS = pki_tlsCrypt p, op_Cert = take certLen (drop 4 result),
                op_Key = drop (4 + certLen) result\<rparr>)"

definition ov_PublicMetadata :: "'o openvpn \<Rightarrow> string list" where
  "ov_PublicMetadata s = [if ov_info s ! 2 = 2 then ProtoTCP else ProtoUDP]"

section \<open>The contract\<close>

lemma ov_AddPeer_cases:
  assumes "ov_AddPeer ca d s = (r, s')"
  obtains (failed) e where "r = Inl e" "ov_peers s' = ov_peers s" "ov_byCN s' = ov_byCN s" "ov_closed s' = ov_closed s"
      "ov_pki s' = ov_pki s"
  | (added) p cert key where "length d = 16" "r = Inr (ov_pack cert key)" "ov_pki s = Some p" "ov_pki s' = Some p"
      "fst (ca_IssueClient ca (pki_caDER p) (FormatUUID d) (ov_world s)) = Inr (cert, key)"
      "ov_peers s' = ps_Put (session_key d) (ov_peers s)"
      "ov_byCN s' = AList.update (FormatUUID d) (session_key d) (ov_byCN s)"
      "ov_closed s' = (if ov_closed s (session_key d) = None then (ov_closed s)(session_key d \<mapsto> (0, 0)) else ov_closed s)"
proof (cases r)
  case (Inl e)
  then have "ov_peers s' = ov_peers s \<and> ov_byCN s' = ov_byCN s \<and> ov_closed s' = ov_closed s \<and> ov_pki s' = ov_pki s"
    using assms by (auto simp: ov_AddPeer_def ov_checkPeerData_def Let_def split: if_splits option.splits prod.splits sum.splits)
  with Inl failed show ?thesis by blast
next
  case (Inr b)
  then obtain p cert key w where "length d = 16" "b = ov_pack cert key" "ov_pki s = Some p"
    "ca_IssueClient ca (pki_caDER p) (FormatUUID d) (ov_world s) = (Inr (cert, key), w)"
    "s' = s\<lparr>ov_world := w, ov_byCN := AList.update (FormatUUID d) (session_key d) (ov_byCN s),
      ov_closed := (if ov_closed s (session_key d) = None then (ov_closed s)(session_key d \<mapsto> (0, 0)) else ov_closed s),
      ov_peers := ps_Put (session_key d) (ov_peers s)\<rparr>"
    using assms
    by (auto simp: ov_AddPeer_def ov_checkPeerData_def UUIDLen_def Let_def split: if_splits option.splits prod.splits sum.splits)
  with Inr show ?thesis by (intro added [of cert key p]) simp_all
qed

lemma ov_RemovePeer_cases:
  assumes "ov_RemovePeer net d s = (r, s')"
  obtains (refused) e where "r = Inl e" "s' = s"
  | (removed) "length d = 16" "ov_peers s' = ps_Delete (session_key d) (ov_peers s)"
      "ov_byCN s' = AList.delete (FormatUUID d) (ov_byCN s)" "ov_closed s' = (ov_closed s)(session_key d := None)"
proof (cases "length d = 16")
  case True
  then have "ov_peers s' = ps_Delete (session_key d) (ov_peers s) \<and>
      ov_byCN s' = AList.delete (FormatUUID d) (ov_byCN s) \<and> ov_closed s' = (ov_closed s)(session_key d := None)"
    using assms by (auto simp: ov_RemovePeer_def ov_checkPeerData_def UUIDLen_def Let_def split: if_splits prod.splits)
  with True removed show ?thesis by blast
next
  case False
  with assms have "s' = s" "\<exists>e. r = Inl e" by (auto simp: ov_RemovePeer_def ov_checkPeerData_def UUIDLen_def)
  with refused show ?thesis by blast
qed

lemma ov_Peers_keeps:
  "ov_Peers net s = (r, s') \<Longrightarrow>
    ov_peers s' = ov_peers s \<and> ov_byCN s' = ov_byCN s \<and> ov_closed s' = ov_closed s"
  by (auto simp: ov_Peers_def split: if_splits prod.splits sum.splits)

interpretation ov: peer_set_service "ov_service ca net" ov_peers
  for ca net
proof
  fix s s' :: "'a openvpn" and d r r' r''
  show "svc_HasPeer (ov_service ca net) d s = ps_Has (session_key d) (ov_peers s)"
    by (simp add: ov_service_def ov_HasPeer_def)
  show "svc_PeerCount (ov_service ca net) s = ps_Len (ov_peers s)"
    by (simp add: ov_service_def ov_PeerCount_def)
  show "ov_peers s' = (if is_ok r then ps_Put (session_key d) (ov_peers s) else ov_peers s)"
    if "svc_AddPeer (ov_service ca net) d s = (r, s')"
    using that by (auto simp: ov_service_def elim!: ov_AddPeer_cases)
  show "ov_peers s' = ps_Delete (session_key d) (ov_peers s) \<or> \<not> is_ok r' \<and> ov_peers s' = ov_peers s"
    if "svc_RemovePeer (ov_service ca net) d s = (r', s')"
    using that by (auto simp: ov_service_def elim!: ov_RemovePeer_cases)
  show "ov_peers s' = ov_peers s" if "svc_Peers (ov_service ca net) s = (r'', s')"
    using that by (auto simp: ov_service_def dest: ov_Peers_keeps)
qed

section \<open>Replies in order\<close>

text \<open>A complete reply: its last line, and no other, ends the command, and none of its lines is an event.\<close>

definition reply_ok :: "bool \<Rightarrow> string list \<Rightarrow> bool" where
  "reply_ok multi ls \<longleftrightarrow>
    ls \<noteq> [] \<and> is_final multi (last ls) \<and> (\<forall>l \<in> set (butlast ls). \<not> is_final multi l) \<and>
    (\<forall>l \<in> set ls. \<not> has_prefix l ''>'')"

primrec is_done :: "mgmt_action \<Rightarrow> bool" where
  "is_done (SendCommand _) = False"
| "is_done (Disconnected _ _ _) = False"
| "is_done (CommandDone _) = True"

lemma handleEvent_not_done: "handleEvent admit ev line = (ev', acts) \<Longrightarrow> filter is_done acts = []"
  by (auto simp: handleEvent_def finishEvent_def Let_def split: if_splits prod.splits option.splits)

lemma mgmt_line_event:
  assumes "has_prefix line ''>''" "mgmt_line admit m line = (m', acts)"
  shows "mg_pending m' = mg_pending m \<and> filter is_done acts = []"
  using assms by (auto simp: mgmt_line_def handleEvent_not_done split: prod.splits)

lemma mgmt_read_replies:
  assumes "list_all2 (\<lambda>p ls. reply_ok (pd_multi p) ls) ps rs"
    and "mg_pending m = ps @ qs" "filter (\<lambda>l. \<not> has_prefix l ''>'') stream = concat rs"
    and "mgmt_read admit m stream = (m', acts)"
  shows "filter is_done acts = map2 (\<lambda>p ls. CommandDone (p\<lparr>pd_lines := pd_lines p @ ls\<rparr>)) ps rs \<and> mg_pending m' = qs"
  using assms
proof (induction stream arbitrary: m ps rs acts)
  case Nil
  have "ls \<noteq> []" if "ls \<in> set rs" for ls
    using Nil.prems(1) that by (auto simp: list_all2_conv_all_nth in_set_conv_nth reply_ok_def)
  with Nil.prems(3) have "rs = []" by (cases rs) auto
  with Nil.prems show ?case by simp
next
  case (Cons line stream)
  obtain m1 acts1 where one: "mgmt_line admit m line = (m1, acts1)" by fastforce
  obtain acts2 where rest: "mgmt_read admit m1 stream = (m', acts2)" and acts: "acts = acts1 @ acts2"
    using Cons.prems(4) one by (auto split: prod.splits)
  show ?case
  proof (cases "has_prefix line ''>''")
    case True
    from mgmt_line_event [OF True one] Cons.prems(2) have "mg_pending m1 = ps @ qs" "filter is_done acts1 = []" by simp_all
    with Cons.IH [OF Cons.prems(1) this(1) _ rest] Cons.prems(3) True acts show ?thesis by simp
  next
    case False
    with Cons.prems(3) have concat: "concat rs = line # filter (\<lambda>l. \<not> has_prefix l ''>'') stream" by simp
    then obtain r rs' where rs: "rs = r # rs'" by (cases rs) auto
    with Cons.prems(1) obtain p ps' where ps: "ps = p # ps'" and r: "reply_ok (pd_multi p) r"
      and tl: "list_all2 (\<lambda>p ls. reply_ok (pd_multi p) ls) ps' rs'"
      by (auto simp: list_all2_Cons2)
    from r concat rs obtain ls where ls: "r = line # ls" "ls @ concat rs' = filter (\<lambda>l. \<not> has_prefix l ''>'') stream"
      by (cases r) (auto simp: reply_ok_def)
    let ?p = "p\<lparr>pd_lines := pd_lines p @ [line]\<rparr>"
    show ?thesis
    proof (cases "ls = []")
      case True
      with r ls have "is_final (pd_multi p) line" by (simp add: reply_ok_def)
      with one False Cons.prems(2) ps have "mg_pending m1 = ps' @ qs" "acts1 = [CommandDone ?p]"
        by (auto simp: mgmt_line_def Let_def)
      with Cons.IH [OF tl this(1) _ rest] ls True acts ps rs show ?thesis by simp
    next
      case more: False
      with r ls have "\<not> is_final (pd_multi p) line" "reply_ok (pd_multi ?p) ls" by (auto simp: reply_ok_def)
      moreover from this(1) one False Cons.prems(2) ps have "mg_pending m1 = (?p # ps') @ qs" "acts1 = []"
        by (auto simp: mgmt_line_def Let_def)
      ultimately show ?thesis
        using Cons.IH [of "?p # ps'" "ls # rs'" m1 acts2] tl rest ls acts ps rs by simp
    qed
  qed
qed



section \<open>Who is let in\<close>

text \<open>The states of a service: after \<^verbatim>\<open>Init\<close>, any sequence of peer operations and of ended connections.\<close>

inductive ov_reach :: "'o ca_ops \<Rightarrow> 'o ov_net \<Rightarrow> 'o openvpn \<Rightarrow> bool" for ca net where
  ov_start: "ov_Init h pk ca read rt verbose home (NewOpenVPN w) = (ok, s) \<Longrightarrow> ov_reach ca net s"
| ov_attach: "ov_reach ca net s \<Longrightarrow> ov_reach ca net (snd (ov_Start h po net tries pol s))"
| ov_add: "ov_reach ca net s \<Longrightarrow> ov_reach ca net (snd (ov_AddPeer ca d s))"
| ov_remove: "ov_reach ca net s \<Longrightarrow> ov_reach ca net (snd (ov_RemovePeer net d s))"
| ov_poll: "ov_reach ca net s \<Longrightarrow> ov_reach ca net (snd (ov_Peers net s))"
| ov_left: "ov_reach ca net s \<Longrightarrow> ov_reach ca net (ov_disconnected cn received sent s)"

definition ov_inv :: "'o openvpn \<Rightarrow> bool" where
  "ov_inv s \<longleftrightarrow>
    distinct (map fst (ov_byCN s)) \<and> dom (ov_closed s) = set (ov_peers s) \<and>
    (\<forall>cn k. map_of (ov_byCN s) cn = Some k \<longleftrightarrow> auth_of (set (ov_peers s)) cn k)"

lemma ov_same_inv:
  assumes "ov_inv s" "ov_peers s' = ov_peers s" "ov_byCN s' = ov_byCN s" "ov_closed s' = ov_closed s"
  shows "ov_inv s'"
  using assms by (simp add: ov_inv_def)

lemma ov_Init_fields:
  "ov_peers (snd (ov_Init h pk ca read rt verbose home s)) = ov_peers s \<and>
   ov_byCN (snd (ov_Init h pk ca read rt verbose home s)) = ov_byCN s \<and>
   ov_closed (snd (ov_Init h pk ca read rt verbose home s)) = ov_closed s"
  unfolding ov_Init_def Let_def by (simp split: sum.split prod.split)

lemma ov_Start_fields:
  "ov_peers (snd (ov_Start h po net tries pol s)) = ov_peers s \<and>
   ov_byCN (snd (ov_Start h po net tries pol s)) = ov_byCN s \<and>
   ov_closed (snd (ov_Start h po net tries pol s)) = ov_closed s"
  unfolding ov_Start_def Let_def by (simp split: sum.split prod.split)

lemma ov_AddPeer_inv:
  assumes "ov_inv s" "ov_AddPeer ca d s = (r, s')"
  shows "ov_inv s'"
  using assms(2)
proof (cases rule: ov_AddPeer_cases)
  case (added p cert key)
  have "map_of (ov_byCN s') cn = Some k \<longleftrightarrow> auth_of (set (ov_peers s')) cn k" for cn k
    using assms(1) unfolding ov_inv_def added by (auto simp: update_conv auth_of_insert [OF added(1)])
  with assms(1) show ?thesis unfolding ov_inv_def added by (auto simp: distinct_update)
qed (use assms(1) in \<open>simp add: ov_inv_def\<close>)

lemma ov_RemovePeer_inv:
  assumes "ov_inv s" "ov_RemovePeer net d s = (r, s')"
  shows "ov_inv s'"
  using assms(2)
proof (cases rule: ov_RemovePeer_cases)
  case removed
  have "map_of (ov_byCN s') cn = Some k \<longleftrightarrow> auth_of (set (ov_peers s')) cn k" for cn k
    using assms(1) unfolding ov_inv_def removed
    by (auto simp: delete_conv auth_of_remove [OF removed(1)])
  with assms(1) show ?thesis unfolding ov_inv_def removed by (auto simp: distinct_delete)
qed (use assms(1) in simp)

lemma ov_disconnected_inv: "ov_inv s \<Longrightarrow> ov_inv (ov_disconnected cn received sent s)"
proof (cases "map_of (ov_byCN s) cn")
  case (Some k)
  assume inv: "ov_inv s"
  with Some have "auth_of (set (ov_peers s)) cn k" by (simp add: ov_inv_def)
  then have "k \<in> set (ov_peers s)" by (auto simp: auth_of_def)
  moreover obtain u d where "(case ov_closed s k of None \<Rightarrow> (0, 0) | Some c \<Rightarrow> c) = (u, d)" by fastforce
  then have "ov_disconnected cn received sent s =
      s\<lparr>ov_closed := (ov_closed s)(k \<mapsto> (i64 (u + received), i64 (d + sent)))\<rparr>"
    by (simp add: ov_disconnected_def Some)
  ultimately show ?thesis using inv by (simp add: ov_inv_def insert_absorb)
qed (simp add: ov_disconnected_def)

lemma ov_reach_inv: "ov_reach ca net s \<Longrightarrow> ov_inv s"
proof (induction rule: ov_reach.induct)
  case (ov_start h pk read rt verbose home w s)
  with ov_Init_fields [of h pk ca read rt verbose home "NewOpenVPN w"] show ?case
    by (simp add: NewOpenVPN_def ov_inv_def auth_of_def)
next
  case (ov_attach s h po tries pol)
  then show ?case using ov_Start_fields [of h po net tries pol s] by (intro ov_same_inv [OF ov_attach(2)]) simp_all
next
  case (ov_poll s)
  then show ?case using ov_Peers_keeps [of net s "fst (ov_Peers net s)" "snd (ov_Peers net s)"]
    by (intro ov_same_inv [OF ov_poll(2)]) simp_all
qed (metis ov_AddPeer_inv ov_RemovePeer_inv ov_disconnected_inv prod.collapse)+

lemma cut_at_append: "c \<notin> set a \<Longrightarrow> cut_at c (a @ c # b) = Some (a, b)"
  by (induction a) auto


section \<open>The client's certificate and key\<close>

text \<open>C38: what \<^const>\<open>ov_AddPeer\<close> packs, the handshake unpacks: for an issued certificate that is not empty
  and shorter than 2^32 bytes the client receives exactly the certificate and the key that were issued
  to it.\<close>

theorem ov_payload_round_trip:
  assumes "ov_AddPeer ca d s = (Inr result, s')" "ov_pki s = Some p"
    and "fst (ca_IssueClient ca (pki_caDER p) (FormatUUID d) (ov_world s)) = Inr (cert, key)"
    and "cert \<noteq> []" "length cert < 2 ^ 32"
  shows "\<exists>pl. ov_HandshakePayload s' result = Inr pl \<and> op_Cert pl = cert \<and> op_Key pl = key"
  using assms(1)
proof (cases rule: ov_AddPeer_cases)
  case (added p' cert' key')
  with assms have eq: "result = ov_pack cert key" "ov_pki s' = Some p" by simp_all
  have "big_of_bytes (be_bytes 4 (length cert)) = length cert" using assms(5) by (simp add: big_of_be_bytes)
  then have "big_of_bytes (take 4 result) = length cert" using assms(5) by (simp add: eq ov_pack_def)
  then show ?thesis using assms(4) by (simp add: ov_HandshakePayload_def eq ov_pack_def Let_def)
qed simp

section \<open>Usage across reconnects\<close>

lemma for_each_other: "(\<And>x. x \<in> set xs \<Longrightarrow> f x a = a) \<Longrightarrow> for_each f xs a = a"
  by (induction xs) auto

lemma for_each_cong: "(\<And>x b. x \<in> set xs \<Longrightarrow> f x b = g x b) \<Longrightarrow> for_each f xs a = for_each g xs a"
  by (induction xs arbitrary: a) auto

declare for_each_append [simp]

lemma for_each_single:
  assumes "distinct xs" "x \<in> set xs" "\<And>y b. y \<in> set xs \<Longrightarrow> y \<noteq> x \<Longrightarrow> f y b = b"
  shows "for_each f xs a = f x a"
proof -
  obtain us vs where xs: "xs = us @ x # vs" using assms(2) by (meson split_list)
  with assms(1) have "x \<notin> set us" "x \<notin> set vs" by auto
  then have "for_each f us a = a" for a using assms(3) xs by (intro for_each_other) auto
  moreover have "for_each f vs b = b" for b using assms(3) xs \<open>x \<notin> set vs\<close> by (intro for_each_other) auto
  ultimately show ?thesis by (simp add: xs)
qed

lemma auth_of_unique: "auth_of K a k \<Longrightarrow> auth_of K b k \<Longrightarrow> a = b"
  by (auto simp: auth_of_def)

text \<open>Under the invariant a peer has one name, so its usage is its banked traffic plus one live row.\<close>

lemma ov_usage_conv:
  assumes "ov_inv s" "map_of (ov_byCN s) cn = Some k" "ov_closed s k = Some (u, d)"
  shows "ov_usage rows s k = add_live rows k (cn, k) \<lparr>peer_Key = k, peer_Upload = u, peer_Download = d\<rparr>"
proof -
  have d: "distinct (map fst (ov_byCN s))" using assms(1) by (simp add: ov_inv_def)
  have "for_each (add_live rows k) (ov_byCN s) b = add_live rows k (cn, k) b" for b
  proof (rule for_each_single)
    show "distinct (ov_byCN s)" using d by (simp add: distinct_map)
    show "(cn, k) \<in> set (ov_byCN s)" using assms(2) by (rule map_of_SomeD)
    fix y b assume y: "y \<in> set (ov_byCN s)" "y \<noteq> (cn, k)"
    obtain cn' k' where y': "y = (cn', k')" by fastforce
    have "map_of (ov_byCN s) cn' = Some k'" using y(1) y' d by simp
    then have "k' \<noteq> k"
      using assms(1,2) auth_of_unique [of "set (ov_peers s)" cn k cn'] y(2) y' unfolding ov_inv_def by metis
    then show "add_live rows k y b = b" by (simp add: y' add_live_def)
  qed
  then show ?thesis unfolding ov_usage_def assms(3) by simp
qed

lemma ov_peer_name:
  assumes "ov_inv s" "k \<in> set (ov_peers s)"
  obtains u d where "ov_closed s k = Some (u, d)"
  using assms unfolding ov_inv_def by (metis domD surj_pair)

text \<open>C39: a client that drops its connection and comes back is billed once for what it used. When the
  server's row for a registered name disappears and its counters arrive with the notification, every
  peer's reported usage stays what it was.\<close>

theorem ov_usage_conserved:
  assumes "ov_reach ca net s" "map_of (ov_byCN s) cn = Some key"
    and "live_of rows cn = Some (received, sent)"
    and "live_of rows' cn = None" "\<And>other. other \<noteq> cn \<Longrightarrow> live_of rows' other = live_of rows other"
  shows "map (ov_usage rows' (ov_disconnected cn received sent s)) (ov_peers s) = map (ov_usage rows s) (ov_peers s)"
proof (rule map_cong [OF refl])
  fix k assume k: "k \<in> set (ov_peers s)"
  let ?s = "ov_disconnected cn received sent s"
  have inv: "ov_inv s" using assms(1) by (rule ov_reach_inv)
  obtain u d where c: "ov_closed s k = Some (u, d)" using ov_peer_name [OF inv k] .
  have byCN: "ov_byCN ?s = ov_byCN s"
    by (auto simp: ov_disconnected_def split: option.splits prod.splits)
  show "ov_usage rows' ?s k = ov_usage rows s k"
  proof (cases "k = key")
    case True
    have "ov_closed ?s k = Some (i64 (u + received), i64 (d + sent))"
      using assms(2) c True by (simp add: ov_disconnected_def)
    then have "ov_usage rows' ?s k =
        add_live rows' k (cn, k) \<lparr>peer_Key = k, peer_Upload = i64 (u + received), peer_Download = i64 (d + sent)\<rparr>"
      using assms(2) True by (intro ov_usage_conv ov_disconnected_inv inv) (simp_all add: byCN)
    also have "\<dots> = add_live rows k (cn, k) \<lparr>peer_Key = k, peer_Upload = u, peer_Download = d\<rparr>"
      using assms(3,4) by (simp add: add_live_def)
    also have "\<dots> = ov_usage rows s k" using ov_usage_conv [OF inv _ c] assms(2) True by simp
    finally show ?thesis .
  next
    case False
    have closed: "ov_closed ?s k = ov_closed s k"
      using assms(2) False by (auto simp: ov_disconnected_def split: option.splits prod.splits)
    have "add_live rows' k x b = add_live rows k x b" if "x \<in> set (ov_byCN s)" for x b
    proof -
      obtain cn' k' where x: "x = (cn', k')" by fastforce
      have "map_of (ov_byCN s) cn' = Some k'" using that inv x by (simp add: ov_inv_def)
      then have "cn' \<noteq> cn \<or> k' \<noteq> k" using assms(2) False by auto
      then show ?thesis using assms(5) by (auto simp: x add_live_def)
    qed
    then show ?thesis unfolding ov_usage_def byCN closed by (rule for_each_cong)
  qed
qed

section \<open>The authority across restarts\<close>

lemma pki_paths:
  "caCertPath dir \<noteq> caKeyPath dir" "caCertPath dir \<noteq> serverCertPath dir" "caCertPath dir \<noteq> serverKeyPath dir"
  "caCertPath dir \<noteq> tlsCryptPath dir" "caKeyPath dir \<noteq> serverCertPath dir" "caKeyPath dir \<noteq> serverKeyPath dir"
  "caKeyPath dir \<noteq> tlsCryptPath dir" "serverCertPath dir \<noteq> tlsCryptPath dir" "serverKeyPath dir \<noteq> tlsCryptPath dir"
  unfolding caCertPath_def caKeyPath_def serverCertPath_def serverKeyPath_def tlsCryptPath_def
  by (simp_all add: filepath_Join_inj plain_name_def)

lemma pki_create_files:
  assumes "files_doc h" "pki_create h ca dir w = (ok, w')"
    and "ca_Create ca w = (Inr (caCert, caKey, serverCert, serverKey, tlsCrypt), w1)"
    and "staticKeyFile tlsCrypt = Some tc"
  shows "h_ReadFile h (caCertPath dir) w' = Inr caCert \<and> h_ReadFile h (caKeyPath dir) w' = Inr caKey \<and>
    h_ReadFile h (tlsCryptPath dir) w' = Inr tc"
proof -
  have written: "h_ReadFile h p v' = Inr d \<and> (\<forall>q. q \<noteq> p \<longrightarrow> h_ReadFile h q v' = h_ReadFile h q v)"
    if "h_WriteFile h p d m v = (ok, v')" for p d m v v'
    using assms(1) that unfolding files_doc_def by blast
  from assms(2-4) obtain a b c d where
    "h_WriteFile h (caCertPath dir) caCert 420 w1 = (ok, a)" "h_WriteFile h (caKeyPath dir) caKey 384 a = (ok, b)"
    "h_WriteFile h (serverCertPath dir) serverCert 420 b = (ok, c)"
    "h_WriteFile h (serverKeyPath dir) serverKey 384 c = (ok, d)" "h_WriteFile h (tlsCryptPath dir) tc 384 d = (ok, w')"
    by (auto simp: pki_create_def split: prod.splits sum.splits)
  from this [THEN written] show ?thesis using pki_paths [of dir] by metis
qed


section \<open>Worked examples\<close>

definition demo_ca :: "'o ca_ops" where
  "demo_ca =
    \<lparr>ca_Create = (\<lambda>w. (Inr (''crt'', ''key'', ''crt'', ''key'', replicate 256 7), w)),
     ca_ParseCertificate = (\<lambda>_. ok), ca_ParseKey = (\<lambda>_. Inr True),
     ca_IssueClient = (\<lambda>_ _ w. (Inr ([1, 2], [3]), w))\<rparr>"

definition demo_pem :: pki where
  "demo_pem =
    \<lparr>pk_PemDecode = (\<lambda>t. Some (if t = ''crt'' then ''CERTIFICATE'' else ''PRIVATE KEY'', [])), pk_SHA256 = (\<lambda>b. b)\<rparr>"

lemma demo_authority:
  "\<exists>p w'. loadOrCreatePKI file_host demo_pem demo_ca dir Map.empty = (Inr p, w') \<and> caKeyPath dir \<in> dom w'"
proof -
  obtain tc where tc: "staticKeyFile (replicate 256 7) = Some tc" "parseStaticKeyFile tc = Inr (replicate 256 7)"
    using static_key_file [of "replicate 256 7"] by (auto simp: tlsCryptKeyLen_def)
  let ?w = "Map.empty(caCertPath dir \<mapsto> ''crt'', caKeyPath dir \<mapsto> ''key'', serverCertPath dir \<mapsto> ''crt'',
    serverKeyPath dir \<mapsto> ''key'', tlsCryptPath dir \<mapsto> tc)"
  have "pki_create file_host demo_ca dir Map.empty = (ok, ?w)"
    using tc(1) by (simp add: pki_create_def demo_ca_def file_host_def)
  moreover have "pki_load file_host demo_pem demo_ca dir ?w =
      Inr \<lparr>pki_dir = dir, pki_caDER = [], pki_tlsCrypt = replicate 256 7\<rparr>"
    using tc(2) pki_paths [of dir]
    by (simp add: pki_load_def demo_pem_def demo_ca_def file_host_def rbind_def)
  moreover have "h_MkdirAll file_host dir 448 Map.empty = (ok, Map.empty)"
    "\<not> h_Stat file_host (caKeyPath dir) Map.empty"
    by (simp_all add: file_host_def quiet_host_def)
  ultimately show ?thesis by (auto simp: loadOrCreatePKI_def)
qed


definition demo_ov_config :: ov_config where
  "demo_ov_config =
    \<lparr>ovc_Interface = ''ovpn0'', ovc_ListenPort = 1194, ovc_Proto = ''udp'', ovc_Uplink = ''eth0'', ovc_EnableIPv6 = True\<rparr>"

definition demo_ov_net :: "(string \<rightharpoonup> string) ov_net" where
  "demo_ov_net = \<lparr>on_Dial = (\<lambda>_ w. (ok, w)), on_Close = (\<lambda>w. w), on_Run = (\<lambda>_ _ w. (Replied [''END''], w))\<rparr>"

lemma ov_reach_demo: "\<exists>s. ov_reach demo_ca demo_ov_net s \<and> ov_peers s = [] \<and> (\<exists>p. ov_pki s = Some p)"
proof -
  let ?init = "ov_Init file_host demo_pem demo_ca (\<lambda>_ _. Inr demo_ov_config) demo_runtime False ''/home'' (NewOpenVPN Map.empty)"
  obtain p w' where p: "loadOrCreatePKI file_host demo_pem demo_ca (filepath_Join [''/home'', ''openvpn'']) Map.empty = (Inr p, w')"
    using demo_authority by blast
  have v: "ovc_Validate demo_ov_config = ok"
    by (simp add: ovc_Validate_def demo_ov_config_def ProtoUDP_def)
  have up: "ovc_Uplink demo_ov_config \<noteq> []" by (simp add: demo_ov_config_def)
  have h: "h_LookPath file_host n w = ok" "h_Remove file_host n w = (ok, w)" "h_WriteFile file_host n d m w = (ok, w(n \<mapsto> d))"
    "h_Chmod file_host n m w = (ok, w)" for n d m w
    by (simp_all add: file_host_def quiet_host_def)
  have "fst ?init = ok \<and> ov_pki (snd ?init) = Some p"
    using p by (simp add: ov_Init_def h v up rt_WriteFile_def demo_runtime_def NewOpenVPN_def Let_def)
  then have "ov_reach demo_ca demo_ov_net (snd ?init)" "ov_pki (snd ?init) = Some p" using ov_start by (metis prod.collapse)+
  moreover have "ov_peers (snd ?init) = []" by (simp add: ov_Init_fields) (simp add: NewOpenVPN_def)
  ultimately show ?thesis by blast
qed

abbreviation demo_uuid :: bytes where
  "demo_uuid \<equiv> replicate 16 7"

lemma ov_reach_one:
  "\<exists>s r s'. ov_reach demo_ca demo_ov_net s \<and> ov_AddPeer demo_ca demo_uuid s = (Inr r, s') \<and>
    ov_reach demo_ca demo_ov_net s' \<and> ov_HasPeer demo_uuid s' \<and>
    map_of (ov_byCN s') (FormatUUID demo_uuid) = Some (session_key demo_uuid) \<and> (\<exists>p. ov_pki s = Some p)"
proof -
  obtain s p where s: "ov_reach demo_ca demo_ov_net s" "ov_pki s = Some p" using ov_reach_demo by blast
  obtain r s' where add: "ov_AddPeer demo_ca demo_uuid s = (r, s')" by fastforce
  have "is_ok r"
    using add s(2) by (auto simp: ov_AddPeer_def ov_checkPeerData_def UUIDLen_def demo_ca_def Let_def)
  then obtain b where r: "r = Inr b" by (auto simp: is_ok_iff)
  have "ov_reach demo_ca demo_ov_net s'" using ov_add [OF s(1), of demo_uuid] add by simp
  moreover from add have "ov_HasPeer demo_uuid s' \<and> map_of (ov_byCN s') (FormatUUID demo_uuid) = Some (session_key demo_uuid)"
    by (cases rule: ov_AddPeer_cases) (use r in \<open>simp_all add: ov_HasPeer_def update_conv del: b64_encode.simps\<close>)
  ultimately show ?thesis using s add r by blast
qed


theorem ov_payload_round_trip_witness:
  "\<exists>s result s' pl. ov_AddPeer demo_ca demo_uuid s = (Inr result, s' :: (string \<rightharpoonup> string) openvpn) \<and>
    ov_HandshakePayload s' result = Inr pl \<and> op_Cert pl = [1, 2] \<and> op_Key pl = [3]"
proof -
  obtain s p r s' where s: "ov_AddPeer demo_ca demo_uuid s = (Inr r, s' :: (string \<rightharpoonup> string) openvpn)" "ov_pki s = Some p"
    using ov_reach_one by blast
  have "\<exists>pl. ov_HandshakePayload s' r = Inr pl \<and> op_Cert pl = [1, 2] \<and> op_Key pl = [3]"
    by (rule ov_payload_round_trip [OF s]) (simp_all add: demo_ca_def)
  with s show ?thesis by blast
qed

theorem ov_usage_conserved_witness:
  "\<exists>s. ov_reach demo_ca demo_ov_net s \<and> ov_HasPeer demo_uuid s \<and>
    map (ov_usage [] (ov_disconnected (FormatUUID demo_uuid) 5 9 s)) (ov_peers s) =
    map (ov_usage [\<lparr>cs_commonName = FormatUUID demo_uuid, cs_received = 5, cs_sent = 9, cs_cid = ''4''\<rparr>] s) (ov_peers s)"
proof -
  obtain s where s: "ov_reach demo_ca demo_ov_net s" "ov_HasPeer demo_uuid s"
    "map_of (ov_byCN s) (FormatUUID demo_uuid) = Some (session_key demo_uuid)" using ov_reach_one by blast
  have "map (ov_usage [] (ov_disconnected (FormatUUID demo_uuid) 5 9 s)) (ov_peers s) =
    map (ov_usage [\<lparr>cs_commonName = FormatUUID demo_uuid, cs_received = 5, cs_sent = 9, cs_cid = ''4''\<rparr>] s) (ov_peers s)"
    by (rule ov_usage_conserved [OF s(1,3)]) (simp_all add: live_of_def)
  with s show ?thesis by blast
qed

end
