(* ===== verification/Awg_Config.thy ===== *)
theory Awg_Config
  imports WireGuard "HOL-Library.Countable"
begin

text \<open>
  The settings of the AmneziaWG service: the obfuscation parameters, the 3.1 tier and the tunnel networks,
  from \<^verbatim>\<open>services/amneziawg/types/config.go\<close> and \<^verbatim>\<open>subnet.go\<close>. SHA-256 and the public key of a private
  key are parameters; random draws come from a sequence of numbers, one per draw.
\<close>

section \<open>The default tier's parameters\<close>

record obfuscation =
  ob_Jc :: "16 word"
  ob_Jmin :: "16 word"
  ob_Jmax :: "16 word"
  ob_S1 :: "16 word"
  ob_S2 :: "16 word"
  ob_S3 :: "16 word"
  ob_S4 :: "16 word"
  ob_H1 :: "32 word"
  ob_H2 :: "32 word"
  ob_H3 :: "32 word"
  ob_H4 :: "32 word"
  ob_I1 :: string
  ob_I2 :: string
  ob_I3 :: string
  ob_I4 :: string
  ob_I5 :: string

text \<open>The regular expression \<^verbatim>\<open>iPacket\<close>. No tag has a \<^verbatim>\<open>>\<close> inside, so the text up to the next one is
  the tag.\<close>

definition all_of :: "(char \<Rightarrow> bool) \<Rightarrow> string \<Rightarrow> bool" where
  "all_of P s \<longleftrightarrow> s \<noteq> [] \<and> list_all P s"

definition tag_ok :: "string \<Rightarrow> bool" where
  "tag_ok t \<longleftrightarrow>
    t = ''t'' \<or>
    has_prefix t ''b 0x'' \<and> all_of (\<lambda>c. hex_val c \<noteq> None) (drop 4 t) \<or>
    has_prefix t ''r '' \<and> all_of (\<lambda>c. digit_val c \<noteq> None) (drop 2 t) \<or>
    has_prefix t ''rd '' \<and> all_of (\<lambda>c. digit_val c \<noteq> None) (drop 3 t) \<or>
    has_prefix t ''rc '' \<and> all_of (\<lambda>c. digit_val c \<noteq> None) (drop 3 t)"

function iPacket :: "string \<Rightarrow> bool" where
  "iPacket s =
    (case s of
       [] \<Rightarrow> False
     | c # s1 \<Rightarrow>
         let t = takeWhile (\<lambda>x. x \<noteq> CHR ''>'') s1; rest = drop (length t) s1 in
         c = CHR ''<'' \<and> tag_ok t \<and> rest \<noteq> [] \<and> (tl rest = [] \<or> iPacket (tl rest)))"
  by pat_completeness auto
termination iPacket
  by (relation "measure length") auto

declare iPacket.simps [simp del]

definition validatePaddings :: "16 word list \<Rightarrow> 16 word \<Rightarrow> unit result" where
  "validatePaddings s least =
    first_error
      [(s ! 0 > 1132 \<or> s ! 1 > 1188 \<or> s ! 2 > 1132 \<or> s ! 3 > 1132,
        ''s1, s3 and s4 must be at most 1132, s2 at most 1188''),
       (list_ex (\<lambda>v. v < least) s, ''s1-s4 must be at least '' @ itoa (unat least)),
       (unat (s ! 0) + 56 = unat (s ! 1), ''s1 + 56 must not equal s2'')]"

fun headers_from :: "32 word set \<Rightarrow> 32 word list \<Rightarrow> unit result" where
  "headers_from seen [] = ok"
| "headers_from seen (v # vs) =
    (if v \<le> 4 then Inl ''h1-h4 must be above 4''
     else if v \<in> seen then Inl ''h1-h4 must be distinct''
     else headers_from (insert v seen) vs)"

definition validateHeaders :: "32 word list \<Rightarrow> bool \<Rightarrow> unit result" where
  "validateHeaders hs allowZero =
    (if allowZero \<and> hs ! 0 = 0 \<and> hs ! 1 = 0 \<and> hs ! 2 = 0 \<and> hs ! 3 = 0 then ok
     else headers_from {} hs)"

definition IPackets :: "obfuscation \<Rightarrow> (string \<times> string) list" where
  "IPackets c =
    [(''i1'', ob_I1 c), (''i2'', ob_I2 c), (''i3'', ob_I3 c), (''i4'', ob_I4 c), (''i5'', ob_I5 c)]"

abbreviation ob_S :: "obfuscation \<Rightarrow> 16 word list" where
  "ob_S c \<equiv> [ob_S1 c, ob_S2 c, ob_S3 c, ob_S4 c]"

abbreviation ob_H :: "obfuscation \<Rightarrow> 32 word list" where
  "ob_H c \<equiv> [ob_H1 c, ob_H2 c, ob_H3 c, ob_H4 c]"

text \<open>The code goes through the signature packets in no particular order; here the first bad one names
  the error.\<close>

definition ob_Validate :: "obfuscation \<Rightarrow> unit result" where
  "ob_Validate c =
    (if ob_Jc c > 128 then Inl ''jc must be at most 128''
     else if ob_Jmax c > 1280 \<or> ob_Jmin c > ob_Jmax c
     then Inl ''jmin must not exceed jmax, and jmax must be at most 1280''
     else rbind (validatePaddings (ob_S c) 0) (\<lambda>_.
          rbind (validateHeaders (ob_H c) True) (\<lambda>_.
          first_error (map (\<lambda>(name, v). (v \<noteq> [] \<and> \<not> iPacket v, name @ '' is not in AmneziaWG's tag syntax''))
            (IPackets c)))))"

definition junkLines :: "obfuscation \<Rightarrow> string list" where
  "junkLines c =
    [''Jc = '' @ itoa (unat (ob_Jc c)), ''Jmin = '' @ itoa (unat (ob_Jmin c)), ''Jmax = '' @ itoa (unat (ob_Jmax c))]"

definition iPacketLines :: "obfuscation \<Rightarrow> string list" where
  "iPacketLines c =
    map (\<lambda>(name, v). name @ '' = '' @ v)
      (filter (\<lambda>(name, v). v \<noteq> [])
        [(''I1'', ob_I1 c), (''I2'', ob_I2 c), (''I3'', ob_I3 c), (''I4'', ob_I4 c), (''I5'', ob_I5 c)])"

definition paramLines :: "16 word list \<Rightarrow> 32 word list \<Rightarrow> string list" where
  "paramLines s hs =
    [''S1 = '' @ itoa (unat (s ! 0)), ''S2 = '' @ itoa (unat (s ! 1)), ''S3 = '' @ itoa (unat (s ! 2)),
     ''S4 = '' @ itoa (unat (s ! 3)), ''H1 = '' @ itoa (unat (hs ! 0)), ''H2 = '' @ itoa (unat (hs ! 1)),
     ''H3 = '' @ itoa (unat (hs ! 2)), ''H4 = '' @ itoa (unat (hs ! 3))]"

definition ob_InterfaceLines :: "obfuscation \<Rightarrow> string list" where
  "ob_InterfaceLines c = junkLines c @ paramLines (ob_S c) (ob_H c) @ iPacketLines c"

section \<open>Random parameters\<close>

text \<open>\<open>rnd i\<close> is the number the \<open>i\<close>-th draw reads; a draw from a range takes it modulo the range's size.
  The loops return the index of the next draw with their result.\<close>

type_synonym draws = "nat \<Rightarrow> nat"

definition randomUint16 :: "nat \<Rightarrow> 16 word \<Rightarrow> 16 word \<Rightarrow> 16 word" where
  "randomUint16 n lo hi = lo + of_nat (n mod unat (hi - lo + 1))"

definition randomUint32 :: "nat \<Rightarrow> 32 word \<Rightarrow> 32 word \<Rightarrow> 32 word" where
  "randomUint32 n lo hi = lo + of_nat n mod (hi - lo + 1)"

partial_function (option) draw_s2 :: "16 word \<Rightarrow> 16 word \<Rightarrow> draws \<Rightarrow> nat \<Rightarrow> (16 word \<times> nat) option" where
  "draw_s2 least s1 rnd i =
    (let s2 = randomUint16 (rnd i) least 150 in
     if unat s1 + 56 \<noteq> unat s2 then Some (s2, Suc i) else draw_s2 least s1 rnd (Suc i))"

definition randomHandshakePaddings :: "16 word \<Rightarrow> draws \<Rightarrow> nat \<Rightarrow> ((16 word \<times> 16 word) \<times> nat) option" where
  "randomHandshakePaddings least rnd i =
    (let s1 = randomUint16 (rnd i) least 150 in
     map_option (\<lambda>(s2, j). ((s1, s2), j)) (draw_s2 least s1 rnd (Suc i)))"

partial_function (option) draw_headers :: "draws \<Rightarrow> 32 word list \<Rightarrow> nat \<Rightarrow> (32 word list \<times> nat) option" where
  "draw_headers rnd hs i =
    (if 4 \<le> length hs then Some (hs, i)
     else let h = randomUint32 (rnd i) 5 (2 ^ 31) in
       if h \<in> set hs then draw_headers rnd hs (Suc i) else draw_headers rnd (hs @ [h]) (Suc i))"

definition randomHeaders :: "draws \<Rightarrow> nat \<Rightarrow> (32 word list \<times> nat) option" where
  "randomHeaders rnd i = draw_headers rnd [] i"

definition ob_Generate :: "draws \<Rightarrow> nat \<Rightarrow> obfuscation \<Rightarrow> (obfuscation \<times> nat) option" where
  "ob_Generate rnd i c =
    (case randomHandshakePaddings 15 rnd i of
       None \<Rightarrow> None
     | Some ((s1, s2), j) \<Rightarrow>
         map_option (\<lambda>(hs, k).
           (c\<lparr>ob_Jc := 4, ob_Jmin := 40, ob_Jmax := 70, ob_S1 := s1, ob_S2 := s2, ob_S3 := 0, ob_S4 := 0,
              ob_H1 := hs ! 0, ob_H2 := hs ! 1, ob_H3 := hs ! 2, ob_H4 := hs ! 3\<rparr>, k))
           (randomHeaders rnd j))"

section \<open>The 3.1 tier\<close>

record awg_v3 =
  v3_Enabled :: bool
  v3_Interface :: string
  v3_ListenPort :: "16 word"
  v3_PrivateKey :: string
  v3_IPv4Subnet :: string
  v3_IPv6Subnet :: string
  v3_HeaderProtectionKey :: string
  v3_S1 :: "16 word"
  v3_S2 :: "16 word"
  v3_S3 :: "16 word"
  v3_S4 :: "16 word"
  v3_H1 :: "32 word"
  v3_H2 :: "32 word"
  v3_H3 :: "32 word"
  v3_H4 :: "32 word"
  v3_RandomTrailers :: bool
  v3_ContentPaddingAddition :: string

definition VersionDefault :: int where
  "VersionDefault = 2"

definition Version3 :: int where
  "Version3 = 3"

definition V3Interface :: string where
  "V3Interface = ''awg1''"

definition V3MTU :: nat where
  "V3MTU = 1280"

definition V3MinPadding :: "16 word" where
  "V3MinPadding = 12"

definition HeaderKeyLength :: nat where
  "HeaderKeyLength = 32"

abbreviation v3_S :: "awg_v3 \<Rightarrow> 16 word list" where
  "v3_S v \<equiv> [v3_S1 v, v3_S2 v, v3_S3 v, v3_S4 v]"

abbreviation v3_H :: "awg_v3 \<Rightarrow> 32 word list" where
  "v3_H v \<equiv> [v3_H1 v, v3_H2 v, v3_H3 v, v3_H4 v]"

definition ParseRange :: "string \<Rightarrow> (nat \<times> nat) result" where
  "ParseRange s =
    (let bad = Inl (s @ '' is not a range'') in
     case split_on (CHR ''-'') s of
       [a] \<Rightarrow> (case parse_uint 32 a of None \<Rightarrow> bad | Some v \<Rightarrow> Inr (v, v))
     | [a, b] \<Rightarrow>
         (case parse_uint 32 a of
            None \<Rightarrow> bad
          | Some v \<Rightarrow> (case parse_uint 32 b of None \<Rightarrow> bad | Some v' \<Rightarrow> Inr (v, v')))
     | _ \<Rightarrow> bad)"

definition v3_Validate :: "string \<Rightarrow> 16 word \<Rightarrow> awg_v3 \<Rightarrow> unit result" where
  "v3_Validate defaultInterface defaultPort v =
    (if v3_Interface v = [] \<or> v3_Interface v = defaultInterface
     then Inl ''interface must be set and differ from the default tier's''
     else if v3_ListenPort v = 0 \<or> v3_ListenPort v = defaultPort
     then Inl ''listen_port must be set and differ from the default tier's''
     else rbind (case KeyFromString (v3_PrivateKey v) of Inl e \<Rightarrow> Inl (''invalid private_key: '' @ e) | Inr _ \<Rightarrow> ok) (\<lambda>_.
       if (case b64_decode (v3_HeaderProtectionKey v) of None \<Rightarrow> True | Some k \<Rightarrow> length k \<noteq> HeaderKeyLength)
     then Inl ''header_protection_key must be base64 of 32 bytes''
       else rbind (validatePaddings (v3_S v) V3MinPadding) (\<lambda>_.
            rbind (validateHeaders (v3_H v) False) (\<lambda>_.
            case ParseRange (v3_ContentPaddingAddition v) of
              Inl e \<Rightarrow> Inl (''invalid content_padding_addition: '' @ e)
            | Inr (lo, hi) \<Rightarrow>
                if 256 < hi \<or> hi < lo then Inl ''content_padding_addition must be a range within 0-256'' else ok))))"

definition onOff :: "bool \<Rightarrow> string" where
  "onOff b = (if b then ''on'' else ''off'')"

definition v3_InterfaceLines :: "obfuscation \<Rightarrow> awg_v3 \<Rightarrow> string list" where
  "v3_InterfaceLines base v =
    [''MTU = '' @ itoa V3MTU] @ junkLines base @ paramLines (v3_S v) (v3_H v) @
    [''HeaderProtectionKey = '' @ v3_HeaderProtectionKey v, ''RandomTrailers = '' @ onOff (v3_RandomTrailers v),
     ''ContentPaddingAddition = '' @ v3_ContentPaddingAddition v] @ iPacketLines base"

partial_function (option) draw_port :: "16 word \<Rightarrow> draws \<Rightarrow> nat \<Rightarrow> 16 word \<Rightarrow> (16 word \<times> nat) option" where
  "draw_port defaultPort rnd i p =
    (if p = 0 \<or> p = defaultPort then draw_port defaultPort rnd (Suc i) (RandomPort (rnd i)) else Some (p, i))"

text \<open>\<open>kb\<close> and \<open>hb\<close> are the 32 random bytes behind the private key and the header protection key.\<close>

definition v3_Generate :: "bytes \<Rightarrow> bytes \<Rightarrow> 16 word \<Rightarrow> draws \<Rightarrow> nat \<Rightarrow> awg_v3 \<Rightarrow> (awg_v3 \<times> nat) option" where
  "v3_Generate kb hb defaultPort rnd i v =
    (case draw_port defaultPort rnd i (v3_ListenPort v) of
       None \<Rightarrow> None
     | Some (port, j) \<Rightarrow>
         (case randomHandshakePaddings 16 rnd j of
            None \<Rightarrow> None
          | Some ((s1, s2), k) \<Rightarrow>
              map_option (\<lambda>(hs, l).
                (v\<lparr>v3_Enabled := True, v3_Interface := V3Interface, v3_ListenPort := port,
                   v3_PrivateKey := key_String (NewPrivateKey kb), v3_HeaderProtectionKey := key_String hb,
                   v3_S1 := s1, v3_S2 := s2, v3_S3 := randomUint16 (rnd k) 16 64,
                   v3_S4 := randomUint16 (rnd (Suc k)) 16 32,
                   v3_H1 := hs ! 0, v3_H2 := hs ! 1, v3_H3 := hs ! 2, v3_H4 := hs ! 3,
                   v3_RandomTrailers := True, v3_ContentPaddingAddition := ''0-64''\<rparr>, l))
                (randomHeaders rnd (Suc (Suc k)))))"

section \<open>Tunnel networks\<close>

record networks =
  nw_IPv4 :: ipnet
  nw_IPv6 :: ipnet

definition derivationLabel :: string where
  "derivationLabel = ''dvpnd amneziawg tunnel networks'' @ [CHR 0x00]"

definition DeriveNetworks :: "(bytes \<Rightarrow> bytes) \<Rightarrow> bytes \<Rightarrow> networks" where
  "DeriveNetworks sha public =
    (let sum = sha (bytes_of_string derivationLabel @ public) in
     \<lparr>nw_IPv4 = \<lparr>net_IP = [10, 11 + sum ! 0 mod 240, sum ! 1, 0], net_Mask = CIDRMask 24 4\<rparr>,
      nw_IPv6 = \<lparr>net_IP = [253] @ take 5 (drop 2 sum) @ replicate 10 0, net_Mask = CIDRMask 120 16\<rparr>\<rparr>)"

definition nw_Pool :: "networks \<Rightarrow> ip_pool" where
  "nw_Pool n =
    \<lparr>pool_V4 = NewIPv4Pool (v4_Bytes (v4_Next (v4_Next (NewIPv4FromIP (net_IP (nw_IPv4 n)))))) (nw_IPv4 n),
     pool_V6 = NewIPv6Pool (v6_Next (v6_Next (NewIPv6FromIP (net_IP (nw_IPv6 n))))) (nw_IPv6 n)\<rparr>"

definition net_overlap :: "ipnet \<Rightarrow> ipnet \<Rightarrow> bool" where
  "net_overlap a b \<longleftrightarrow> net_Contains a (net_IP b) \<or> net_Contains b (net_IP a)"

definition nw_Overlaps :: "networks \<Rightarrow> networks \<Rightarrow> bool" where
  "nw_Overlaps n m \<longleftrightarrow> net_overlap (nw_IPv4 n) (nw_IPv4 m) \<or> net_overlap (nw_IPv6 n) (nw_IPv6 m)"

definition parseSubnet :: "string \<Rightarrow> bool \<Rightarrow> ipnet result" where
  "parseSubnet s v6 =
    (case ParseCIDR s of
       None \<Rightarrow> Inl ''invalid CIDR address''
     | Some (ip, n) \<Rightarrow>
         let ones = mask_Size (net_Mask n) in
         if \<not> v6 \<and> ip_To4 ip = None then Inl (s @ '' is not an IPv4 network'')
         else if v6 \<and> ip_To4 ip \<noteq> None then Inl (s @ '' is not an IPv6 network'')
         else if \<not> ip_IsPrivate ip then Inl (s @ '' is not a private network'')
         else if \<not> v6 \<and> (ones < 16 \<or> 28 < ones) then Inl (s @ '': the prefix must be /16 to /28'')
         else if v6 \<and> (ones < 64 \<or> 124 < ones) then Inl (s @ '': the prefix must be /64 to /124'')
         else Inr n)"

text \<open>\<open>pub\<close> is the public key of a private key.\<close>

definition tierNetworks ::
  "(bytes \<Rightarrow> bytes) \<Rightarrow> (bytes \<Rightarrow> bytes) \<Rightarrow> string \<Rightarrow> string \<Rightarrow> string \<Rightarrow> networks result" where
  "tierNetworks sha pub ipv4 ipv6 privateKey =
    (case KeyFromString privateKey of
       Inl e \<Rightarrow> Inl (''invalid private_key: '' @ e)
     | Inr key \<Rightarrow>
         let n = DeriveNetworks sha (pub key) in
         case (if ipv4 = [] then Inr (nw_IPv4 n) else parseSubnet ipv4 False) of
           Inl e \<Rightarrow> Inl (''invalid ipv4_subnet: '' @ e)
         | Inr n4 \<Rightarrow>
             (case (if ipv6 = [] then Inr (nw_IPv6 n) else parseSubnet ipv6 True) of
                Inl e \<Rightarrow> Inl (''invalid ipv6_subnet: '' @ e)
              | Inr n6 \<Rightarrow> Inr \<lparr>nw_IPv4 = n4, nw_IPv6 = n6\<rparr>))"

section \<open>The configuration\<close>

record awg_config =
  awc_Interface :: string
  awc_ListenPort :: "16 word"
  awc_PrivateKey :: string
  awc_Uplink :: string
  awc_EnableIPv6 :: bool
  awc_IPv4Subnet :: string
  awc_IPv6Subnet :: string
  awc_Obfuscation :: obfuscation
  awc_V3 :: awg_v3

definition awg_NewConfig :: awg_config where
  "awg_NewConfig =
    \<lparr>awc_Interface = [], awc_ListenPort = 0, awc_PrivateKey = [], awc_Uplink = [], awc_EnableIPv6 = False,
     awc_IPv4Subnet = [], awc_IPv6Subnet = [],
     awc_Obfuscation = \<lparr>ob_Jc = 0, ob_Jmin = 0, ob_Jmax = 0, ob_S1 = 0, ob_S2 = 0, ob_S3 = 0, ob_S4 = 0,
       ob_H1 = 0, ob_H2 = 0, ob_H3 = 0, ob_H4 = 0, ob_I1 = [], ob_I2 = [], ob_I3 = [], ob_I4 = [], ob_I5 = []\<rparr>,
     awc_V3 = \<lparr>v3_Enabled = False, v3_Interface = [], v3_ListenPort = 0, v3_PrivateKey = [],
       v3_IPv4Subnet = [], v3_IPv6Subnet = [], v3_HeaderProtectionKey = [], v3_S1 = 0, v3_S2 = 0, v3_S3 = 0,
       v3_S4 = 0, v3_H1 = 0, v3_H2 = 0, v3_H3 = 0, v3_H4 = 0, v3_RandomTrailers = False,
       v3_ContentPaddingAddition = []\<rparr>\<rparr>"

definition awc_WireGuard :: "awg_config \<Rightarrow> wg_config" where
  "awc_WireGuard c =
    \<lparr>wgc_Interface = awc_Interface c, wgc_ListenPort = awc_ListenPort c, wgc_PrivateKey = awc_PrivateKey c,
     wgc_Uplink = awc_Uplink c, wgc_EnableIPv6 = awc_EnableIPv6 c\<rparr>"

definition awc_WireGuardV3 :: "awg_config \<Rightarrow> wg_config" where
  "awc_WireGuardV3 c =
    \<lparr>wgc_Interface = v3_Interface (awc_V3 c), wgc_ListenPort = v3_ListenPort (awc_V3 c),
     wgc_PrivateKey = v3_PrivateKey (awc_V3 c), wgc_Uplink = awc_Uplink c, wgc_EnableIPv6 = awc_EnableIPv6 c\<rparr>"

definition V3Enabled :: "awg_config \<Rightarrow> bool" where
  "V3Enabled c \<longleftrightarrow> v3_Enabled (awc_V3 c)"

text \<open>The 3.1 tier's networks are absent when the tier is off.\<close>

definition TunnelNetworks ::
  "(bytes \<Rightarrow> bytes) \<Rightarrow> (bytes \<Rightarrow> bytes) \<Rightarrow> awg_config \<Rightarrow> (networks \<times> networks option) result" where
  "TunnelNetworks sha pub c =
    rbind (tierNetworks sha pub (awc_IPv4Subnet c) (awc_IPv6Subnet c) (awc_PrivateKey c)) (\<lambda>def.
      if \<not> V3Enabled c then Inr (def, None)
      else case tierNetworks sha pub (v3_IPv4Subnet (awc_V3 c)) (v3_IPv6Subnet (awc_V3 c))
                  (v3_PrivateKey (awc_V3 c)) of
        Inl e \<Rightarrow> Inl (''section v3: '' @ e)
      | Inr v3 \<Rightarrow>
          let ip = net_IP (nw_IPv4 v3);
              v3' = (if v3_IPv4Subnet (awc_V3 c) = [] \<and> net_overlap (nw_IPv4 def) (nw_IPv4 v3)
                     then v3\<lparr>nw_IPv4 := (nw_IPv4 v3)\<lparr>net_IP := [ip ! 0, ip ! 1, ip ! 2 + 1, 0]\<rparr>\<rparr>
                     else v3)
          in if nw_Overlaps def v3'
             then Inl ''the tunnel subnets of the default tier and section v3 overlap''
             else Inr (def, Some v3'))"

definition awc_Validate :: "(bytes \<Rightarrow> bytes) \<Rightarrow> (bytes \<Rightarrow> bytes) \<Rightarrow> awg_config \<Rightarrow> unit result" where
  "awc_Validate sha pub c =
    rbind (wgc_Validate (awc_WireGuard c)) (\<lambda>_.
      case ob_Validate (awc_Obfuscation c) of
        Inl e \<Rightarrow> Inl (''invalid section obfuscation: '' @ e)
      | Inr _ \<Rightarrow>
          (case (if V3Enabled c then v3_Validate (awc_Interface c) (awc_ListenPort c) (awc_V3 c) else ok) of
             Inl e \<Rightarrow> Inl (''invalid section v3: '' @ e)
           | Inr _ \<Rightarrow> rbind (TunnelNetworks sha pub c) (\<lambda>_. ok)))"

definition awc_WithDefaultValues ::
  "bytes \<Rightarrow> bytes \<Rightarrow> bytes \<Rightarrow> draws \<Rightarrow> awg_config \<Rightarrow> awg_config option" where
  "awc_WithDefaultValues kb kb3 hb rnd c =
    (let port = RandomPort (rnd 0) in
     case ob_Generate rnd 1 (awc_Obfuscation c) of
       None \<Rightarrow> None
     | Some (o1, i) \<Rightarrow>
         map_option (\<lambda>(v, _).
           c\<lparr>awc_Interface := ''awg0'', awc_ListenPort := port, awc_EnableIPv6 := True,
             awc_PrivateKey := key_String (NewPrivateKey kb), awc_Obfuscation := o1, awc_V3 := v\<rparr>)
           (v3_Generate kb3 hb port rnd i (awc_V3 c)))"

section \<open>Fresh settings\<close>

text \<open>What is asked of the random source: from any point on, every remainder comes up.\<close>

definition fair :: "draws \<Rightarrow> bool" where
  "fair rnd \<longleftrightarrow> (\<forall>m v i. v < m \<longrightarrow> (\<exists>j \<ge> i. rnd j mod m = v))"

lemma fairE:
  assumes "fair rnd" "v < m"
  obtains k where "rnd (i + k) mod m = v"
  using assms unfolding fair_def by (metis le_Suc_ex)

lemma unat_of_nat_16: "n < 65536 \<Longrightarrow> unat (of_nat n :: 16 word) = n"
  by (simp add: unat_of_nat)

lemma unat_of_nat_32: "n < 4294967296 \<Longrightarrow> unat (of_nat n :: 32 word) = n"
  by (simp add: unat_of_nat)

lemma randomUint16_nat:
  assumes "lo \<le> hi" "unat hi < 65535"
  shows "unat (randomUint16 n lo hi) = unat lo + n mod (unat hi - unat lo + 1)"
proof -
  have le: "unat lo \<le> unat hi" using assms(1) by (simp add: word_le_nat_alt)
  have d: "unat (hi - lo) = unat hi - unat lo" using assms(1) by (rule unat_sub)
  have span: "unat (hi - lo + 1) = unat hi - unat lo + 1"
    using d le assms(2) by (simp add: unat_word_ariths)
  define m where "m = n mod (unat hi - unat lo + 1)"
  have "m < unat hi - unat lo + 1" unfolding m_def by (rule mod_less_divisor) simp
  with le have small: "unat lo + m \<le> unat hi" by linarith
  with assms(2) have "m < 65536" by linarith
  with small assms(2) have "unat (lo + of_nat m) = unat lo + m"
    by (simp add: unat_word_ariths unat_of_nat)
  then show ?thesis by (simp add: randomUint16_def span m_def)
qed

lemma draw_s2_returns:
  assumes "unat s1 + 56 \<noteq> unat (randomUint16 (rnd (i + k)) least 150)"
  shows "\<exists>n j. draw_s2 least s1 rnd i = Some (randomUint16 n least 150, j) \<and>
    unat s1 + 56 \<noteq> unat (randomUint16 n least 150)"
  using assms
proof (induction k arbitrary: i)
  case 0
  then show ?case by (subst draw_s2.simps) (auto simp: Let_def)
next
  case (Suc k)
  show ?case
  proof (cases "unat s1 + 56 = unat (randomUint16 (rnd i) least 150)")
    case True
    with Suc.IH [of "Suc i"] Suc.prems show ?thesis by (subst draw_s2.simps) (simp add: Let_def)
  next
    case False
    then show ?thesis by (subst draw_s2.simps) (auto simp: Let_def)
  qed
qed

text \<open>The paddings the draw yields are in range and differ as required.\<close>

lemma randomHandshakePaddings_returns:
  assumes "fair rnd" "least < 150"
  shows "\<exists>s1 s2 j. randomHandshakePaddings least rnd i = Some ((s1, s2), j) \<and>
    least \<le> s1 \<and> s1 \<le> 150 \<and> least \<le> s2 \<and> s2 \<le> 150 \<and> unat s1 + 56 \<noteq> unat s2"
proof -
  have lt: "unat least < 150" using assms(2) by (simp add: word_less_nat_alt)
  then have r: "unat (randomUint16 n least 150) = unat least + n mod (151 - unat least)" for n
    by (subst randomUint16_nat) (simp_all add: word_le_nat_alt Suc_diff_le [symmetric])
  have rng: "least \<le> randomUint16 n least 150 \<and> randomUint16 n least 150 \<le> 150" for n
  proof -
    have "n mod (151 - unat least) < 151 - unat least" using lt by (intro mod_less_divisor) simp
    with lt have "unat least + n mod (151 - unat least) \<le> 150" by linarith
    then show ?thesis by (simp add: word_le_nat_alt r)
  qed
  define s1 where "s1 = randomUint16 (rnd i) least 150"
  define v :: nat where "v = (if unat s1 + 56 = unat least then 1 else 0)"
  have v: "v < 151 - unat least" using lt by (simp add: v_def less_diff_conv)
  obtain k where k: "rnd (Suc i + k) mod (151 - unat least) = v" using fairE [OF assms(1) v] .
  have "unat s1 + 56 \<noteq> unat (randomUint16 (rnd (Suc i + k)) least 150)"
    unfolding r k by (simp add: v_def)
  from draw_s2_returns [of s1 rnd "Suc i" k least, OF this] rng show ?thesis
    by (auto simp: randomHandshakePaddings_def Let_def s1_def)
qed

definition header_draws :: "32 word list \<Rightarrow> bool" where
  "header_draws hs \<longleftrightarrow> distinct hs \<and> (\<forall>h \<in> set hs. 4 < h)"

lemma randomUint32_header: "4 < randomUint32 n 5 (2 ^ 31)"
proof -
  have "(of_nat n :: 32 word) mod 2147483644 < 2147483644" by (rule word_mod_less_divisor) simp
  then have "unat ((of_nat n :: 32 word) mod 2147483644) < 2147483644" by (simp add: word_less_nat_alt)
  then show ?thesis by (simp add: randomUint32_def word_less_nat_alt unat_word_ariths)
qed

lemma draw_headers_one:
  assumes "length hs < 4" "randomUint32 (rnd (i + k)) 5 (2 ^ 31) \<notin> set hs"
  shows "\<exists>h j. draw_headers rnd hs i = draw_headers rnd (hs @ [h]) j \<and> h \<notin> set hs \<and> 4 < h"
  using assms(2)
proof (induction k arbitrary: i)
  case 0
  then show ?case
    using assms(1) randomUint32_header [of "rnd i"] by (subst draw_headers.simps) (auto simp: Let_def)
next
  case (Suc k)
  show ?case
  proof (cases "randomUint32 (rnd i) 5 (2 ^ 31) \<in> set hs")
    case True
    with Suc.IH [of "Suc i"] Suc.prems assms(1) show ?thesis
      by (subst draw_headers.simps) (simp add: Let_def)
  next
    case False
    then show ?thesis
      using assms(1) randomUint32_header [of "rnd i"] by (subst draw_headers.simps) (auto simp: Let_def)
  qed
qed

lemma fresh_header:
  assumes "fair rnd" "length hs < 4"
  shows "\<exists>k. randomUint32 (rnd (i + k)) 5 (2 ^ 31) \<notin> set hs"
proof -
  have img: "{5, 6, 7, 8 :: 32 word} = (\<lambda>v. 5 + of_nat v) ` {0, 1, 2, 3 :: nat}" by simp
  have "\<not> {5, 6, 7, 8} \<subseteq> set hs"
    using assms(2) card_mono [of "set hs" "{5, 6, 7, 8 :: 32 word}"] card_length [of hs] by auto
  then obtain v :: nat where "v \<in> {0, 1, 2, 3}" and v2: "(5 + of_nat v :: 32 word) \<notin> set hs"
    unfolding img by blast
  then have v: "v < 4" "(5 + of_nat v :: 32 word) \<notin> set hs" by auto
  obtain k where "rnd (i + k) mod 2 ^ 32 = v" using fairE [OF assms(1), of v "2 ^ 32"] v(1) by auto
  then have "(of_nat (rnd (i + k)) :: 32 word) = of_nat v"
    by (auto simp: word_unat_eq_iff unat_of_nat)
  moreover have "(of_nat v :: 32 word) mod 2147483644 = of_nat v"
    using v(1) by (simp add: word_unat_eq_iff unat_mod_distrib unat_of_nat)
  ultimately have "randomUint32 (rnd (i + k)) 5 (2 ^ 31) = 5 + of_nat v"
    by (simp add: randomUint32_def)
  with v(2) show ?thesis by (intro exI [of _ k]) simp
qed

lemma draw_headers_returns:
  assumes "fair rnd" "header_draws hs" "length hs \<le> 4"
  shows "\<exists>hs' j. draw_headers rnd hs i = Some (hs', j) \<and> header_draws hs' \<and> length hs' = 4"
  using assms(2,3)
proof (induction "4 - length hs" arbitrary: hs i)
  case 0
  then show ?case by (subst draw_headers.simps) auto
next
  case (Suc n)
  then have short: "length hs < 4" by simp
  obtain k where "randomUint32 (rnd (i + k)) 5 (2 ^ 31) \<notin> set hs" using fresh_header [OF assms(1) short] by blast
  from draw_headers_one [of hs rnd i k, OF short this] obtain h j
    where h: "draw_headers rnd hs i = draw_headers rnd (hs @ [h]) j" "h \<notin> set hs" "4 < h" by blast
  have "header_draws (hs @ [h])" using Suc.prems(1) h(2,3) by (auto simp: header_draws_def)
  with Suc.hyps(1) [of "hs @ [h]" j] Suc.hyps(2) short h(1) show ?case by simp
qed

lemma randomHeaders_returns:
  assumes "fair rnd"
  shows "\<exists>h1 h2 h3 h4 j. randomHeaders rnd i = Some ([h1, h2, h3, h4], j) \<and> header_draws [h1, h2, h3, h4]"
  using draw_headers_returns [OF assms, of "[]" i]
  by (auto simp: randomHeaders_def header_draws_def numeral_eq_Suc length_Suc_conv)

lemma headers_from_ok: "header_draws hs \<Longrightarrow> set hs \<inter> seen = {} \<Longrightarrow> headers_from seen hs = ok"
  by (induction hs arbitrary: seen) (auto simp: header_draws_def linorder_not_le)

lemma validateHeaders_draws: "header_draws hs \<Longrightarrow> validateHeaders hs b = ok"
  by (simp add: validateHeaders_def headers_from_ok)

lemma draw_port_returns:
  assumes "RandomPort (rnd (i + k)) \<noteq> q"
  shows "\<exists>p j. draw_port q rnd i 0 = Some (p, j) \<and> p \<noteq> 0 \<and> p \<noteq> q"
proof -
  have "\<exists>p j. draw_port q rnd (Suc i) (RandomPort (rnd i)) = Some (p, j) \<and> p \<noteq> 0 \<and> p \<noteq> q"
    using assms
  proof (induction k arbitrary: i)
    case 0
    then show ?case by (subst draw_port.simps) (simp add: RandomPort_nonzero)
  next
    case (Suc k)
    then show ?case by (subst draw_port.simps) (simp add: RandomPort_nonzero)
  qed
  then show ?thesis by (subst draw_port.simps) simp
qed

lemma RandomPort_other:
  assumes "fair rnd"
  shows "\<exists>k. RandomPort (rnd (i + k)) \<noteq> q"
proof -
  obtain k0 where "rnd (i + k0) mod (2 ^ 16 - 2 ^ 10) = 0" using fairE [OF assms, of 0 "2 ^ 16 - 2 ^ 10"] by auto
  moreover obtain k1 where "rnd (i + k1) mod (2 ^ 16 - 2 ^ 10) = 1"
    using fairE [OF assms, of 1 "2 ^ 16 - 2 ^ 10"] by auto
  ultimately have "RandomPort (rnd (i + k0)) \<noteq> RandomPort (rnd (i + k1))" by (simp add: RandomPort_def)
  then show ?thesis by metis
qed

lemma ob_Generate_valid:
  assumes "fair rnd"
  shows "\<exists>c j. ob_Generate rnd i (awc_Obfuscation awg_NewConfig) = Some (c, j) \<and> ob_Validate c = ok"
proof -
  obtain s1 s2 j where s: "randomHandshakePaddings 15 rnd i = Some ((s1, s2), j)"
      "s1 \<le> 150" "s2 \<le> 150" "unat s1 + 56 \<noteq> unat s2"
    using randomHandshakePaddings_returns [OF assms, of 15 i] by auto
  obtain h1 h2 h3 h4 k where hs: "randomHeaders rnd j = Some ([h1, h2, h3, h4], k)"
      "header_draws [h1, h2, h3, h4]"
    using randomHeaders_returns [OF assms, of j] by blast
  have "\<not> 1132 < s1" "\<not> 1188 < s2" using s(2,3) by (simp_all add: word_less_nat_alt word_le_nat_alt)
  then have "validatePaddings [s1, s2, 0, 0] 0 = ok"
    using s(4) by (simp add: validatePaddings_def)
  then show ?thesis
    using s(1) hs by (simp add: ob_Generate_def ob_Validate_def validateHeaders_draws IPackets_def awg_NewConfig_def)
qed

lemma KeyFromString_key: "length k = 32 \<Longrightarrow> KeyFromString (key_String k) = Inr k"
  by (simp add: KeyFromString_def key_String_def b64_decode_encode KeyFromBytes_def KeyLength_def)

lemma length_NewPrivateKey [simp]: "length (NewPrivateKey b) = length b"
  by (simp add: NewPrivateKey_def Let_def)

lemma v3_Generate_valid:
  assumes "fair rnd" "length kb = 32" "length hb = 32"
  shows "\<exists>v j. v3_Generate kb hb q rnd i (awc_V3 awg_NewConfig) = Some (v, j) \<and> v3_Enabled v \<and>
    v3_PrivateKey v = key_String (NewPrivateKey kb) \<and> v3_IPv4Subnet v = [] \<and> v3_IPv6Subnet v = [] \<and>
    v3_Validate ''awg0'' q v = ok"
proof -
  obtain m where "RandomPort (rnd (i + m)) \<noteq> q" using RandomPort_other [OF assms(1)] by blast
  then obtain port j where port: "draw_port q rnd i 0 = Some (port, j)" "port \<noteq> 0" "port \<noteq> q"
    using draw_port_returns [of rnd i m q] by blast
  obtain s1 s2 k where s: "randomHandshakePaddings 16 rnd j = Some ((s1, s2), k)"
      "16 \<le> s1" "s1 \<le> 150" "16 \<le> s2" "s2 \<le> 150" "unat s1 + 56 \<noteq> unat s2"
    using randomHandshakePaddings_returns [OF assms(1), of 16 j] by auto
  obtain h1 h2 h3 h4 l where hs: "randomHeaders rnd (Suc (Suc k)) = Some ([h1, h2, h3, h4], l)"
      "header_draws [h1, h2, h3, h4]"
    using randomHeaders_returns [OF assms(1), of "Suc (Suc k)"] by blast
  define s3 s4 where "s3 = randomUint16 (rnd k) 16 64" and "s4 = randomUint16 (rnd (Suc k)) 16 32"
  have "unat s3 = 16 + rnd k mod 49" "unat s4 = 16 + rnd (Suc k) mod 17"
    unfolding s3_def s4_def by (subst randomUint16_nat; simp)+
  moreover have "rnd k mod 49 < 49" "rnd (Suc k) mod 17 < 17" by simp_all
  ultimately have "16 \<le> unat s3" "unat s3 \<le> 64" "16 \<le> unat s4" "unat s4 \<le> 32" by linarith+
  then have "validatePaddings [s1, s2, s3, s4] V3MinPadding = ok"
    using s(2-6) by (simp add: validatePaddings_def V3MinPadding_def word_less_nat_alt word_le_nat_alt)
  moreover have "ParseRange ''0-64'' = Inr (0, 64)"
    by (simp add: ParseRange_def parse_uint_def parse_digits_def digit_val_def)
  ultimately show ?thesis
    using port s(1) hs assms(2,3)
    by (simp add: v3_Generate_def v3_Validate_def awg_NewConfig_def V3Interface_def KeyFromString_key
        validateHeaders_draws HeaderKeyLength_def b64_decode_encode key_String_def [of hb] s3_def s4_def)
qed

section \<open>The tiers' networks\<close>

text \<open>An IPv4 network of a tier is a prefix network of four-byte addresses, or contains no such address
  at all.\<close>

definition tier4 :: "ipnet \<Rightarrow> bool" where
  "tier4 n \<longleftrightarrow> (\<exists>q ones. length q = 4 \<and> ones \<le> 32 \<and> n = prefix_net q ones) \<or>
    (\<forall>x. length x = 4 \<longrightarrow> \<not> net_Contains n x)"

lemma mask24: "CIDRMask 24 4 = [255, 255, 255, 0]"
  by code_simp

lemma derived4: "\<lparr>net_IP = [a, b, c, 0], net_Mask = CIDRMask 24 4\<rparr> = prefix_net [a, b, c, 0] 24"
  by (simp add: prefix_net_def mask24)

lemma derived4_simps:
  "net_IP (prefix_net [a, b, c, 0] 24) = [a, b, c, 0]"
  "(prefix_net [a, b, c, 0] 24)\<lparr>net_IP := [x, y, z, 0]\<rparr> = prefix_net [x, y, z, 0] 24"
  by (simp_all flip: derived4)

lemma derived4_Contains:
  "net_Contains (prefix_net [a, b, c, 0] 24) [x, y, z, 0] \<longleftrightarrow> x = a \<and> y = b \<and> z = c"
  by (auto simp: net_Contains_def networkNumberAndMask_def prefix_net_def mask24)

lemma prefix_contains_own:
  assumes "length q = 4"
  shows "net_Contains (prefix_net q m) (net_IP (prefix_net q m))"
  using assms by (simp add: net_Contains_def networkNumberAndMask_def prefix_net_def Let_def)

lemma div_pow_le:
  assumes "m \<le> n" "n \<le> 32" "(x :: nat) div 2 ^ (32 - n) = y div 2 ^ (32 - n)"
  shows "x div 2 ^ (32 - m) = y div 2 ^ (32 - m)"
proof -
  have e: "(2 :: nat) ^ (32 - m) = 2 ^ (32 - n) * 2 ^ (n - m)" using assms(1,2) by (simp flip: power_add)
  show ?thesis unfolding e div_mult2_eq assms(3) ..
qed

text \<open>Two prefix networks that share an address: the one with the longer prefix lies inside the other.\<close>

lemma prefix_overlap:
  assumes "length q = 4" "length r = 4" "m \<le> n" "n \<le> 32" "length x = 4"
    and "net_Contains (prefix_net q m) x" "net_Contains (prefix_net r n) x"
  shows "net_Contains (prefix_net q m) (net_IP (prefix_net r n))"
proof -
  let ?b = "net_IP (prefix_net r n)"
  have len: "length (net_IP (prefix_net p k)) = 4" if "length p = 4" for p k
    using that by (simp add: prefix_net_def)
  have inq: "net_Contains (prefix_net q m) y \<longleftrightarrow> big_of_bytes y div 2 ^ (32 - m) = big_of_bytes q div 2 ^ (32 - m)"
    if "length y = 4" for y
    using net_Contains_prefix [of q m y] assms(1,3,4) len [of q m] that by simp
  have inr: "net_Contains (prefix_net r n) y \<longleftrightarrow> big_of_bytes y div 2 ^ (32 - n) = big_of_bytes r div 2 ^ (32 - n)"
    if "length y = 4" for y
    using net_Contains_prefix [of r n y] assms(2,4) len [of r n] that by simp
  have "big_of_bytes ?b div 2 ^ (32 - n) = big_of_bytes r div 2 ^ (32 - n)"
    using inr [OF len [OF assms(2), of n]] prefix_contains_own [OF assms(2)] by simp
  moreover have "big_of_bytes x div 2 ^ (32 - n) = big_of_bytes r div 2 ^ (32 - n)"
    using inr [OF assms(5)] assms(7) by simp
  ultimately have "big_of_bytes ?b div 2 ^ (32 - m) = big_of_bytes x div 2 ^ (32 - m)"
    using div_pow_le [OF assms(3,4), of "big_of_bytes ?b" "big_of_bytes x"] by simp
  then show ?thesis using inq [OF len [OF assms(2), of n]] inq [OF assms(5)] assms(6) by simp
qed

lemma tier4_disjoint:
  assumes "tier4 a" "tier4 b" "\<not> net_overlap a b" "length x = 4" "net_Contains a x"
  shows "\<not> net_Contains b x"
proof
  assume b: "net_Contains b x"
  obtain q m where q: "length q = 4" "m \<le> 32" "a = prefix_net q m"
    using assms(1,4,5) by (auto simp: tier4_def)
  obtain r n where r: "length r = 4" "n \<le> 32" "b = prefix_net r n"
    using assms(2,4) b by (auto simp: tier4_def)
  show False
    using prefix_overlap [of q r m n x] prefix_overlap [of r q n m x] assms(3-5) b q r
    by (cases "m \<le> n") (auto simp: net_overlap_def)
qed

lemma byte_masks:
  "\<forall>k \<in> set [0..<8]. NOT (drop_bit k 255) \<noteq> (255 :: byte) \<and> leading_ones (NOT (drop_bit k 255)) = k"
  by code_simp

lemma mask_Size_CIDRMask: "k \<le> 8 * n \<Longrightarrow> mask_Size (CIDRMask k n) = k"
proof (induction n arbitrary: k)
  case (Suc n)
  show ?case
  proof (cases "8 \<le> k")
    case True
    with Suc have "mask_Size (CIDRMask (k - 8) n) = k - 8" by simp
    with True show ?thesis by (auto simp: CIDRMask_zero)
  next
    case False
    with byte_masks have "NOT (drop_bit k 255) \<noteq> (255 :: byte)" "leading_ones (NOT (drop_bit k 255)) = k"
      by simp_all
    with False show ?thesis by (simp add: CIDRMask_zero del: drop_bit_numeral_bit0 drop_bit_numeral_bit1)
  qed
qed simp

lemma CIDRMask_nth_zero: "k \<le> 8 * i \<Longrightarrow> i < n \<Longrightarrow> CIDRMask k n ! i = 0"
proof (induction n arbitrary: k i)
  case (Suc n)
  then show ?case by (cases i) (auto simp: CIDRMask_zero)
qed simp

text \<open>A network written in the IPv4-mapped form, with a prefix that fits an IPv4 network, contains no
  four-byte address: no peer can ever be given one.\<close>

lemma mapped_subnet_empty:
  assumes "length a = 16" "take 12 a = v4InV6Prefix" "k \<le> 28" "length x = 4"
  shows "\<not> net_Contains \<lparr>net_IP = ip_Mask a (CIDRMask k 16), net_Mask = CIDRMask k 16\<rparr> x"
proof -
  let ?n = "masked a (CIDRMask k 16)"
  have ip: "ip_Mask a (CIDRMask k 16) = ?n" using assms(1) by (simp add: ip_Mask_def Let_def)
  have len: "length ?n = 16" using assms(1) by simp
  have "?n ! 10 = 0"
    using assms(1,3) CIDRMask_nth_zero [of k 10 16] by (simp add: masked_def)
  then have "take 12 ?n ! 10 = 0" by simp
  moreover have "v4InV6Prefix ! 10 = 255" by (simp add: v4InV6Prefix_def nth_append)
  ultimately have "take 12 ?n \<noteq> v4InV6Prefix" by fastforce
  then have "ip_To4 ?n = None" using len by (simp add: ip_To4_def)
  then show ?thesis
    using len assms(4)
    by (simp add: ip net_Contains_def networkNumberAndMask_def v4_or_self_def [of ?n] Let_def)
qed

lemma parseSubnet_tier4:
  assumes "parseSubnet s False = Inr n"
  shows "tier4 n"
proof -
  obtain addr bits a k where a: "ParseAddr addr = Some a" "k \<le> 8 * length a"
      and cidr: "ParseCIDR s = Some (ip_To16 a, \<lparr>net_IP = ip_Mask (ip_To16 a) (CIDRMask k (length a)),
        net_Mask = CIDRMask k (length a)\<rparr>)"
    using assms by (auto simp: parseSubnet_def ParseCIDR_def Let_def split: option.splits prod.splits if_splits)
  have n: "n = \<lparr>net_IP = ip_Mask (ip_To16 a) (CIDRMask k (length a)), net_Mask = CIDRMask k (length a)\<rparr>"
      and four: "ip_To4 (ip_To16 a) \<noteq> None" and k: "k \<le> 28"
    using assms cidr mask_Size_CIDRMask [OF a(2)] by (auto simp: parseSubnet_def Let_def split: if_splits)
  have "length a = 4 \<or> length a = 16 \<and> take 12 a = v4InV6Prefix"
    using four by (auto simp: ip_To16_def ip_To4_def v4InV6Prefix_def split: if_splits)
  then show ?thesis
  proof
    assume "length a = 4"
    then have "n = prefix_net a k"
      by (simp add: n prefix_net_def ip_Mask_def ip_To16_def v4InV6Prefix_def Let_def)
    with \<open>length a = 4\<close> a(2) show ?thesis by (auto simp: tier4_def)
  next
    assume "length a = 16 \<and> take 12 a = v4InV6Prefix"
    with mapped_subnet_empty [of a k] k show ?thesis by (auto simp: n tier4_def ip_To16_def)
  qed
qed

lemma tier4_prefix: "length q = 4 \<Longrightarrow> k \<le> 32 \<Longrightarrow> tier4 (prefix_net q k)"
  by (auto simp: tier4_def)

lemma Derive_IPv4: "\<exists>x y. nw_IPv4 (DeriveNetworks sha p) = prefix_net [10, x, y, 0] 24"
  unfolding DeriveNetworks_def Let_def derived4 by (intro exI) simp

lemma tierNetworks_tier4:
  assumes "tierNetworks sha pub v4 v6 key = Inr n"
  shows "tier4 (nw_IPv4 n) \<and> (v4 = [] \<longrightarrow> (\<exists>x y. nw_IPv4 n = prefix_net [10, x, y, 0] 24))"
proof -
  obtain p where "nw_IPv4 n = nw_IPv4 (DeriveNetworks sha p) \<or> v4 \<noteq> [] \<and> parseSubnet v4 False = Inr (nw_IPv4 n)"
    using assms by (auto simp: tierNetworks_def Let_def split: sum.splits if_splits)
  moreover obtain x y where "nw_IPv4 (DeriveNetworks sha p) = prefix_net [10, x, y, 0] 24"
    using Derive_IPv4 by blast
  moreover have "tier4 (prefix_net [10, x, y, 0] 24)" by (simp add: tier4_prefix)
  ultimately show ?thesis using parseSubnet_tier4 [of v4 "nw_IPv4 n"] by metis
qed

text \<open>What \<^const>\<open>TunnelNetworks\<close> promises: the tiers' IPv4 networks share no address.\<close>

lemma TunnelNetworks_disjoint:
  assumes "TunnelNetworks sha pub c = Inr (def, Some v3)" "length x = 4" "net_Contains (nw_IPv4 def) x"
  shows "\<not> net_Contains (nw_IPv4 v3) x"
proof -
  obtain n where def: "tier4 (nw_IPv4 def)"
      and v3: "tierNetworks sha pub (v3_IPv4Subnet (awc_V3 c)) (v3_IPv6Subnet (awc_V3 c)) (v3_PrivateKey (awc_V3 c)) = Inr n"
      and cases: "v3 = n \<or> v3_IPv4Subnet (awc_V3 c) = [] \<and>
        v3 = n\<lparr>nw_IPv4 := (nw_IPv4 n)\<lparr>net_IP := [net_IP (nw_IPv4 n) ! 0, net_IP (nw_IPv4 n) ! 1, net_IP (nw_IPv4 n) ! 2 + 1, 0]\<rparr>\<rparr>"
      and no: "\<not> nw_Overlaps def v3"
    using assms(1) tierNetworks_tier4
    by (auto simp: TunnelNetworks_def rbind_eq_Inr_iff Let_def split: if_splits sum.splits)
  have "tier4 (nw_IPv4 v3)"
    using cases tierNetworks_tier4 [OF v3]
    by (auto simp: tier4_prefix derived4_simps)
  with def no assms(2,3) show ?thesis using tier4_disjoint by (auto simp: nw_Overlaps_def)
qed

section \<open>Fresh settings are valid\<close>

lemma derived_overlap: "net_overlap (prefix_net [10, a, b, 0] 24) (prefix_net [10, c, d, 0] 24) \<longleftrightarrow> a = c \<and> b = d"
  by (auto simp: net_overlap_def derived4_simps derived4_Contains)

lemma byte_Suc_neq: "(b :: byte) + 1 \<noteq> b"
  by simp

text \<open>C32: a node set up with \<^verbatim>\<open>config init\<close> starts. Drawing the parameters of both tiers comes to an end with
  any random source in which every remainder keeps coming up, and the settings it yields pass their own
  validation; the tiers' derived IPv4 networks are moved apart when they meet, so the one thing left to
  chance is that the two derived IPv6 networks are different.\<close>

theorem awg_defaults_valid:
  assumes "fair rnd" "length kb = 32" "length kb3 = 32" "length hb = 32"
    and "\<not> net_overlap (nw_IPv6 (DeriveNetworks sha (pub (NewPrivateKey kb))))
      (nw_IPv6 (DeriveNetworks sha (pub (NewPrivateKey kb3))))"
  shows "\<exists>c. awc_WithDefaultValues kb kb3 hb rnd awg_NewConfig = Some c \<and> awc_Validate sha pub c = ok"
proof -
  let ?port = "RandomPort (rnd 0)" and ?n = "\<lambda>k. DeriveNetworks sha (pub (NewPrivateKey k))"
  obtain ob i where ob: "ob_Generate rnd 1 (awc_Obfuscation awg_NewConfig) = Some (ob, i)" "ob_Validate ob = ok"
    using ob_Generate_valid [OF assms(1)] by blast
  obtain v j where v: "v3_Generate kb3 hb ?port rnd i (awc_V3 awg_NewConfig) = Some (v, j)" "v3_Enabled v"
      "v3_PrivateKey v = key_String (NewPrivateKey kb3)" "v3_IPv4Subnet v = []" "v3_IPv6Subnet v = []"
      "v3_Validate ''awg0'' ?port v = ok"
    using v3_Generate_valid [OF assms(1,3,4), of ?port i] by blast
  define c where "c = awg_NewConfig\<lparr>awc_Interface := ''awg0'', awc_ListenPort := ?port, awc_EnableIPv6 := True,
    awc_PrivateKey := key_String (NewPrivateKey kb), awc_Obfuscation := ob, awc_V3 := v\<rparr>"
  have some: "awc_WithDefaultValues kb kb3 hb rnd awg_NewConfig = Some c"
    using ob(1) v(1) by (simp add: awc_WithDefaultValues_def c_def Let_def)
  obtain a b x y where n4: "nw_IPv4 (?n kb) = prefix_net [10, a, b, 0] 24" "nw_IPv4 (?n kb3) = prefix_net [10, x, y, 0] 24"
    using Derive_IPv4 by metis
  have tiers: "tierNetworks sha pub [] [] (key_String (NewPrivateKey k)) = Inr (?n k)" if "length k = 32" for k
    using that by (simp add: tierNetworks_def KeyFromString_key Let_def)
  have "\<exists>r. TunnelNetworks sha pub c = Inr r"
    using assms(5) v(2-5) tiers [OF assms(2)] tiers [OF assms(3)] n4
    by (simp add: TunnelNetworks_def V3Enabled_def c_def awg_NewConfig_def nw_Overlaps_def Let_def derived_overlap
        derived4_simps)
  moreover have "wgc_Validate (awc_WireGuard c) = ok"
    using assms(2) KeyFromString_key [of "NewPrivateKey kb"] length_NewPrivateKey [of kb]
    by (auto simp del: length_NewPrivateKey simp: wgc_Validate_def awc_WireGuard_def c_def RandomPort_nonzero key_String_def)
  ultimately have "awc_Validate sha pub c = ok"
    using ob(2) v(2,6) by (auto simp: awc_Validate_def c_def V3Enabled_def)
  with some show ?thesis by blast
qed

definition pair_draws :: draws where
  "pair_draws j = fst (prod_decode j)"

lemma pair_draws_fair: "fair pair_draws"
  unfolding fair_def
proof (intro allI impI)
  fix m v i :: nat
  assume "v < m"
  then show "\<exists>j \<ge> i. pair_draws j mod m = v"
    by (intro exI [of _ "prod_encode (v, i)"]) (simp add: pair_draws_def le_prod_encode_2)
qed

text \<open>A stand-in for SHA-256 that tells short inputs apart.\<close>

definition last32 :: "bytes \<Rightarrow> bytes" where
  "last32 b = drop (length b - 32) b"

lemma demo_networks_apart:
  "\<not> net_overlap (nw_IPv6 (DeriveNetworks last32 (NewPrivateKey (replicate 32 0))))
    (nw_IPv6 (DeriveNetworks last32 (NewPrivateKey (replicate 32 1))))"
  by code_simp

theorem awg_defaults_valid_witness:
  "\<exists>c. awc_WithDefaultValues (replicate 32 0) (replicate 32 1) (replicate 32 0) pair_draws awg_NewConfig = Some c \<and>
    awc_Validate last32 (\<lambda>k. k) c = ok"
  by (rule awg_defaults_valid [OF pair_draws_fair _ _ _ demo_networks_apart]) simp_all

end
