(* ===== verification/AmneziaWG.thy ===== *)
theory AmneziaWG
  imports Awg_Config Peer_Request
begin

text \<open>
  The AmneziaWG service, \<^verbatim>\<open>services/amneziawg/amneziawg.go\<close>: one WireGuard service per tier, the default one
  and, when it is enabled, the 3.1 tier. Both drive the same host; its state travels with the default
  tier's service and is lent to the other one for each call. The reader of \<^verbatim>\<open>amneziawg.toml\<close>, SHA-256 and
  the public key of a private key are parameters.
\<close>

section \<open>The service\<close>

definition awg_Variant :: variant where
  "awg_Variant = \<lparr>var_Name = ''amneziawg'', var_Type = 5, var_Tool = ''awg'', var_Quick = ''awg-quick'',
    var_ConfigDir = ''/etc/amnezia/amneziawg''\<rparr>"

record 'o amneziawg =
  aw_wg :: "'o wireguard"
  aw_v3 :: "'o wireguard"
  aw_v3Net :: "ipnet option"
  aw_conf :: awg_config
  aw_asked :: "string \<rightharpoonup> int"
  aw_pool :: "ip_pool option"
  aw_poolV3 :: "ip_pool option"

text \<open>Until \<^verbatim>\<open>Init\<close> has run a node's tiers have no pool; this one, which hands out nothing, stands in.\<close>

definition no_pool :: ip_pool where
  "no_pool = \<lparr>pool_V4 = NewIPv4Pool [] \<lparr>net_IP = [], net_Mask = []\<rparr>,
    pool_V6 = NewIPv6Pool [] \<lparr>net_IP = [], net_Mask = []\<rparr>\<rparr>"

definition pool_or_none :: "ip_pool option \<Rightarrow> ip_pool" where
  "pool_or_none p = (case p of None \<Rightarrow> no_pool | Some p' \<Rightarrow> p')"

definition NewAmneziaWG :: "ip_pool option \<Rightarrow> ip_pool option \<Rightarrow> 'o \<Rightarrow> 'o amneziawg" where
  "NewAmneziaWG pool poolV3 w =
    \<lparr>aw_wg = NewVariant awg_Variant (pool_or_none pool) w, aw_v3 = NewVariant awg_Variant (pool_or_none poolV3) w,
     aw_v3Net = None, aw_conf = awg_NewConfig, aw_asked = Map.empty, aw_pool = pool, aw_poolV3 = poolV3\<rparr>"

definition aw_v3On :: "'o amneziawg \<Rightarrow> bool" where
  "aw_v3On s \<longleftrightarrow> V3Enabled (aw_conf s)"

text \<open>An operation of one tier's service.\<close>

definition on_default :: "('o wireguard \<Rightarrow> 'a \<times> 'o wireguard) \<Rightarrow> 'o amneziawg \<Rightarrow> 'a \<times> 'o amneziawg" where
  "on_default f s = (case f (aw_wg s) of (r, t) \<Rightarrow> (r, s\<lparr>aw_wg := t\<rparr>))"

definition on_v3 :: "('o wireguard \<Rightarrow> 'a \<times> 'o wireguard) \<Rightarrow> 'o amneziawg \<Rightarrow> 'a \<times> 'o amneziawg" where
  "on_v3 f s =
    (case f ((aw_v3 s)\<lparr>wg_world := wg_world (aw_wg s)\<rparr>) of
       (r, t) \<Rightarrow> (r, s\<lparr>aw_v3 := t, aw_wg := (aw_wg s)\<lparr>wg_world := wg_world t\<rparr>\<rparr>))"

definition usePools ::
  "(bytes \<Rightarrow> bytes) \<Rightarrow> (bytes \<Rightarrow> bytes) \<Rightarrow> 'o amneziawg \<Rightarrow> unit result \<times> 'o amneziawg" where
  "usePools sha pub s =
    (case (case aw_pool s of
             Some p \<Rightarrow> Inr (p, aw_poolV3 s)
           | None \<Rightarrow>
               (case TunnelNetworks sha pub (aw_conf s) of
                  Inl e \<Rightarrow> Inl e
                | Inr (def, v3) \<Rightarrow>
                    Inr (nw_Pool def, if aw_v3On s then map_option nw_Pool v3 else aw_poolV3 s))) of
       Inl e \<Rightarrow> (Inl e, s)
     | Inr (pool, poolV3) \<Rightarrow>
         let s1 = s\<lparr>aw_wg := wg_WithPool pool (aw_wg s)\<rparr> in
         (ok, case poolV3 of
                None \<Rightarrow> s1
              | Some p \<Rightarrow> s1\<lparr>aw_v3 := wg_WithPool p (aw_v3 s), aw_v3Net := Some (p4_Net (pool_V4 p))\<rparr>))"

definition missing_tool :: "'o host \<Rightarrow> 'o \<Rightarrow> unit result" where
  "missing_tool h w =
    (case find (\<lambda>tool. \<not> is_ok (h_LookPath h tool w)) [var_Tool awg_Variant, var_Quick awg_Variant] of
       None \<Rightarrow> ok
     | Some tool \<Rightarrow> Inl (''the '' @ tool @ '' tool is not on PATH''))"

text \<open>Each tier's service is given its configuration, so it never reads a file.\<close>

definition tier_Init ::
  "'o host \<Rightarrow> (bytes \<Rightarrow> bytes) \<Rightarrow> string \<Rightarrow> wg_config \<Rightarrow> string list \<Rightarrow> 'o wireguard \<Rightarrow> unit result \<times> 'o wireguard" where
  "tier_Init h pub home c extra s = wg_Init h (\<lambda>_ _. Inl ''not read'') pub home (wg_WithConfig c extra s)"

definition aw_Init ::
  "'o host \<Rightarrow> (string \<Rightarrow> 'o \<Rightarrow> awg_config result) \<Rightarrow> (bytes \<Rightarrow> bytes) \<Rightarrow> (bytes \<Rightarrow> bytes) \<Rightarrow> string \<Rightarrow>
    'o amneziawg \<Rightarrow> unit result \<times> 'o amneziawg" where
  "aw_Init h read sha pub home s =
    (let w = wg_world (aw_wg s) in
     case missing_tool h w of
       Inl e \<Rightarrow> (Inl e, s)
     | Inr _ \<Rightarrow>
         (case read (filepath_Join [home, ''amneziawg.toml'']) w of
            Inl e \<Rightarrow> (Inl e, s)
          | Inr c \<Rightarrow>
              let s0 = s\<lparr>aw_conf := c\<rparr> in
              case awc_Validate sha pub c of
                Inl e \<Rightarrow> (Inl e, s0)
              | Inr _ \<Rightarrow>
                  (case usePools sha pub s0 of
                     (Inl e, s1) \<Rightarrow> (Inl e, s1)
                   | (Inr _, s1) \<Rightarrow>
                       (case on_default (tier_Init h pub home (awc_WireGuard c)
                               (ob_InterfaceLines (awc_Obfuscation c))) s1 of
                          (Inl e, s2) \<Rightarrow> (Inl e, s2)
                        | (Inr _, s2) \<Rightarrow>
                            if \<not> aw_v3On s2 then (ok, s2)
                            else on_v3 (tier_Init h pub home (awc_WireGuardV3 c)
                                   (v3_InterfaceLines (awc_Obfuscation c) (awc_V3 c))) s2))))"

definition aw_Start :: "'o host \<Rightarrow> egress_policy \<Rightarrow> 'o amneziawg \<Rightarrow> unit result \<times> 'o amneziawg" where
  "aw_Start h pol s =
    (case on_default (wg_Start h pol) s of
       (Inl e, s1) \<Rightarrow> (Inl e, s1)
     | (Inr _, s1) \<Rightarrow>
         if \<not> aw_v3On s1 then (ok, s1)
         else (case on_v3 (wg_Start h pol) s1 of
                 (Inl e, s2) \<Rightarrow> (Inl e, snd (on_default (wg_Stop h) s2))
               | (Inr _, s2) \<Rightarrow> (ok, s2)))"

definition aw_Stop :: "'o host \<Rightarrow> 'o amneziawg \<Rightarrow> unit result \<times> 'o amneziawg" where
  "aw_Stop h s =
    (case on_default (wg_Stop h) s of
       (r, s1) \<Rightarrow>
         if aw_v3On s1
         then (case on_v3 (wg_Stop h) s1 of (e, s2) \<Rightarrow> (if r = ok then e else r, s2))
         else (r, s1))"

section \<open>Peers\<close>

text \<open>The version a request asks for; \<^verbatim>\<open>null\<close> and no field at all are the default.\<close>

definition awg_version :: "json option \<Rightarrow> int result" where
  "awg_version raw =
    (case as_object raw of
       None \<Rightarrow> Inl ''invalid amneziawg peer request''
     | Some obj \<Rightarrow>
         (case ptr_field as_int_ptr ''awg_version'' obj of
            None \<Rightarrow> Inl ''invalid amneziawg peer request''
          | Some None \<Rightarrow> Inr VersionDefault
          | Some (Some v) \<Rightarrow> Inr v))"

definition asked_set :: "string \<Rightarrow> int \<Rightarrow> (string \<rightharpoonup> int) \<Rightarrow> (string \<rightharpoonup> int)" where
  "asked_set key tier m = m(key \<mapsto> tier)"

definition asked_take :: "string \<Rightarrow> (string \<rightharpoonup> int) \<Rightarrow> int \<times> (string \<rightharpoonup> int)" where
  "asked_take key m = (case m key of None \<Rightarrow> VersionDefault | Some t \<Rightarrow> t, m(key := None))"

definition aw_offered :: "'o amneziawg \<Rightarrow> string" where
  "aw_offered s = (if aw_v3On s then ''2 and 3'' else ''2 only'')"

definition aw_ParsePeerRequest :: "json option \<Rightarrow> 'o amneziawg \<Rightarrow> bytes result \<times> 'o amneziawg" where
  "aw_ParsePeerRequest raw s =
    (case wg_ParsePeerRequest ''amneziawg'' raw of
       Inl e \<Rightarrow> (Inl e, s)
     | Inr key \<Rightarrow>
         (case awg_version raw of
            Inl e \<Rightarrow> (Inl e, s)
          | Inr tier \<Rightarrow>
              if tier = VersionDefault \<or> tier = Version3 \<and> aw_v3On s
              then (Inr key, s\<lparr>aw_asked := asked_set (b64_encode key) tier (aw_asked s)\<rparr>)
              else (Inl (''unsupported awg_version '' @ fmt_int tier @ ''; this node offers '' @ aw_offered s), s)))"

definition aw_AddPeer :: "'o host \<Rightarrow> bytes \<Rightarrow> 'o amneziawg \<Rightarrow> bytes result \<times> 'o amneziawg" where
  "aw_AddPeer h d s =
    (case asked_take (b64_encode d) (aw_asked s) of
       (tier, m) \<Rightarrow>
         let s1 = s\<lparr>aw_asked := m\<rparr> in
         if tier = Version3 \<and> aw_v3On s1 then on_v3 (wg_AddPeer h d) s1 else on_default (wg_AddPeer h d) s1)"

definition aw_HasPeer :: "bytes \<Rightarrow> 'o amneziawg \<Rightarrow> bool" where
  "aw_HasPeer d s \<longleftrightarrow> wg_HasPeer d (aw_wg s) \<or> aw_v3On s \<and> wg_HasPeer d (aw_v3 s)"

definition aw_RemovePeer :: "'o host \<Rightarrow> bytes \<Rightarrow> 'o amneziawg \<Rightarrow> unit result \<times> 'o amneziawg" where
  "aw_RemovePeer h d s =
    (if aw_v3On s \<and> wg_HasPeer d (aw_v3 s) then on_v3 (wg_RemovePeer h d) s
     else on_default (wg_RemovePeer h d) s)"

definition aw_Peers :: "'o host \<Rightarrow> 'o amneziawg \<Rightarrow> peer list result \<times> 'o amneziawg" where
  "aw_Peers h s =
    (case on_default (wg_Peers h) s of
       (Inl e, s1) \<Rightarrow> (Inl e, s1)
     | (Inr items, s1) \<Rightarrow>
         if \<not> aw_v3On s1 then (Inr items, s1)
         else (case on_v3 (wg_Peers h) s1 of
                 (Inl e, s2) \<Rightarrow> (Inl e, s2)
               | (Inr items', s2) \<Rightarrow> (Inr (items @ items'), s2)))"

definition aw_PeerCount :: "'o amneziawg \<Rightarrow> nat" where
  "aw_PeerCount s = wg_PeerCount (aw_wg s) + (if aw_v3On s then wg_PeerCount (aw_v3 s) else 0)"

definition aw_service :: "'o host \<Rightarrow> 'o amneziawg service" where
  "aw_service h = \<lparr>svc_AddPeer = aw_AddPeer h, svc_HasPeer = aw_HasPeer, svc_RemovePeer = aw_RemovePeer h,
    svc_Peers = aw_Peers h, svc_PeerCount = aw_PeerCount\<rparr>"

section \<open>What a client receives\<close>

record awg_entry =
  ae_Port :: nat
  ae_PublicKey :: string
  ae_S :: "16 word list"
  ae_H :: "32 word list"
  ae_I :: "string list"

record awg_entry_v3 = awg_entry +
  ae_AWGVersion :: int
  ae_HeaderProtectionKey :: string
  ae_RandomTrailers :: bool
  ae_MTU :: nat

datatype awg_payload = AwgData "string list" awg_entry | AwgDataV3 "string list" awg_entry_v3

abbreviation ob_I :: "obfuscation \<Rightarrow> string list" where
  "ob_I c \<equiv> [ob_I1 c, ob_I2 c, ob_I3 c, ob_I4 c, ob_I5 c]"

definition handshakePayloadV3 :: "bytes \<Rightarrow> 'o amneziawg \<Rightarrow> awg_payload result" where
  "handshakePayloadV3 r s =
    rbind (wg_HandshakePayload r (aw_v3 s)) (\<lambda>p.
      let v = awc_V3 (aw_conf s) in
      Inr (AwgDataV3 (wgh_Addrs p)
        \<lparr>ae_Port = wgh_Port p, ae_PublicKey = wgh_PublicKey p, ae_S = v3_S v, ae_H = v3_H v,
         ae_I = ob_I (awc_Obfuscation (aw_conf s)), ae_AWGVersion = Version3,
         ae_HeaderProtectionKey = v3_HeaderProtectionKey v, ae_RandomTrailers = v3_RandomTrailers v, ae_MTU = V3MTU\<rparr>))"

definition aw_HandshakePayload :: "bytes \<Rightarrow> 'o amneziawg \<Rightarrow> awg_payload result" where
  "aw_HandshakePayload r s =
    (if aw_v3On s \<and> 4 \<le> length r \<and> (case aw_v3Net s of None \<Rightarrow> False | Some n \<Rightarrow> net_Contains n (take 4 r))
     then handshakePayloadV3 r s
     else rbind (wg_HandshakePayload r (aw_wg s)) (\<lambda>p.
       let c = awc_Obfuscation (aw_conf s) in
       Inr (AwgData (wgh_Addrs p)
         \<lparr>ae_Port = wgh_Port p, ae_PublicKey = wgh_PublicKey p, ae_S = ob_S c, ae_H = ob_H c, ae_I = ob_I c\<rparr>)))"

text \<open>The public document has one entry per tier, blank but for the version.\<close>

definition aw_PublicMetadata :: "'o amneziawg \<Rightarrow> int list" where
  "aw_PublicMetadata s = VersionDefault # (if aw_v3On s then [Version3] else [])"

section \<open>The contract\<close>

definition aw_keys :: "'o amneziawg \<Rightarrow> string set" where
  "aw_keys s = wg_keys (aw_wg s) \<union> (if aw_v3On s then wg_keys (aw_v3 s) else {})"

definition wg_ids :: "'o wireguard \<Rightarrow> bool" where
  "wg_ids s \<longleftrightarrow> distinct (map wgp_Identity (wg_peers s))"

definition aw_inv :: "'o amneziawg \<Rightarrow> bool" where
  "aw_inv s \<longleftrightarrow> wg_ids (aw_wg s) \<and> wg_ids (aw_v3 s) \<and> (aw_v3On s \<longrightarrow> wg_keys (aw_wg s) \<inter> wg_keys (aw_v3 s) = {})"

text \<open>What a tier's service does to its peer table, whatever its pool.\<close>

lemma wg_AddPeer_peers:
  assumes "wg_AddPeer h d s = (r, s')"
  shows "(\<forall>e. r = Inl e \<longrightarrow> wg_peers s' = wg_peers s) \<and>
    (\<forall>b. r = Inr b \<longrightarrow> (\<exists>p. wg_peers s' = wgp_Put p (wg_peers s) \<and> wgp_Identity p = session_key d))"
  using assms unfolding wg_AddPeer_def Let_def
  by (auto split: prod.splits sum.splits)

lemma wg_AddPeer_table:
  assumes "wg_ids s" "wg_AddPeer h d s = (r, s')"
  shows "wg_ids s' \<and> wg_keys s' = (if is_ok r then insert (session_key d) (wg_keys s) else wg_keys s)"
  using assms(1) wg_AddPeer_peers [OF assms(2)]
  by (cases r) (auto simp: wg_ids_def wg_keys_def wgp_Put_def split: if_splits)

lemma wg_RemovePeer_table:
  assumes "wg_ids s" "wg_RemovePeer h d s = (r, s')"
  shows "wg_ids s'" "wg_keys s - {session_key d} \<subseteq> wg_keys s'" "wg_keys s' \<subseteq> wg_keys s"
    "d \<noteq> [] \<Longrightarrow> r = ok \<Longrightarrow> wg_keys s' = wg_keys s - {session_key d}"
proof -
  let ?v = "wgp_Get (b64_encode d) (wg_peers s)"
  have tab: "wg_peers s' = wg_peers s \<and> (r = ok \<longrightarrow> wgp_Empty ?v) \<or>
    wg_peers s' = wgp_Delete (session_key d) (wg_peers s)"
    using assms(2) wgp_Get_eq [of "b64_encode d" "wg_peers s"]
    by (auto simp: wg_RemovePeer_def Let_def wgp_Empty_def no_peer_def split: prod.splits sum.splits if_splits)
  then show "wg_ids s'" using assms(1) by (auto simp: wg_ids_def wgp_Delete_def distinct_map_filter')
  from tab have keys: "wg_keys s' = wg_keys s \<and> (r = ok \<longrightarrow> wgp_Empty ?v) \<or> wg_keys s' = wg_keys s - {session_key d}"
    by (auto simp: wg_keys_def wgp_Delete_def)
  then show "wg_keys s - {session_key d} \<subseteq> wg_keys s'" "wg_keys s' \<subseteq> wg_keys s" by auto
  have "wgp_Empty ?v \<Longrightarrow> d \<noteq> [] \<Longrightarrow> session_key d \<notin> wg_keys s"
    using wg_HasPeer_keys [of d s] by (simp add: wg_HasPeer_def)
  with keys show "d \<noteq> [] \<Longrightarrow> r = ok \<Longrightarrow> wg_keys s' = wg_keys s - {session_key d}" by auto
qed

lemma wg_count_ids: "wg_ids s \<Longrightarrow> wg_PeerCount s = card (wg_keys s)"
  by (simp add: wg_ids_def wg_PeerCount_def wgp_Len_def wg_keys_def) (metis distinct_card length_map list.set_map)

lemma wg_world_simps [simp]:
  "wg_ids (s\<lparr>wg_world := w\<rparr>) = wg_ids s" "wg_HasPeer d (s\<lparr>wg_world := w\<rparr>) = wg_HasPeer d s"
  by (simp_all add: wg_ids_def wg_HasPeer_def)

lemma wg_empty_keys: "wg_HasPeer [] s = False"
  using wgp_Get_eq [of "b64_encode []" "wg_peers s"] by (auto simp: wg_HasPeer_def wgp_Empty_def no_peer_def)

lemma on_defaultE:
  assumes "on_default f s = (r, s')"
  obtains t where "f (aw_wg s) = (r, t)" "s' = s\<lparr>aw_wg := t\<rparr>"
  using assms by (auto simp: on_default_def split: prod.splits)

lemma on_v3E:
  assumes "on_v3 f s = (r, s')"
  obtains t where "f ((aw_v3 s)\<lparr>wg_world := wg_world (aw_wg s)\<rparr>) = (r, t)"
    "s' = s\<lparr>aw_v3 := t, aw_wg := (aw_wg s)\<lparr>wg_world := wg_world t\<rparr>\<rparr>"
  using assms by (auto simp: on_v3_def split: prod.splits)

lemma aw_AddPeerE:
  assumes add: "aw_AddPeer h d s = (r, s')"
  obtains (default) t where "wg_AddPeer h d (aw_wg s) = (r, t)"
      "s' = s\<lparr>aw_asked := (aw_asked s)(session_key d := None), aw_wg := t\<rparr>"
      "\<not> (aw_asked s (session_key d) = Some Version3 \<and> aw_v3On s)"
  | (v3) t where "wg_AddPeer h d ((aw_v3 s)\<lparr>wg_world := wg_world (aw_wg s)\<rparr>) = (r, t)" "aw_v3On s"
      "s' = s\<lparr>aw_asked := (aw_asked s)(session_key d := None), aw_v3 := t, aw_wg := (aw_wg s)\<lparr>wg_world := wg_world t\<rparr>\<rparr>"
      "aw_asked s (session_key d) = Some Version3"
proof (cases "aw_asked s (session_key d) = Some Version3 \<and> aw_v3On s")
  case True
  then have "on_v3 (wg_AddPeer h d) (s\<lparr>aw_asked := (aw_asked s)(session_key d := None)\<rparr>) = (r, s')"
    using add by (simp add: aw_AddPeer_def asked_take_def aw_v3On_def)
  then show thesis using True by (elim on_v3E) (rule v3, simp_all)
next
  case False
  then have "on_default (wg_AddPeer h d) (s\<lparr>aw_asked := (aw_asked s)(session_key d := None)\<rparr>) = (r, s')"
    using add by (auto simp: aw_AddPeer_def asked_take_def aw_v3On_def VersionDefault_def Version3_def
        split: option.splits if_splits)
  then show thesis using False by (elim on_defaultE) (rule default, simp_all)
qed

lemma aw_RemovePeerE:
  assumes rem: "aw_RemovePeer h d s = (r, s')"
  obtains (default) t where "wg_RemovePeer h d (aw_wg s) = (r, t)" "s' = s\<lparr>aw_wg := t\<rparr>"
      "\<not> (aw_v3On s \<and> wg_HasPeer d (aw_v3 s))"
  | (v3) t where "wg_RemovePeer h d ((aw_v3 s)\<lparr>wg_world := wg_world (aw_wg s)\<rparr>) = (r, t)" "aw_v3On s"
      "s' = s\<lparr>aw_v3 := t, aw_wg := (aw_wg s)\<lparr>wg_world := wg_world t\<rparr>\<rparr>" "wg_HasPeer d (aw_v3 s)"
proof (cases "aw_v3On s \<and> wg_HasPeer d (aw_v3 s)")
  case True
  then have "on_v3 (wg_RemovePeer h d) s = (r, s')" using rem by (simp add: aw_RemovePeer_def)
  then show thesis using True by (elim on_v3E) (rule v3, simp_all)
next
  case False
  then have "on_default (wg_RemovePeer h d) s = (r, s')" using rem by (auto simp: aw_RemovePeer_def)
  then show thesis using False by (elim on_defaultE) (rule default, simp_all)
qed

text \<open>Starting, stopping and listing change the host only.\<close>

definition aw_quiet :: "'o amneziawg \<Rightarrow> 'o amneziawg \<Rightarrow> bool" where
  "aw_quiet s s' \<longleftrightarrow> (\<exists>w w'. s' = s\<lparr>aw_wg := (aw_wg s)\<lparr>wg_world := w\<rparr>, aw_v3 := (aw_v3 s)\<lparr>wg_world := w'\<rparr>\<rparr>)"

definition world_only :: "('o wireguard \<Rightarrow> 'a \<times> 'o wireguard) \<Rightarrow> bool" where
  "world_only f \<longleftrightarrow> (\<forall>t r t'. f t = (r, t') \<longrightarrow> (\<exists>w. t' = t\<lparr>wg_world := w\<rparr>))"

lemma aw_quiet_trans:
  assumes "aw_quiet s t" "aw_quiet t u"
  shows "aw_quiet s u"
proof -
  obtain w w' where "u = t\<lparr>aw_wg := (aw_wg t)\<lparr>wg_world := w\<rparr>, aw_v3 := (aw_v3 t)\<lparr>wg_world := w'\<rparr>\<rparr>"
    using assms(2) by (auto simp: aw_quiet_def)
  with assms(1) show ?thesis
    unfolding aw_quiet_def by (intro exI [of _ w] exI [of _ w']) auto
qed

lemma on_default_quiet:
  assumes "on_default f s = (r, s')" "world_only f"
  shows "aw_quiet s s'"
proof -
  obtain w where "s' = s\<lparr>aw_wg := (aw_wg s)\<lparr>wg_world := w\<rparr>\<rparr>"
    using assms unfolding world_only_def by (elim on_defaultE) blast
  then show ?thesis
    unfolding aw_quiet_def by (intro exI [of _ w] exI [of _ "wg_world (aw_v3 s)"]) simp
qed

lemma on_v3_quiet:
  assumes "on_v3 f s = (r, s')" "world_only f"
  shows "aw_quiet s s'"
proof -
  obtain t where t: "f ((aw_v3 s)\<lparr>wg_world := wg_world (aw_wg s)\<rparr>) = (r, t)"
      "s' = s\<lparr>aw_v3 := t, aw_wg := (aw_wg s)\<lparr>wg_world := wg_world t\<rparr>\<rparr>"
    using assms(1) by (rule on_v3E)
  with assms(2) obtain w where "t = (aw_v3 s)\<lparr>wg_world := wg_world (aw_wg s), wg_world := w\<rparr>"
    unfolding world_only_def by blast
  with t(2) show ?thesis unfolding aw_quiet_def by (intro exI [of _ w]) simp
qed

lemma world_only_ops: "world_only (wg_Start h pol)" "world_only (wg_Stop h)" "world_only (wg_Peers h)"
  by (auto simp: world_only_def wg_Start_def wg_Stop_def split: prod.splits dest: wg_Peers_law)

lemma aw_Peers_quiet:
  assumes "aw_Peers h s = (r, s')"
  shows "aw_quiet s s'"
proof -
  obtain r1 s1 where one: "on_default (wg_Peers h) s = (r1, s1)" by fastforce
  obtain r2 s2 where two: "on_v3 (wg_Peers h) s1 = (r2, s2)" by fastforce
  have "s' = s1 \<or> s' = s2"
    using assms one two by (auto simp: aw_Peers_def split: sum.splits if_splits)
  then show ?thesis
    using on_default_quiet [OF one world_only_ops(3)] on_v3_quiet [OF two world_only_ops(3)] aw_quiet_trans by blast
qed

lemma aw_Start_quiet:
  assumes "aw_Start h pol s = (r, s')"
  shows "aw_quiet s s'"
proof -
  obtain r1 s1 where one: "on_default (wg_Start h pol) s = (r1, s1)" by fastforce
  obtain r2 s2 where two: "on_v3 (wg_Start h pol) s1 = (r2, s2)" by fastforce
  obtain r3 s3 where three: "on_default (wg_Stop h) s2 = (r3, s3)" by fastforce
  have "s' = s1 \<or> s' = s2 \<or> s' = s3"
    using assms one two three by (auto simp: aw_Start_def split: sum.splits if_splits)
  then show ?thesis
    using on_default_quiet [OF one world_only_ops(1)] on_v3_quiet [OF two world_only_ops(1)]
      on_default_quiet [OF three world_only_ops(2)] aw_quiet_trans by blast
qed

lemma aw_Stop_quiet:
  assumes "aw_Stop h s = (r, s')"
  shows "aw_quiet s s'"
proof -
  obtain r1 s1 where one: "on_default (wg_Stop h) s = (r1, s1)" by fastforce
  obtain r2 s2 where two: "on_v3 (wg_Stop h) s1 = (r2, s2)" by fastforce
  have "s' = s1 \<or> s' = s2"
    using assms one two by (auto simp: aw_Stop_def split: if_splits)
  then show ?thesis
    using on_default_quiet [OF one world_only_ops(2)] on_v3_quiet [OF two world_only_ops(2)] aw_quiet_trans by blast
qed

interpretation aw: vpn_service "aw_service h" aw_keys aw_inv False
  for h
proof unfold_locales
  fix s s' :: "'a amneziawg" and d r b e r'
  assume inv: "aw_inv s"
  show "finite (aw_keys s)" by (simp add: aw_keys_def wg_keys_def)
  show "svc_PeerCount (aw_service h) s = card (aw_keys s)"
    using inv by (auto simp: aw_service_def aw_PeerCount_def aw_keys_def aw_inv_def wg_count_ids card_Un_disjoint wg_keys_def)
  show "svc_HasPeer (aw_service h) d s = (session_key d \<in> aw_keys s)" if "d \<noteq> []"
    using wg_HasPeer_keys [OF that] by (auto simp: aw_service_def aw_HasPeer_def aw_keys_def)
  have add: "aw_inv s' \<and> aw_keys s' = (if is_ok q then insert (session_key d) (aw_keys s) else aw_keys s)"
    if "session_key d \<notin> aw_keys s" "aw_AddPeer h d s = (q, s')" for q
    using that(2)
  proof (cases rule: aw_AddPeerE)
    case (default t)
    with inv that(1) wg_AddPeer_table [OF _ default(1)] show ?thesis
      by (auto simp: aw_inv_def aw_keys_def aw_v3On_def split: if_splits)
  next
    case (v3 t)
    with inv that(1) wg_AddPeer_table [OF _ v3(1)] show ?thesis
      by (auto simp: aw_inv_def aw_keys_def aw_v3On_def split: if_splits)
  qed
  show "aw_inv s' \<and> aw_keys s' = insert (session_key d) (aw_keys s)"
    if "False \<or> session_key d \<notin> aw_keys s" "svc_AddPeer (aw_service h) d s = (Inr b, s')"
    using add [of "Inr b"] that by (simp add: aw_service_def)
  show "aw_inv s' \<and> aw_keys s' = aw_keys s"
    if "False \<or> session_key d \<notin> aw_keys s" "svc_AddPeer (aw_service h) d s = (Inl e, s')"
    using add [of "Inl e"] that by (simp add: aw_service_def)
  have rem: "aw_inv s' \<and> aw_keys s - {session_key d} \<subseteq> aw_keys s' \<and> aw_keys s' \<subseteq> aw_keys s \<and>
      (d \<noteq> [] \<longrightarrow> q = ok \<longrightarrow> aw_keys s' = aw_keys s - {session_key d})"
    if "aw_RemovePeer h d s = (q, s')" for q
    using that
  proof (cases rule: aw_RemovePeerE)
    case (default t)
    have "d \<noteq> [] \<Longrightarrow> aw_v3On s \<Longrightarrow> session_key d \<notin> wg_keys (aw_v3 s)"
      using default(3) wg_HasPeer_keys by blast
    with default(2) inv wg_RemovePeer_table [OF _ default(1)] show ?thesis
      by (auto simp: aw_inv_def aw_keys_def aw_v3On_def split: if_splits)
  next
    case (v3 t)
    have "d \<noteq> []" using v3(4) wg_empty_keys by metis
    then have "session_key d \<in> wg_keys (aw_v3 s)" using v3(4) wg_HasPeer_keys by blast
    with v3(2,3) inv wg_RemovePeer_table [OF _ v3(1)] show ?thesis
      by (auto simp: aw_inv_def aw_keys_def aw_v3On_def split: if_splits)
  qed
  show "aw_keys s' = aw_keys s - {session_key d}" if "d \<noteq> []" "svc_RemovePeer (aw_service h) d s = (ok, s')"
    using rem [of ok] that by (simp add: aw_service_def)
  show "aw_inv s' \<and> aw_keys s - {session_key d} \<subseteq> aw_keys s' \<and> aw_keys s' \<subseteq> aw_keys s"
    if "svc_RemovePeer (aw_service h) d s = (r, s')"
    using rem [of r] that by (simp add: aw_service_def)
  show "aw_inv s' \<and> aw_keys s' = aw_keys s" if "svc_Peers (aw_service h) s = (r', s')"
    using aw_Peers_quiet [of h s r' s'] that inv
    by (auto simp: aw_service_def aw_quiet_def aw_inv_def aw_keys_def aw_v3On_def)
qed

section \<open>Tiers and tunnel addresses\<close>

text \<open>Every address a pool has handed out or taken back lies in its network; IPv6 addresses have 16 bytes.\<close>

definition pool4_within :: "ipv4_pool \<Rightarrow> bool" where
  "pool4_within p \<longleftrightarrow> (\<forall>a \<in> set (p4_available p) \<union> p4_reserved p. net_Contains (p4_Net p) (v4_Bytes a))"

definition pool6_within :: "ipv6_pool \<Rightarrow> bool" where
  "pool6_within p \<longleftrightarrow>
    (\<forall>a \<in> set (p6_available p) \<union> p6_reserved p. length a = 16) \<and> length (p6_current p) = 16"

definition pool_within :: "ip_pool \<Rightarrow> bool" where
  "pool_within p \<longleftrightarrow> pool4_within (pool_V4 p) \<and> pool6_within (pool_V6 p)"

definition tier_within :: "'o wireguard \<Rightarrow> bool" where
  "tier_within s \<longleftrightarrow> pool_within (wg_pool s) \<and>
    (\<forall>p \<in> set (wg_peers s). net_Contains (p4_Net (pool_V4 (wg_pool s))) (v4_Bytes (wgp_IPv4 p)))"

lemma length_v6_Next [simp]: "length (v6_Next a) = length a"
  by (simp add: v6_Next_def)

lemma pool4_Get_within:
  assumes "IPv4Pool_Get p = (r, p')" "pool4_within p"
  shows "pool4_within p' \<and> p4_Net p' = p4_Net p \<and> (\<forall>a. r = Inr a \<longrightarrow> net_Contains (p4_Net p) (v4_Bytes a))"
  using assms unfolding IPv4Pool_Get_def pool4_within_def Let_def by (auto split: list.splits if_splits)

lemma pool4_Release_within: "pool4_within p \<Longrightarrow> pool4_within (IPv4Pool_Release b p)"
  by (auto simp: IPv4Pool_Release_def pool4_within_def)

lemma pool6_Get_within:
  assumes "IPv6Pool_Get p = (r, p')" "pool6_within p"
  shows "pool6_within p' \<and> (\<forall>a. r = Inr a \<longrightarrow> length a = 16)"
  using assms unfolding IPv6Pool_Get_def pool6_within_def Let_def by (auto split: list.splits if_splits)

lemma pool6_Release_within: "pool6_within p \<Longrightarrow> pool6_within (IPv6Pool_Release b p)"
  by (auto simp: IPv6Pool_Release_def pool6_within_def)

lemma IPPool_Release_within:
  "pool_within p \<Longrightarrow> pool_within (IPPool_Release v4 v6 p)"
  "p4_Net (pool_V4 (IPPool_Release v4 v6 p)) = p4_Net (pool_V4 p)"
  by (simp_all add: pool_within_def IPPool_Release_def pool4_Release_within pool6_Release_within)

lemma IPPool_Get_within:
  assumes "IPPool_Get p = (r, p')" "pool_within p"
  shows "pool_within p' \<and> p4_Net (pool_V4 p') = p4_Net (pool_V4 p) \<and>
    (\<forall>v4 v6. r = Inr (v4, v6) \<longrightarrow> net_Contains (p4_Net (pool_V4 p)) (v4_Bytes v4) \<and> length v6 = 16)"
proof -
  obtain r4 p4 where g4: "IPv4Pool_Get (pool_V4 p) = (r4, p4)" by fastforce
  obtain r6 p6 where g6: "IPv6Pool_Get (pool_V6 p) = (r6, p6)" by fastforce
  show ?thesis
    using assms g4 g6 pool4_Get_within [OF g4] pool6_Get_within [OF g6]
    by (auto simp: IPPool_Get_def pool_within_def pool4_Release_within split: sum.splits)
qed

lemma wg_AddPeer_within:
  assumes add: "wg_AddPeer h d s = (r, s')" and w: "tier_within s"
  shows "tier_within s' \<and> p4_Net (pool_V4 (wg_pool s')) = p4_Net (pool_V4 (wg_pool s)) \<and> wg_info s' = wg_info s \<and>
    (\<forall>b. r = Inr b \<longrightarrow> length b = 20 \<and> net_Contains (p4_Net (pool_V4 (wg_pool s))) (take 4 b))"
proof -
  let ?en = "wgc_EnableIPv6 (wg_conf s)"
  obtain q p where get: "IPPool_Get (wg_pool s) = (q, p)" by fastforce
  have p: "pool_within p" "p4_Net (pool_V4 p) = p4_Net (pool_V4 (wg_pool s))"
    using IPPool_Get_within [OF get] w by (simp_all add: tier_within_def)
  show ?thesis
  proof (cases q)
    case (Inl e)
    with add get p w show ?thesis by (auto simp: wg_AddPeer_def tier_within_def)
  next
    case (Inr v)
    obtain v4 v6 where v: "v = (v4, v6)" by (meson surj_pair)
    define p1 where "p1 = (if ?en then p else p\<lparr>pool_V6 := IPv6Pool_Release v6 (pool_V6 p)\<rparr>)"
    define v6' where "v6' = (if ?en then v6 else v6_zero)"
    have got: "net_Contains (p4_Net (pool_V4 (wg_pool s))) (v4_Bytes v4)" "length v6' = 16"
      using IPPool_Get_within [OF get] w Inr v by (auto simp: tier_within_def v6'_def v6_zero_def)
    have p1: "pool_within p1" "p4_Net (pool_V4 p1) = p4_Net (pool_V4 (wg_pool s))"
      using p by (auto simp: p1_def pool_within_def pool6_Release_within)
    obtain w1 where "(\<exists>e. r = Inl e \<and> s' = s\<lparr>wg_pool := IPPool_Release v4 v6' p1, wg_world := w1\<rparr>) \<or>
        r = Inr (v4_Bytes v4 @ v6') \<and> s' = s\<lparr>wg_pool := p1, wg_world := w1,
          wg_peers := wgp_Put \<lparr>wgp_Identity = session_key d, wgp_IPv4 = v4, wgp_IPv6 = v6'\<rparr> (wg_peers s)\<rparr>"
      using add get Inr v by (simp add: wg_AddPeer_def Let_def p1_def v6'_def split: prod.splits sum.splits) blast+
    then show ?thesis
      using w got p1 by (auto simp: tier_within_def wgp_Put_def IPPool_Release_within split: if_splits)
  qed
qed

lemma wg_RemovePeer_within:
  assumes "wg_RemovePeer h d s = (r, s')" "tier_within s"
  shows "tier_within s' \<and> p4_Net (pool_V4 (wg_pool s')) = p4_Net (pool_V4 (wg_pool s))"
  using assms
  by (auto simp: wg_RemovePeer_def Let_def tier_within_def wgp_Delete_def IPPool_Release_within
      split: prod.splits sum.splits if_splits)

text \<open>The tiers hand out addresses of disjoint networks, and the node knows the 3.1 tier's.\<close>

definition aw_apart :: "'o amneziawg \<Rightarrow> bool" where
  "aw_apart s \<longleftrightarrow> tier_within (aw_wg s) \<and>
    (aw_v3On s \<longrightarrow> tier_within (aw_v3 s) \<and> aw_v3Net s = Some (p4_Net (pool_V4 (wg_pool (aw_v3 s)))) \<and>
      (\<forall>x. length x = 4 \<longrightarrow> net_Contains (p4_Net (pool_V4 (wg_pool (aw_wg s)))) x \<longrightarrow>
        \<not> net_Contains (p4_Net (pool_V4 (wg_pool (aw_v3 s)))) x))"

lemma tier_within_world [simp]: "tier_within (s\<lparr>wg_world := w\<rparr>) = tier_within s"
  by (simp add: tier_within_def)

lemma tier_Init_fields:
  assumes "tier_Init h pub home c extra s = (r, s')"
  shows "wg_peers s' = wg_peers s \<and> wg_pool s' = wg_pool s"
  using wg_Init_fields [OF assms [unfolded tier_Init_def]] by (simp add: wg_WithConfig_def)

lemma nw_Pool_within: "pool_within (nw_Pool n)" "p4_Net (pool_V4 (nw_Pool n)) = nw_IPv4 n"
  by (simp_all add: nw_Pool_def pool_within_def pool4_within_def pool6_within_def NewIPv4Pool_def NewIPv6Pool_def
      NewIPv6FromIP_def v6_zero_def)

lemma usePools_fresh:
  assumes "usePools sha pub (NewAmneziaWG None None w\<lparr>aw_conf := c\<rparr>) = (ok, s)"
  shows "aw_apart s \<and> aw_conf s = c"
proof -
  obtain def v3 where nets: "TunnelNetworks sha pub c = Inr (def, v3)"
      and s: "aw_wg s = NewVariant awg_Variant (nw_Pool def) w" "aw_conf s = c"
        "\<And>n. V3Enabled c \<Longrightarrow> v3 = Some n \<Longrightarrow> aw_v3 s = NewVariant awg_Variant (nw_Pool n) w \<and>
          aw_v3Net s = Some (nw_IPv4 n)"
    using assms
    by (auto simp: usePools_def NewAmneziaWG_def wg_WithPool_def NewVariant_def aw_v3On_def Let_def nw_Pool_within
        split: sum.splits prod.splits option.splits if_splits)
  have "V3Enabled c \<Longrightarrow> \<exists>n. v3 = Some n"
    using nets unfolding TunnelNetworks_def rbind_eq_Inr_iff Let_def
    by (elim exE conjE) (auto split: sum.split_asm if_split_asm)
  then show ?thesis
    using s TunnelNetworks_disjoint [of sha pub c def] nets
    by (auto simp: aw_apart_def tier_within_def NewVariant_def nw_Pool_within aw_v3On_def)
qed

lemma aw_Init_apart:
  assumes "aw_Init h read sha pub home (NewAmneziaWG None None w) = (ok, s)"
  shows "aw_apart s"
proof -
  obtain c s1 s2 r where use: "usePools sha pub (NewAmneziaWG None None w\<lparr>aw_conf := c\<rparr>) = (ok, s1)"
      and one: "on_default (tier_Init h pub home (awc_WireGuard c) (ob_InterfaceLines (awc_Obfuscation c))) s1 = (ok, s2)"
      and two: "\<not> aw_v3On s2 \<and> s = s2 \<or> on_v3 (tier_Init h pub home (awc_WireGuardV3 c)
          (v3_InterfaceLines (awc_Obfuscation c) (awc_V3 c))) s2 = (ok, s)"
    using assms by (auto simp: aw_Init_def Let_def split: sum.splits prod.splits if_splits)
  obtain t where t: "tier_Init h pub home (awc_WireGuard c) (ob_InterfaceLines (awc_Obfuscation c)) (aw_wg s1) = (ok, t)"
      "s2 = s1\<lparr>aw_wg := t\<rparr>"
    using one by (rule on_defaultE)
  have s2: "aw_apart s2"
    using usePools_fresh [OF use] tier_Init_fields [OF t(1)] t(2)
    by (simp add: aw_apart_def tier_within_def aw_v3On_def)
  from two show ?thesis
  proof
    assume "on_v3 (tier_Init h pub home (awc_WireGuardV3 c)
          (v3_InterfaceLines (awc_Obfuscation c) (awc_V3 c))) s2 = (ok, s)"
    then show ?thesis
      using s2 by (elim on_v3E) (auto simp: aw_apart_def tier_within_def aw_v3On_def dest!: tier_Init_fields)
  qed (use s2 in simp)
qed

section \<open>The service at work\<close>

text \<open>One operation of the running service; the label is the session key of the peer it is about.\<close>

inductive awg_step :: "'o host \<Rightarrow> string option \<Rightarrow> 'o amneziawg \<Rightarrow> 'o amneziawg \<Rightarrow> bool"
  for h :: "'o host" where
  st_start: "aw_Start h pol s = (r, s') \<Longrightarrow> awg_step h None s s'"
| st_stop: "aw_Stop h s = (r, s') \<Longrightarrow> awg_step h None s s'"
| st_list: "aw_Peers h s = (l, s') \<Longrightarrow> awg_step h None s s'"
| st_refuse: "aw_ParsePeerRequest raw s = (Inl e, s') \<Longrightarrow> awg_step h None s s'"
| st_request: "aw_ParsePeerRequest raw s = (Inr key, s') \<Longrightarrow> awg_step h (Some (session_key key)) s s'"
| st_add: "aw_AddPeer h d s = (a, s') \<Longrightarrow> awg_step h (Some (session_key d)) s s'"
| st_remove: "aw_RemovePeer h d s = (u, s') \<Longrightarrow> awg_step h (Some (session_key d)) s s'"

inductive awg_reach :: "'o host \<Rightarrow> 'o amneziawg \<Rightarrow> bool" for h :: "'o host" where
  rc_init: "aw_Init h read sha pub home (NewAmneziaWG None None w) = (ok, s) \<Longrightarrow> awg_reach h s"
| rc_step: "awg_reach h s \<Longrightarrow> awg_step h l s s' \<Longrightarrow> awg_reach h s'"

text \<open>Any number of operations, none of them about the peer \<open>k\<close>.\<close>

inductive awg_others :: "'o host \<Rightarrow> string \<Rightarrow> 'o amneziawg \<Rightarrow> 'o amneziawg \<Rightarrow> bool" for h :: "'o host" and k :: string where
  ot_none: "awg_others h k s s"
| ot_step: "awg_others h k s t \<Longrightarrow> awg_step h l t u \<Longrightarrow> l \<noteq> Some k \<Longrightarrow> awg_others h k s u"

lemma aw_ParsePeerRequest_Inr:
  assumes "aw_ParsePeerRequest raw s = (Inr key, s')"
  shows "\<exists>tier. awg_version raw = Inr tier \<and> (tier = VersionDefault \<or> tier = Version3 \<and> aw_v3On s) \<and>
    s' = s\<lparr>aw_asked := (aw_asked s)(session_key key \<mapsto> tier)\<rparr>"
  using assms
  by (cases "wg_ParsePeerRequest ''amneziawg'' raw"; cases "awg_version raw")
    (auto simp: aw_ParsePeerRequest_def asked_set_def split: if_splits)

lemma aw_ParsePeerRequest_Inl: "aw_ParsePeerRequest raw s = (Inl e, s') \<Longrightarrow> s' = s"
  by (auto simp: aw_ParsePeerRequest_def split: sum.splits if_splits)

lemma awg_step_apart:
  assumes "awg_step h l s s'" "aw_apart s"
  shows "aw_apart s' \<and> aw_conf s' = aw_conf s \<and> (\<forall>k. l \<noteq> Some k \<longrightarrow> aw_asked s' k = aw_asked s k)"
  using assms
proof cases
  case (st_start pol r)
  then show ?thesis using assms(2) aw_Start_quiet [of h pol s r s'] by (auto simp: aw_quiet_def aw_apart_def aw_v3On_def)
next
  case (st_stop r)
  then show ?thesis using assms(2) aw_Stop_quiet [of h s r s'] by (auto simp: aw_quiet_def aw_apart_def aw_v3On_def)
next
  case (st_list r)
  then show ?thesis using assms(2) aw_Peers_quiet [of h s r s'] by (auto simp: aw_quiet_def aw_apart_def aw_v3On_def)
next
  case (st_refuse raw e)
  then show ?thesis
    using assms(2) aw_ParsePeerRequest_Inl [of raw s e s'] by (auto simp: aw_apart_def aw_v3On_def)
next
  case (st_request raw key)
  then show ?thesis
    using assms(2) aw_ParsePeerRequest_Inr [of raw s key s'] by (auto simp: aw_apart_def aw_v3On_def)
next
  case (st_add d r)
  from st_add(2) show ?thesis
  proof (cases rule: aw_AddPeerE)
    case (default t)
    with assms(2) wg_AddPeer_within [OF default(1)] st_add(1) show ?thesis by (auto simp: aw_apart_def aw_v3On_def)
  next
    case (v3 t)
    with assms(2) wg_AddPeer_within [OF v3(1)] st_add(1) show ?thesis by (auto simp: aw_apart_def aw_v3On_def)
  qed
next
  case (st_remove d r)
  from st_remove(2) show ?thesis
  proof (cases rule: aw_RemovePeerE)
    case (default t)
    with assms(2) wg_RemovePeer_within [OF default(1)] show ?thesis by (auto simp: aw_apart_def aw_v3On_def)
  next
    case (v3 t)
    with assms(2) wg_RemovePeer_within [OF v3(1)] show ?thesis by (auto simp: aw_apart_def aw_v3On_def)
  qed
qed

lemma awg_reach_apart: "awg_reach h s \<Longrightarrow> aw_apart s"
  by (induction rule: awg_reach.induct) (auto dest: aw_Init_apart awg_step_apart)

lemma awg_others_keep:
  assumes "awg_others h k s t" "aw_apart s"
  shows "aw_apart t \<and> aw_conf t = aw_conf s \<and> aw_asked t k = aw_asked s k"
  using assms by (induction rule: awg_others.induct) (auto dest: awg_step_apart)

lemma peerAddrs_20: "length r = 20 \<Longrightarrow> \<exists>as. peerAddrs r = Inr ((ip_String (take 4 r) @ ''/32'') # as)"
  by (auto simp: peerAddrs_def)

text \<open>C33: a client is served on the tier it asked for, with that tier's parameters. Whatever happens to other
  peers between its request and its admission, a client that asked for version 3 is added to the 3.1 tier and
  receives the 3.1 entry with that interface's port and key; any other accepted client is added to the
  default tier and receives the default entry.\<close>

theorem awg_tier_follows_request:
  assumes "awg_reach h s" "aw_ParsePeerRequest raw s = (Inr key, s1)"
    and "awg_others h (session_key key) s1 s2" "aw_AddPeer h key s2 = (Inr r, s3)"
  shows "if awg_version raw = Inr Version3
    then \<exists>as e. aw_HandshakePayload r s3 = Inr (AwgDataV3 ((ip_String (take 4 r) @ ''/32'') # as) e) \<and>
      ae_Port e = wg_ListenPort (aw_v3 s3) \<and> ae_PublicKey e = wg_PublicKey (aw_v3 s3) \<and>
      ae_S e = v3_S (awc_V3 (aw_conf s)) \<and> ae_H e = v3_H (awc_V3 (aw_conf s)) \<and> session_key key \<in> wg_keys (aw_v3 s3)
    else \<exists>as e. aw_HandshakePayload r s3 = Inr (AwgData ((ip_String (take 4 r) @ ''/32'') # as) e) \<and>
      ae_Port e = wg_ListenPort (aw_wg s3) \<and> ae_PublicKey e = wg_PublicKey (aw_wg s3) \<and>
      ae_S e = ob_S (awc_Obfuscation (aw_conf s)) \<and> ae_H e = ob_H (awc_Obfuscation (aw_conf s)) \<and>
      session_key key \<in> wg_keys (aw_wg s3)"
proof -
  obtain tier where tier: "awg_version raw = Inr tier" "tier = VersionDefault \<or> tier = Version3 \<and> aw_v3On s"
      and s1: "s1 = s\<lparr>aw_asked := (aw_asked s)(session_key key \<mapsto> tier)\<rparr>"
    using aw_ParsePeerRequest_Inr [OF assms(2)] by blast
  have "aw_apart s1" using awg_reach_apart [OF assms(1)] by (simp add: s1 aw_apart_def aw_v3On_def)
  from awg_others_keep [OF assms(3) this]
  have s2: "aw_apart s2" "aw_conf s2 = aw_conf s" "aw_asked s2 (session_key key) = Some tier"
    by (simp_all add: s1)
  have on: "aw_v3On s2 = aw_v3On s" by (simp add: aw_v3On_def s2(2))
  from assms(4) show ?thesis
  proof (cases rule: aw_AddPeerE)
    case (default t)
    then have v: "awg_version raw \<noteq> Inr Version3" using tier s2(3) on by (auto simp: VersionDefault_def Version3_def)
    have w: "length r = 20" "net_Contains (p4_Net (pool_V4 (wg_pool (aw_wg s2)))) (take 4 r)"
      using wg_AddPeer_within [OF default(1)] s2(1) by (simp_all add: aw_apart_def)
    then have "\<not> (aw_v3On s2 \<and> (case aw_v3Net s2 of None \<Rightarrow> False | Some n \<Rightarrow> net_Contains n (take 4 r)))"
      using s2(1) by (auto simp: aw_apart_def)
    moreover have "session_key key \<in> wg_keys t"
      using wg_AddPeer_peers [OF default(1)] by (auto simp: wg_keys_def wgp_Put_def split: if_splits)
    moreover have "wg_info t = wg_info (aw_wg s2)" using wg_AddPeer_within [OF default(1)] s2(1) by (simp add: aw_apart_def)
    ultimately show ?thesis
      using v default(2) s2(2) peerAddrs_20 [OF w(1)]
      by (auto simp: aw_HandshakePayload_def aw_v3On_def wg_HandshakePayload_def wg_ListenPort_def wg_PublicKey_def Let_def)
  next
    case (v3 t)
    then have v: "awg_version raw = Inr Version3" using tier s2(3) by simp
    have w: "length r = 20" "net_Contains (p4_Net (pool_V4 (wg_pool (aw_v3 s2)))) (take 4 r)"
      using wg_AddPeer_within [OF v3(1)] s2(1) v3(2) by (simp_all add: aw_apart_def)
    moreover have "aw_v3Net s2 = Some (p4_Net (pool_V4 (wg_pool (aw_v3 s2))))"
      using s2(1) v3(2) by (simp add: aw_apart_def)
    moreover have "session_key key \<in> wg_keys t"
      using wg_AddPeer_peers [OF v3(1)] by (auto simp: wg_keys_def wgp_Put_def split: if_splits)
    ultimately show ?thesis
      using v v3(2,3) s2(2) peerAddrs_20 [OF w(1)]
      by (auto simp: aw_HandshakePayload_def handshakePayloadV3_def aw_v3On_def wg_HandshakePayload_def
          wg_ListenPort_def wg_PublicKey_def Let_def)
  qed
qed

text \<open>C34: a peer's tunnel address says which tier it is on. With both tiers running, every peer of the 3.1 tier
  has an address in the network the node knows as that tier's, and no peer of the default tier has one; in
  particular no address is in use on both.\<close>

theorem awg_tiers_apart:
  assumes "awg_reach h s" "aw_v3On s"
  shows "\<exists>n. aw_v3Net s = Some n \<and>
    (\<forall>p \<in> set (wg_peers (aw_v3 s)). net_Contains n (v4_Bytes (wgp_IPv4 p))) \<and>
    (\<forall>p \<in> set (wg_peers (aw_wg s)). \<not> net_Contains n (v4_Bytes (wgp_IPv4 p)))"
  using awg_reach_apart [OF assms(1)] assms(2) by (auto simp: aw_apart_def tier_within_def)

section \<open>A node with both tiers\<close>

definition demo_v3 :: awg_v3 where
  "demo_v3 = (awc_V3 awg_NewConfig)\<lparr>v3_Enabled := True, v3_Interface := ''awg1'', v3_ListenPort := 2,
    v3_PrivateKey := key_String (replicate 32 1), v3_HeaderProtectionKey := key_String (replicate 32 0),
    v3_S1 := 12, v3_S2 := 12, v3_S3 := 12, v3_S4 := 12, v3_H1 := 5, v3_H2 := 6, v3_H3 := 7, v3_H4 := 8,
    v3_ContentPaddingAddition := ''0''\<rparr>"

definition demo_awg :: awg_config where
  "demo_awg = awg_NewConfig\<lparr>awc_Interface := ''awg0'', awc_ListenPort := 1,
    awc_PrivateKey := key_String (replicate 32 0), awc_Uplink := ''eth0'', awc_V3 := demo_v3\<rparr>"

abbreviation demo_nets :: "byte \<Rightarrow> networks" where
  "demo_nets b \<equiv> DeriveNetworks last32 (replicate 32 b)"

lemma demo_nets_apart: "\<not> nw_Overlaps (demo_nets 0) (demo_nets 1)" "\<not> net_overlap (nw_IPv4 (demo_nets 0)) (nw_IPv4 (demo_nets 1))"
  by code_simp+

lemma demo_first: "v4_Next (v4_Next (IPv4 10 12 1 0)) = IPv4 10 12 1 2"
    "v6_Next (v6_Next ([253, 1, 1, 1, 1, 1, 0, 0, 0, 0, 0, 0, 0, 0, 0, 0])) = [253, 1, 1, 1, 1, 1, 0, 0, 0, 0, 0, 0, 0, 0, 0, 2]"
  by (simp_all add: v4_Next_def v6_Next_def bytes_of_big.simps go_copy_def v4_of_list_def)

lemma demo_net1:
  "nw_IPv4 (demo_nets 1) = \<lparr>net_IP = [10, 12, 1, 0], net_Mask = CIDRMask 24 4\<rparr>"
  "nw_IPv6 (demo_nets 1) =
    \<lparr>net_IP = [253, 1, 1, 1, 1, 1, 0, 0, 0, 0, 0, 0, 0, 0, 0, 0], net_Mask = CIDRMask 120 16\<rparr>"
  by code_simp+

lemma demo_within:
  "net_Contains \<lparr>net_IP = [10, 12, 1, 0], net_Mask = CIDRMask 24 4\<rparr> [10, 12, 1, 2]"
  "net_Contains \<lparr>net_IP = [253, 1, 1, 1, 1, 1, 0, 0, 0, 0, 0, 0, 0, 0, 0, 0], net_Mask = CIDRMask 120 16\<rparr>
    [253, 1, 1, 1, 1, 1, 0, 0, 0, 0, 0, 0, 0, 0, 0, 2]"
  by code_simp+

lemma demo_nets_get: "is_ok (fst (IPPool_Get (nw_Pool (demo_nets 1))))"
proof -
  have f: "NewIPv4FromIP [10, 12, 1, 0] = IPv4 10 12 1 0" "NewIPv4FromIP [10, 12, 1, 2] = IPv4 10 12 1 2"
    "NewIPv6FromIP [253, 1, 1, 1, 1, 1, 0, 0, 0, 0, 0, 0, 0, 0, 0, 0] = [253, 1, 1, 1, 1, 1, 0, 0, 0, 0, 0, 0, 0, 0, 0, 0]"
    "NewIPv6FromIP [253, 1, 1, 1, 1, 1, 0, 0, 0, 0, 0, 0, 0, 0, 0, 2] = [253, 1, 1, 1, 1, 1, 0, 0, 0, 0, 0, 0, 0, 0, 0, 2]"
    by (simp_all add: NewIPv4FromIP_def NewIPv6FromIP_def ip_To4_def ip_To16_def go_copy_exact v4_of_list_def v6_zero_def)
  have skip: "v4_skip (IPv4 10 12 1 2) = IPv4 10 12 1 2" by (rule v4_skip_id) (simp add: v4_skipped_def)
  show ?thesis
    by (simp add: nw_Pool_def demo_net1 f demo_first NewIPv4Pool_def NewIPv6Pool_def IPPool_Get_def IPv4Pool_Get_def
        IPv6Pool_Get_def skip demo_within Let_def)
qed

lemma demo_awg_nets: "TunnelNetworks last32 (\<lambda>k. k) demo_awg = Inr (demo_nets 0, Some (demo_nets 1))"
proof -
  have "\<lparr>nw_IPv4 = nw_IPv4 n, nw_IPv6 = nw_IPv6 n\<rparr> = n" for n :: networks by simp
  then show ?thesis
    using demo_nets_apart
    by (simp add: TunnelNetworks_def tierNetworks_def demo_awg_def demo_v3_def awg_NewConfig_def V3Enabled_def
        KeyFromString_key nw_Overlaps_def Let_def)
qed

lemma demo_v3_valid: "v3_Validate ''awg0'' 1 demo_v3 = ok"
  by (simp add: v3_Validate_def demo_v3_def awg_NewConfig_def KeyFromString_key HeaderKeyLength_def
      key_String_def [of "replicate 32 0"] b64_decode_encode validatePaddings_def V3MinPadding_def validateHeaders_def
      ParseRange_def parse_uint_def parse_digits_def digit_val_def)

lemma demo_awg_valid: "awc_Validate last32 (\<lambda>k. k) demo_awg = ok"
proof -
  have "wgc_Validate (awc_WireGuard demo_awg) = ok"
    by (simp add: wgc_Validate_def awc_WireGuard_def demo_awg_def KeyFromString_key)
      (simp add: key_String_def del: b64_encode.simps)
  moreover have "ob_Validate (awc_Obfuscation demo_awg) = ok"
    by (simp add: ob_Validate_def demo_awg_def awg_NewConfig_def validatePaddings_def validateHeaders_def IPackets_def)
  ultimately show ?thesis
    using demo_v3_valid demo_awg_nets
    by (simp add: awc_Validate_def V3Enabled_def) (simp add: demo_awg_def)
qed

lemma tier_Init_quiet:
  assumes "wgc_Validate c = ok" "wgc_Uplink c = ''eth0''"
  shows "fst (tier_Init quiet_host pub home c extra s) = ok"
proof -
  have "is_ok (KeyFromString (wgc_PrivateKey c))"
    using assms(1) by (auto simp: wgc_Validate_def split: if_splits)
  then obtain k where "KeyFromString (wgc_PrivateKey c) = Inr k" by (auto simp: is_ok_iff)
  with assms show ?thesis by (simp add: tier_Init_def wg_Init_def wg_WithConfig_def quiet_host_def)
qed

lemma demo_tiers_valid: "wgc_Validate (awc_WireGuard demo_awg) = ok" "wgc_Validate (awc_WireGuardV3 demo_awg) = ok"
  by (simp_all add: wgc_Validate_def awc_WireGuard_def awc_WireGuardV3_def demo_awg_def demo_v3_def KeyFromString_key)
    (simp_all add: key_String_def del: b64_encode.simps)

lemma demo_awg_Init:
  "\<exists>s. aw_Init quiet_host (\<lambda>_ _. Inr demo_awg) last32 (\<lambda>k. k) ''/home'' (NewAmneziaWG None None ()) = (ok, s) \<and>
    aw_v3On s \<and> wg_pool (aw_v3 s) = nw_Pool (demo_nets 1)"
proof -
  have on: "V3Enabled demo_awg" by (simp add: V3Enabled_def demo_awg_def demo_v3_def)
  have up: "wgc_Uplink (awc_WireGuard demo_awg) = ''eth0''" "wgc_Uplink (awc_WireGuardV3 demo_awg) = ''eth0''"
    by (simp_all add: awc_WireGuard_def awc_WireGuardV3_def demo_awg_def)
  let ?one = "tier_Init quiet_host (\<lambda>k. k) ''/home'' (awc_WireGuard demo_awg) (ob_InterfaceLines (awc_Obfuscation demo_awg))"
  let ?two = "tier_Init quiet_host (\<lambda>k. k) ''/home'' (awc_WireGuardV3 demo_awg)
    (v3_InterfaceLines (awc_Obfuscation demo_awg) (awc_V3 demo_awg))"
  have init: "\<exists>t'. ?one t = (ok, t')" "\<exists>t'. ?two t = (ok, t')" for t :: "unit wireguard"
    using tier_Init_quiet [OF demo_tiers_valid(1) up(1)] tier_Init_quiet [OF demo_tiers_valid(2) up(2)]
    by (metis prod.collapse)+
  obtain s1 where s1: "usePools last32 (\<lambda>k. k) (NewAmneziaWG None None ()\<lparr>aw_conf := demo_awg\<rparr>) = (ok, s1)"
      "aw_conf s1 = demo_awg" "wg_pool (aw_v3 s1) = nw_Pool (demo_nets 1)"
    by (simp add: usePools_def NewAmneziaWG_def aw_v3On_def on demo_awg_nets Let_def wg_WithPool_def)
  obtain t1 where t1: "?one (aw_wg s1) = (ok, t1)" using init(1) by blast
  obtain t2 where t2: "?two ((aw_v3 s1)\<lparr>wg_world := wg_world t1\<rparr>) = (ok, t2)" using init(2) by blast
  have "wg_pool t2 = nw_Pool (demo_nets 1)" using tier_Init_fields [OF t2] s1(3) by simp
  moreover have "missing_tool quiet_host () = ok" by (simp add: missing_tool_def quiet_host_def)
  ultimately show ?thesis
    using s1 t1 t2 demo_awg_valid on
    by (simp add: aw_Init_def NewAmneziaWG_def NewVariant_def on_default_def on_v3_def aw_v3On_def Let_def)
qed

definition demo_request :: json where
  "demo_request = JObj [(''public_key'', JStr (key_String (replicate 32 7))), (''awg_version'', JNum 3)]"

lemma demo_request_reads:
  "wg_ParsePeerRequest ''amneziawg'' (Some demo_request) = Inr (replicate 32 7)"
  "awg_version (Some demo_request) = Inr Version3"
proof -
  have lower: "to_lower ''public_key'' = ''public_key''" "to_lower ''awg_version'' = ''awg_version''"
    by code_simp+
  have vals: "field_values ''public_key'' [(''public_key'', v), (''awg_version'', w)] = [v]"
    "field_values ''awg_version'' [(''public_key'', v), (''awg_version'', w)] = [w]" for v w
    unfolding field_values_def by (simp_all add: lower)
  show "wg_ParsePeerRequest ''amneziawg'' (Some demo_request) = Inr (replicate 32 7)"
    "awg_version (Some demo_request) = Inr Version3"
    by (simp_all add: wg_ParsePeerRequest_def awg_version_def demo_request_def ptr_field_def vals KeyFromString_key
        Version3_def in_i64_def Let_def)
qed

text \<open>A client that asks for version 3 on this node.\<close>

lemma demo_awg_run:
  "\<exists>s s1 r s3. awg_reach (quiet_host :: unit host) s \<and> aw_ParsePeerRequest (Some demo_request) s = (Inr (replicate 32 7), s1) \<and>
    aw_AddPeer quiet_host (replicate 32 7) s1 = (Inr r, s3) \<and> aw_v3On s3"
proof -
  let ?k = "replicate 32 7"
  obtain s :: "unit amneziawg" where s: "awg_reach quiet_host s" "aw_v3On s" "wg_pool (aw_v3 s) = nw_Pool (demo_nets 1)"
  proof -
    obtain s :: "unit amneziawg" where i: "aw_Init quiet_host (\<lambda>_ _. Inr demo_awg) last32 (\<lambda>k. k) ''/home''
        (NewAmneziaWG None None ()) = (ok, s)" and s: "aw_v3On s" "wg_pool (aw_v3 s) = nw_Pool (demo_nets 1)"
      using demo_awg_Init by (elim exE conjE)
    show thesis by (rule that [OF rc_init [OF i] s])
  qed
  define s1 where "s1 = s\<lparr>aw_asked := (aw_asked s)(session_key ?k \<mapsto> Version3)\<rparr>"
  have req: "aw_ParsePeerRequest (Some demo_request) s = (Inr ?k, s1)"
    using s(2) by (simp add: aw_ParsePeerRequest_def demo_request_reads asked_set_def s1_def)
  obtain r s3 where add: "aw_AddPeer quiet_host ?k s1 = (r, s3)" by (meson surj_pair)
  have "aw_v3On s1" "aw_asked s1 (session_key ?k) = Some Version3" "aw_v3 s1 = aw_v3 s"
    using s(2) by (simp_all add: s1_def aw_v3On_def)
  with add have "is_ok r \<and> aw_v3On s3"
    using s(3) demo_nets_get
    by (cases rule: aw_AddPeerE [OF add])
      (auto simp: wg_AddPeer_def Let_def run_cmd_def quiet_host_def aw_v3On_def split: prod.splits sum.splits)
  then obtain b where "r = Inr b" "aw_v3On s3" by (cases r) auto
  with s(1) req add show ?thesis
    by (intro exI [of _ s] exI [of _ s1] exI [of _ b] exI [of _ s3] conjI) simp_all
qed

theorem awg_tier_follows_request_witness:
  "\<exists>s r (s3 :: unit amneziawg) as e. awg_reach (quiet_host :: unit host) s \<and>
    aw_HandshakePayload r s3 = Inr (AwgDataV3 ((ip_String (take 4 r) @ ''/32'') # as) e) \<and>
    session_key (replicate 32 7) \<in> wg_keys (aw_v3 s3)"
proof -
  obtain s s1 r s3 where run: "awg_reach (quiet_host :: unit host) s"
      "aw_ParsePeerRequest (Some demo_request) s = (Inr (replicate 32 7), s1)"
      "aw_AddPeer quiet_host (replicate 32 7) s1 = (Inr r, s3)"
    using demo_awg_run by (elim exE conjE)
  from awg_tier_follows_request [OF run(1,2) ot_none run(3), unfolded demo_request_reads if_P [OF refl]]
  obtain as e where "aw_HandshakePayload r s3 = Inr (AwgDataV3 ((ip_String (take 4 r) @ ''/32'') # as) e)"
    "session_key (replicate 32 7) \<in> wg_keys (aw_v3 s3)" by (elim exE conjE)
  with run(1) show ?thesis
    by - (rule exI [of _ s], rule exI [of _ r], rule exI [of _ s3], rule exI [of _ as], rule exI [of _ e], intro conjI)
qed

theorem awg_tiers_apart_witness:
  "\<exists>(s :: unit amneziawg) n p. p \<in> set (wg_peers (aw_v3 s)) \<and> aw_v3Net s = Some n \<and> net_Contains n (v4_Bytes (wgp_IPv4 p))"
proof -
  obtain s s1 r s3 where run: "awg_reach (quiet_host :: unit host) s"
      "aw_ParsePeerRequest (Some demo_request) s = (Inr (replicate 32 7), s1)"
      "aw_AddPeer quiet_host (replicate 32 7) s1 = (Inr r, s3)" "aw_v3On s3"
    using demo_awg_run by (elim exE conjE)
  have "awg_reach quiet_host s3"
    using rc_step [OF rc_step [OF run(1) st_request [OF run(2)]] st_add [OF run(3)]] .
  note apart = awg_tiers_apart [OF this run(4)]
  have "wg_keys (aw_v3 s3) \<noteq> {}"
    using run(3)
  proof (cases rule: aw_AddPeerE)
    case (default t)
    then show ?thesis
      using aw_ParsePeerRequest_Inr [OF run(2)] run(4) by (auto simp: demo_request_reads aw_v3On_def)
  next
    case (v3 t)
    with wg_AddPeer_peers [OF v3(1)] show ?thesis by (auto simp: wg_keys_def wgp_Put_def split: if_splits)
  qed
  then obtain p where p: "p \<in> set (wg_peers (aw_v3 s3))" by (metis equals0I imageE wg_keys_def)
  from apart obtain n where "aw_v3Net s3 = Some n" "\<forall>p \<in> set (wg_peers (aw_v3 s3)). net_Contains n (v4_Bytes (wgp_IPv4 p))"
    by (elim exE conjE)
  with p show ?thesis
    by - (rule exI [of _ s3], rule exI [of _ n], rule exI [of _ p], simp)
qed

end
