(* ===== verification/Registry.thy ===== *)
theory Registry
  imports Interleaving Config Hysteria XRay V2Ray OpenVPN AmneziaWG
begin

text \<open>
  The registry of protocols, \<^verbatim>\<open>services/registry.go\<close>, and the service a node runs: a value of the
  interface \<^verbatim>\<open>types.Service\<close> is one of the six services, and a call of a method goes to the one it
  is. The services' own theories show that each keeps the contract the node relies on; here it is shown
  of the service behind the interface, whichever it is.
\<close>

section \<open>A service behind the interface\<close>

datatype 'o node_service =
    WireGuardService "'o wireguard"
  | V2RayService "'o v2ray"
  | XRayService "'o xray"
  | HysteriaService "'o hysteria"
  | AmneziaWGService "'o amneziawg"
  | OpenVPNService "'o openvpn"

text \<open>What the services are given: the host, its processes and networks, the cryptographic functions, the
  readers of their configuration files and the attempts the management connection's deadline leaves.\<close>

record 'o machine =
  mc_host :: "'o host"
  mc_processes :: "'o process_ops"
  mc_pki :: pki
  mc_pub :: "bytes \<Rightarrow> bytes"
  mc_sha :: "bytes \<Rightarrow> bytes"
  mc_x25519 :: "bytes \<Rightarrow> bytes result"
  mc_secret :: "bytes result"
  mc_verbose :: bool
  mc_tries :: nat
  mc_hysteria :: "'o hy_net"
  mc_wire :: protowire
  mc_xray :: "'o xr_api"
  mc_v2ray :: "'o v2_api"
  mc_ca :: "'o ca_ops"
  mc_openvpn :: "'o ov_net"
  mc_wg_file :: "string \<Rightarrow> 'o \<Rightarrow> wg_config result"
  mc_v2_file :: "string \<Rightarrow> 'o \<Rightarrow> v2_config result"
  mc_xr_file :: "string \<Rightarrow> 'o \<Rightarrow> xr_config result"
  mc_hy_file :: "string \<Rightarrow> 'o \<Rightarrow> hy_config result"
  mc_aw_file :: "string \<Rightarrow> 'o \<Rightarrow> awg_config result"
  mc_ov_file :: "string \<Rightarrow> 'o \<Rightarrow> ov_config result"

text \<open>An operation of one of the services, as an operation of the service behind the interface.\<close>

definition via :: "('s \<Rightarrow> 'o node_service) \<Rightarrow> 'a \<times> 's \<Rightarrow> 'a \<times> 'o node_service" where
  "via c r = (fst r, c (snd r))"

fun ns_Init ::
  "'o machine \<Rightarrow> runtime \<Rightarrow> egress_policy \<Rightarrow> string \<Rightarrow> 'o node_service \<Rightarrow> unit result \<times> 'o node_service"
where
  "ns_Init m rt pol home (WireGuardService s) =
    via WireGuardService (wg_Init (mc_host m) (mc_wg_file m) (mc_pub m) home s)"
| "ns_Init m rt pol home (V2RayService s) =
    via V2RayService (v2_Init (mc_host m) (mc_pki m) (mc_v2_file m) rt pol home s)"
| "ns_Init m rt pol home (XRayService s) =
    via XRayService (xr_Init (mc_host m) (mc_pki m) (mc_x25519 m) (mc_xr_file m) rt pol (mc_verbose m) home s)"
| "ns_Init m rt pol home (HysteriaService s) =
    via HysteriaService (hy_Init (mc_host m) (mc_pki m) (mc_hy_file m) rt pol (mc_secret m) home s)"
| "ns_Init m rt pol home (AmneziaWGService s) =
    via AmneziaWGService (aw_Init (mc_host m) (mc_aw_file m) (mc_sha m) (mc_pub m) home s)"
| "ns_Init m rt pol home (OpenVPNService s) =
    via OpenVPNService (ov_Init (mc_host m) (mc_pki m) (mc_ca m) (mc_ov_file m) rt (mc_verbose m) home s)"

fun ns_Start :: "'o machine \<Rightarrow> runtime \<Rightarrow> egress_policy \<Rightarrow> 'o node_service \<Rightarrow> unit result \<times> 'o node_service" where
  "ns_Start m rt pol (WireGuardService s) = via WireGuardService (wg_Start (mc_host m) pol s)"
| "ns_Start m rt pol (V2RayService s) = via V2RayService (v2_Start (mc_host m) pol rt s)"
| "ns_Start m rt pol (XRayService s) = via XRayService (xr_Start (mc_host m) pol rt s)"
| "ns_Start m rt pol (HysteriaService s) =
    via HysteriaService (hy_Start (mc_host m) (mc_hysteria m) pol rt (mc_verbose m) s)"
| "ns_Start m rt pol (AmneziaWGService s) = via AmneziaWGService (aw_Start (mc_host m) pol s)"
| "ns_Start m rt pol (OpenVPNService s) =
    via OpenVPNService (ov_Start (mc_host m) (mc_processes m) (mc_openvpn m) (mc_tries m) pol s)"

fun ns_Stop :: "'o machine \<Rightarrow> 'o node_service \<Rightarrow> unit result \<times> 'o node_service" where
  "ns_Stop m (WireGuardService s) = via WireGuardService (wg_Stop (mc_host m) s)"
| "ns_Stop m (V2RayService s) = via V2RayService (v2_Stop (mc_host m) (mc_processes m) (mc_v2ray m) s)"
| "ns_Stop m (XRayService s) = via XRayService (xr_Stop (mc_host m) (mc_processes m) (mc_xray m) s)"
| "ns_Stop m (HysteriaService s) = via HysteriaService (hy_Stop (mc_host m) (mc_processes m) (mc_hysteria m) s)"
| "ns_Stop m (AmneziaWGService s) = via AmneziaWGService (aw_Stop (mc_host m) s)"
| "ns_Stop m (OpenVPNService s) = via OpenVPNService (ov_Stop (mc_host m) (mc_processes m) (mc_openvpn m) s)"

text \<open>Only the tunnel services have an address of their own for the resolver.\<close>

fun ns_TunnelIPv4 :: "'o node_service \<Rightarrow> bytes option" where
  "ns_TunnelIPv4 (WireGuardService s) = Some (TunnelIPv4 s)"
| "ns_TunnelIPv4 (AmneziaWGService s) = Some (TunnelIPv4 (aw_wg s))"
| "ns_TunnelIPv4 (OpenVPNService s) = Some ov_TunnelIPv4"
| "ns_TunnelIPv4 _ = None"

fun ns_AddPeer :: "'o machine \<Rightarrow> bytes \<Rightarrow> 'o node_service \<Rightarrow> bytes result \<times> 'o node_service" where
  "ns_AddPeer m d (WireGuardService s) = via WireGuardService (wg_AddPeer (mc_host m) d s)"
| "ns_AddPeer m d (V2RayService s) = via V2RayService (v2_AddPeer (mc_v2ray m) d s)"
| "ns_AddPeer m d (XRayService s) = via XRayService (xr_AddPeer (mc_wire m) (mc_xray m) d s)"
| "ns_AddPeer m d (HysteriaService s) = via HysteriaService (hy_AddPeer d s)"
| "ns_AddPeer m d (AmneziaWGService s) = via AmneziaWGService (aw_AddPeer (mc_host m) d s)"
| "ns_AddPeer m d (OpenVPNService s) = via OpenVPNService (ov_AddPeer (mc_ca m) d s)"

fun ns_HasPeer :: "bytes \<Rightarrow> 'o node_service \<Rightarrow> bool" where
  "ns_HasPeer d (WireGuardService s) = wg_HasPeer d s"
| "ns_HasPeer d (V2RayService s) = v2_HasPeer d s"
| "ns_HasPeer d (XRayService s) = xr_HasPeer d s"
| "ns_HasPeer d (HysteriaService s) = hy_HasPeer d s"
| "ns_HasPeer d (AmneziaWGService s) = aw_HasPeer d s"
| "ns_HasPeer d (OpenVPNService s) = ov_HasPeer d s"

fun ns_RemovePeer :: "'o machine \<Rightarrow> bytes \<Rightarrow> 'o node_service \<Rightarrow> unit result \<times> 'o node_service" where
  "ns_RemovePeer m d (WireGuardService s) = via WireGuardService (wg_RemovePeer (mc_host m) d s)"
| "ns_RemovePeer m d (V2RayService s) = via V2RayService (v2_RemovePeer (mc_v2ray m) d s)"
| "ns_RemovePeer m d (XRayService s) = via XRayService (xr_RemovePeer (mc_wire m) (mc_xray m) d s)"
| "ns_RemovePeer m d (HysteriaService s) = via HysteriaService (hy_RemovePeer (mc_hysteria m) d s)"
| "ns_RemovePeer m d (AmneziaWGService s) = via AmneziaWGService (aw_RemovePeer (mc_host m) d s)"
| "ns_RemovePeer m d (OpenVPNService s) = via OpenVPNService (ov_RemovePeer (mc_openvpn m) d s)"

fun ns_Peers :: "'o machine \<Rightarrow> 'o node_service \<Rightarrow> peer list result \<times> 'o node_service" where
  "ns_Peers m (WireGuardService s) = via WireGuardService (wg_Peers (mc_host m) s)"
| "ns_Peers m (V2RayService s) = via V2RayService (v2_Peers (mc_v2ray m) s)"
| "ns_Peers m (XRayService s) = via XRayService (xr_Peers (mc_wire m) (mc_xray m) s)"
| "ns_Peers m (HysteriaService s) = via HysteriaService (hy_Peers (mc_hysteria m) s)"
| "ns_Peers m (AmneziaWGService s) = via AmneziaWGService (aw_Peers (mc_host m) s)"
| "ns_Peers m (OpenVPNService s) = via OpenVPNService (ov_Peers (mc_openvpn m) s)"

fun ns_PeerCount :: "'o node_service \<Rightarrow> nat" where
  "ns_PeerCount (WireGuardService s) = wg_PeerCount s"
| "ns_PeerCount (V2RayService s) = v2_PeerCount s"
| "ns_PeerCount (XRayService s) = xr_PeerCount s"
| "ns_PeerCount (HysteriaService s) = hy_PeerCount s"
| "ns_PeerCount (AmneziaWGService s) = aw_PeerCount s"
| "ns_PeerCount (OpenVPNService s) = ov_PeerCount s"

definition ns_service :: "'o machine \<Rightarrow> 'o node_service service" where
  "ns_service m = \<lparr>svc_AddPeer = ns_AddPeer m, svc_HasPeer = ns_HasPeer, svc_RemovePeer = ns_RemovePeer m,
    svc_Peers = ns_Peers m, svc_PeerCount = ns_PeerCount\<rparr>"

text \<open>The part of the world the service works in, for what else happens on the same host.\<close>

fun ns_world :: "'o node_service \<Rightarrow> 'o" where
  "ns_world (WireGuardService s) = wg_world s"
| "ns_world (V2RayService s) = v2_world s"
| "ns_world (XRayService s) = xr_world s"
| "ns_world (HysteriaService s) = hy_world s"
| "ns_world (AmneziaWGService s) = wg_world (aw_wg s)"
| "ns_world (OpenVPNService s) = ov_world s"

fun ns_set_world :: "'o \<Rightarrow> 'o node_service \<Rightarrow> 'o node_service" where
  "ns_set_world w (WireGuardService s) = WireGuardService (s\<lparr>wg_world := w\<rparr>)"
| "ns_set_world w (V2RayService s) = V2RayService (s\<lparr>v2_world := w\<rparr>)"
| "ns_set_world w (XRayService s) = XRayService (s\<lparr>xr_world := w\<rparr>)"
| "ns_set_world w (HysteriaService s) = HysteriaService (s\<lparr>hy_world := w\<rparr>)"
| "ns_set_world w (AmneziaWGService s) = AmneziaWGService (s\<lparr>aw_wg := (aw_wg s)\<lparr>wg_world := w\<rparr>\<rparr>)"
| "ns_set_world w (OpenVPNService s) = OpenVPNService (s\<lparr>ov_world := w\<rparr>)"

section \<open>The registry\<close>

record 'o protocol =
  pc_Name :: string
  pc_Type :: "64 word"
  pc_New :: "'o \<Rightarrow> 'o node_service result"
  pc_HandshakeDNS :: bool
  pc_Daemon :: bool

definition registry :: "'o protocol list" where
  "registry =
    [\<lparr>pc_Name = ''wireguard'', pc_Type = 1, pc_New = (\<lambda>w. rbind (wg_NewService w) (\<lambda>s. Inr (WireGuardService s))),
      pc_HandshakeDNS = True, pc_Daemon = False\<rparr>,
     \<lparr>pc_Name = ''v2ray'', pc_Type = 2, pc_New = (\<lambda>w. Inr (V2RayService (NewV2Ray w))),
      pc_HandshakeDNS = False, pc_Daemon = True\<rparr>,
     \<lparr>pc_Name = ''xray'', pc_Type = 4, pc_New = (\<lambda>w. Inr (XRayService (NewXRay w))),
      pc_HandshakeDNS = False, pc_Daemon = True\<rparr>,
     \<lparr>pc_Name = ''hysteria2'', pc_Type = 6, pc_New = (\<lambda>w. Inr (HysteriaService (NewHysteria w))),
      pc_HandshakeDNS = False, pc_Daemon = True\<rparr>,
     \<lparr>pc_Name = ''amneziawg'', pc_Type = 5, pc_New = (\<lambda>w. Inr (AmneziaWGService (NewAmneziaWG None None w))),
      pc_HandshakeDNS = True, pc_Daemon = False\<rparr>,
     \<lparr>pc_Name = ''openvpn'', pc_Type = 3, pc_New = (\<lambda>w. Inr (OpenVPNService (NewOpenVPN w))),
      pc_HandshakeDNS = True, pc_Daemon = True\<rparr>]"

definition Names :: "string list" where
  "Names = map pc_Name (registry :: unit protocol list)"

definition Lookup :: "string \<Rightarrow> 'o protocol result" where
  "Lookup name =
    (case find (\<lambda>p. pc_Name p = name) registry of
       Some p \<Rightarrow> Inr p
     | None \<Rightarrow> Inl (''unknown node type '' @ name @ ''; one of: '' @ join '', '' Names))"

text \<open>What the package's \<^verbatim>\<open>init\<close> registers with the configuration's validation.\<close>

definition registered :: node_types where
  "registered = for_each (\<lambda>p. RegisterNodeType (pc_Name p) (pc_HandshakeDNS p)) (registry :: unit protocol list) []"

section \<open>The contract holds of every service\<close>

definition ns_keys :: "'o node_service \<Rightarrow> string set" where
  "ns_keys s =
    (case s of
       WireGuardService s \<Rightarrow> wg_keys s
     | V2RayService s \<Rightarrow> v2_keys s
     | XRayService s \<Rightarrow> set (xr_peers s)
     | HysteriaService s \<Rightarrow> set (hy_peers s)
     | AmneziaWGService s \<Rightarrow> aw_keys s
     | OpenVPNService s \<Rightarrow> set (ov_peers s))"

text \<open>An AmneziaWG node does not take a peer twice, so there \<open>readd\<close> is false.\<close>

definition ns_inv :: "bool \<Rightarrow> 'o node_service \<Rightarrow> bool" where
  "ns_inv readd s =
    (case s of
       WireGuardService s \<Rightarrow> wg_inv s
     | V2RayService s \<Rightarrow> v2_inv s
     | XRayService s \<Rightarrow> distinct (xr_peers s)
     | HysteriaService s \<Rightarrow> distinct (hy_peers s)
     | AmneziaWGService s \<Rightarrow> aw_inv s \<and> \<not> readd
     | OpenVPNService s \<Rightarrow> distinct (ov_peers s))"

lemma via_eq [simp]: "via c x = (r, s') \<longleftrightarrow> (\<exists>t. x = (r, t) \<and> s' = c t)"
  by (cases x) (auto simp: via_def)

text \<open>The laws of the services, read on their operations.\<close>

lemmas finite_keys_all = wg.finite_keys v2.finite_keys aw.finite_keys

lemmas PeerCount_all =
  wg.PeerCount_law [unfolded wg_service_def, simplified] v2.PeerCount_law [unfolded v2_service_def, simplified]
  xr.PeerCount_law [unfolded xr_service_def, simplified] hy.PeerCount_law [unfolded hy_service_def, simplified]
  aw.PeerCount_law [unfolded aw_service_def, simplified] ov.PeerCount_law [unfolded ov_service_def, simplified]

lemmas HasPeer_all =
  wg.HasPeer_law [unfolded wg_service_def, simplified] v2.HasPeer_law [unfolded v2_service_def, simplified]
  xr.HasPeer_law [unfolded xr_service_def, simplified] hy.HasPeer_law [unfolded hy_service_def, simplified]
  aw.HasPeer_law [unfolded aw_service_def, simplified] ov.HasPeer_law [unfolded ov_service_def, simplified]

lemmas AddPeer_Inr_all =
  wg.AddPeer_Inr [unfolded wg_service_def, simplified] v2.AddPeer_Inr [unfolded v2_service_def, simplified]
  xr.AddPeer_Inr [unfolded xr_service_def, simplified] hy.AddPeer_Inr [unfolded hy_service_def, simplified]
  aw.AddPeer_Inr [unfolded aw_service_def, simplified] ov.AddPeer_Inr [unfolded ov_service_def, simplified]

lemmas AddPeer_Inl_all =
  wg.AddPeer_Inl [unfolded wg_service_def, simplified] v2.AddPeer_Inl [unfolded v2_service_def, simplified]
  xr.AddPeer_Inl [unfolded xr_service_def, simplified] hy.AddPeer_Inl [unfolded hy_service_def, simplified]
  aw.AddPeer_Inl [unfolded aw_service_def, simplified] ov.AddPeer_Inl [unfolded ov_service_def, simplified]

lemmas RemovePeer_Inr_all =
  wg.RemovePeer_Inr [unfolded wg_service_def, simplified] v2.RemovePeer_Inr [unfolded v2_service_def, simplified]
  xr.RemovePeer_Inr [unfolded xr_service_def, simplified] hy.RemovePeer_Inr [unfolded hy_service_def, simplified]
  aw.RemovePeer_Inr [unfolded aw_service_def, simplified] ov.RemovePeer_Inr [unfolded ov_service_def, simplified]

lemmas RemovePeer_all =
  wg.RemovePeer_law [unfolded wg_service_def, simplified] v2.RemovePeer_law [unfolded v2_service_def, simplified]
  xr.RemovePeer_law [unfolded xr_service_def, simplified] hy.RemovePeer_law [unfolded hy_service_def, simplified]
  aw.RemovePeer_law [unfolded aw_service_def, simplified] ov.RemovePeer_law [unfolded ov_service_def, simplified]

lemmas Peers_all =
  wg.Peers_law [unfolded wg_service_def, simplified] v2.Peers_law [unfolded v2_service_def, simplified]
  xr.Peers_law [unfolded xr_service_def, simplified] hy.Peers_law [unfolded hy_service_def, simplified]
  aw.Peers_law [unfolded aw_service_def, simplified] ov.Peers_law [unfolded ov_service_def, simplified]

lemmas ns_defs = ns_service_def ns_inv_def ns_keys_def

interpretation nd: vpn_service "ns_service m" ns_keys "ns_inv readd" readd
  for m readd
proof unfold_locales
  fix s s' :: "'a node_service" and d r b e r'
  assume s: "ns_inv readd s"
  show "finite (ns_keys s)" using s by (cases s) (auto simp: ns_defs finite_keys_all)
  show "svc_PeerCount (ns_service m) s = card (ns_keys s)" using s by (cases s) (auto simp: ns_defs PeerCount_all)
  show "svc_HasPeer (ns_service m) d s = (session_key d \<in> ns_keys s)" if "d \<noteq> []"
    using s that by (cases s) (auto simp: ns_defs HasPeer_all)
  show "ns_inv readd s' \<and> ns_keys s' = insert (session_key d) (ns_keys s)"
    if "readd \<or> session_key d \<notin> ns_keys s" "svc_AddPeer (ns_service m) d s = (Inr b, s')"
    using s that by (cases s) (auto simp: ns_defs dest: AddPeer_Inr_all)
  show "ns_inv readd s' \<and> ns_keys s' = ns_keys s"
    if "readd \<or> session_key d \<notin> ns_keys s" "svc_AddPeer (ns_service m) d s = (Inl e, s')"
    using s that by (cases s) (auto simp: ns_defs dest: AddPeer_Inl_all)
  show "ns_keys s' = ns_keys s - {session_key d}" if "d \<noteq> []" "svc_RemovePeer (ns_service m) d s = (ok, s')"
    using s that by (cases s) (auto simp: ns_defs dest: RemovePeer_Inr_all)
  show "ns_inv readd s' \<and> ns_keys s - {session_key d} \<subseteq> ns_keys s' \<and> ns_keys s' \<subseteq> ns_keys s"
    if "svc_RemovePeer (ns_service m) d s = (r, s')"
    using s that by (cases s) (simp_all add: ns_defs, (elim exE conjE, simp, blast dest: RemovePeer_all)+)
  show "ns_inv readd s' \<and> ns_keys s' = ns_keys s" if "svc_Peers (ns_service m) s = (r', s')"
    using s that by (cases s) (auto simp: ns_defs dest: Peers_all)
qed

section \<open>A service that starts has no peers\<close>

fun is_awg :: "'o node_service \<Rightarrow> bool" where
  "is_awg (AmneziaWGService s) = True"
| "is_awg _ = False"

fun ns_empty :: "'o node_service \<Rightarrow> bool" where
  "ns_empty (WireGuardService s) \<longleftrightarrow> wg_inv s \<and> wg_peers s = []"
| "ns_empty (V2RayService s) \<longleftrightarrow> v2_peers s = []"
| "ns_empty (XRayService s) \<longleftrightarrow> xr_peers s = []"
| "ns_empty (HysteriaService s) \<longleftrightarrow> hy_peers s = []"
| "ns_empty (AmneziaWGService s) \<longleftrightarrow> wg_peers (aw_wg s) = [] \<and> wg_peers (aw_v3 s) = []"
| "ns_empty (OpenVPNService s) \<longleftrightarrow> ov_peers s = []"

lemma ns_empty_inv: "ns_empty s \<Longrightarrow> ns_inv (\<not> is_awg s) s \<and> ns_keys s = {}"
  by (cases s) (auto simp: ns_inv_def ns_keys_def v2_inv_def v2_keys_def aw_inv_def aw_keys_def wg_ids_def wg_keys_def)

lemma Lookup_Inr: "Lookup name = Inr p \<Longrightarrow> p \<in> set registry \<and> pc_Name p = name"
  unfolding Lookup_def by (auto simp: find_Some_iff split: option.splits)

lemma pc_New_empty:
  assumes "p \<in> set registry" "pc_New p w = Inr s"
  shows "ns_empty s"
proof -
  have "wg_inv t \<and> wg_peers t = []" if "wg_NewService w = Inr t" for t :: "'a wireguard"
    using wg_NewService_inv [OF that] by (auto simp: wg_inv_def)
  then show ?thesis
    using assms by (auto simp: registry_def rbind_eq_Inr_iff NewV2Ray_def NewXRay_def NewHysteria_def NewOpenVPN_def
        NewAmneziaWG_def NewVariant_def)
qed

lemma ns_empty_world [simp]: "ns_empty (ns_set_world w s) = ns_empty s"
  by (cases s) (auto simp: wg_inv_def)

lemma xr_Init_peers: "xr_peers (snd (xr_Init h pk x rd rt pol v home s)) = xr_peers s"
  unfolding xr_Init_def xr_tls_def Let_def by (auto split: sum.splits prod.splits if_splits)

lemma v2_Init_peers: "v2_peers (snd (v2_Init h pk rd rt pol home s)) = v2_peers s"
  unfolding v2_Init_def v2_tls_def Let_def by (auto split: sum.splits prod.splits if_splits)

lemma wg_Init_keeps: "wg_inv s \<Longrightarrow> wg_Init h rd pub home s = (r, s') \<Longrightarrow> wg_inv s'"
  using wg_Init_fields [of h rd pub home s r s'] by (auto simp: wg_inv_def wg_inv_at_def)

lemma usePools_peers:
  "usePools sha pub s = (r, s') \<Longrightarrow>
    wg_peers (aw_wg s') = wg_peers (aw_wg s) \<and> wg_peers (aw_v3 s') = wg_peers (aw_v3 s)"
  by (auto simp: usePools_def wg_WithPool_def Let_def split: option.splits sum.splits if_splits)

lemma on_default_peers:
  assumes "on_default f s = (r, s')" "\<And>t r t'. f t = (r, t') \<Longrightarrow> wg_peers t' = wg_peers t"
  shows "wg_peers (aw_wg s') = wg_peers (aw_wg s) \<and> wg_peers (aw_v3 s') = wg_peers (aw_v3 s)"
  using assms by (auto elim!: on_defaultE)

lemma on_v3_peers:
  assumes "on_v3 f s = (r, s')" "\<And>t r t'. f t = (r, t') \<Longrightarrow> wg_peers t' = wg_peers t"
  shows "wg_peers (aw_wg s') = wg_peers (aw_wg s) \<and> wg_peers (aw_v3 s') = wg_peers (aw_v3 s)"
proof -
  obtain r' t where t: "f ((aw_v3 s)\<lparr>wg_world := wg_world (aw_wg s)\<rparr>) = (r', t)" by fastforce
  then show ?thesis using assms(1) assms(2) [OF t] by (auto simp: on_v3_def)
qed

lemma aw_Init_peers:
  assumes "aw_Init h rd sha pub home s = (r, s')"
  shows "wg_peers (aw_wg s') = wg_peers (aw_wg s) \<and> wg_peers (aw_v3 s') = wg_peers (aw_v3 s)"
proof -
  have tier: "tier_Init h pub home c x t = (r1, t') \<Longrightarrow> wg_peers t' = wg_peers t" for c x t r1 t'
    using tier_Init_fields by blast
  show ?thesis
    using assms
    by (auto simp: aw_Init_def Let_def split: sum.splits prod.splits if_splits
        dest!: usePools_peers on_default_peers [OF _ tier] on_v3_peers [OF _ tier])
qed

lemma ns_Init_empty: "ns_empty s \<Longrightarrow> ns_Init m rt pol home s = (r, s') \<Longrightarrow> ns_empty s' \<and> is_awg s' = is_awg s"
proof (cases s)
  case (WireGuardService t)
  assume "ns_empty s" "ns_Init m rt pol home s = (r, s')"
  then obtain t' where "wg_Init (mc_host m) (mc_wg_file m) (mc_pub m) home t = (r, t')" "s' = WireGuardService t'"
      "wg_inv t" "wg_peers t = []"
    using WireGuardService by auto
  then show ?thesis using WireGuardService wg_Init_keeps wg_Init_fields by fastforce
next
  case (AmneziaWGService t)
  assume "ns_empty s" "ns_Init m rt pol home s = (r, s')"
  then show ?thesis using AmneziaWGService by (auto dest!: aw_Init_peers)
qed (auto simp: via_def xr_Init_peers v2_Init_peers hy_Init_fields ov_Init_fields)

lemma ns_Start_empty: "ns_empty s \<Longrightarrow> ns_Start m rt pol s = (r, s') \<Longrightarrow> ns_empty s' \<and> is_awg s' = is_awg s"
proof (cases s)
  case (WireGuardService t)
  assume "ns_empty s" "ns_Start m rt pol s = (r, s')"
  then show ?thesis using WireGuardService by (auto simp: via_def wg_Start_def wg_inv_def split: prod.splits)
next
  case (AmneziaWGService t)
  assume "ns_empty s" "ns_Start m rt pol s = (r, s')"
  then show ?thesis using AmneziaWGService aw_Start_quiet [of "mc_host m" pol t r]
    by (auto simp: aw_quiet_def)
qed (auto simp: ov_Start_fields v2_Start_def xr_Start_def hy_Start_def Let_def via_def split: sum.splits prod.splits)

end
