(* ===== verification/Lite.thy ===== *)
theory Lite
  imports Jobs Config
begin

text \<open>
  The chain client, package \<^verbatim>\<open>lite\<close>, and what the node sends through it, \<^verbatim>\<open>context/tx.go\<close> and
  \<^verbatim>\<open>Node.Initialize\<close>. The Cosmos SDK, the gRPC clients, the RPC transport and the retry helper are not
  part of the program: they are the record \<open>sdk\<close>, whose functions thread the world of the chain. A call
  that goes to a remote names it. A call that may loop or panic has the value \<^const>\<open>None\<close> when it does
  not return.
\<close>

section \<open>Answers and messages\<close>

record grpc_error =
  ge_Code :: nat
  ge_Msg :: gerror

text \<open>\<^verbatim>\<open>types.QueryError\<close>: the chain's "not found", code 5, is no error.\<close>

definition QueryError :: "grpc_error \<Rightarrow> unit result" where
  "QueryError v = (if ge_Code v = 5 then ok else Inl (ge_Msg v))"

type_synonym address = bytes
type_synonym any = bytes

record account =
  acc_AccountNumber :: "64 word"
  acc_Sequence :: "64 word"

datatype msg =
    MsgRegisterNode address string string "string list"
  | MsgUpdateNodeDetails address string string "string list"
  | MsgUpdateNodeStatus address status
  | MsgUpdateSession msg_update_session
  | MsgExec address "msg list"

record tx_response =
  txr_Code :: nat
  txr_TxHash :: string
  txr_RawLog :: string

text \<open>A fee allowance as the type switch sees it: the spend limit, what \<^verbatim>\<open>ExpiresAt\<close> answers, and for the
  allowance limited to messages the one inside it, which may not be readable.\<close>

type_synonym coins = "(string \<times> int) list"

datatype fee_allowance =
    BasicAllowance "coins option" "int option result"
  | PeriodicAllowance "coins option" "int option result"
  | AllowedMsgAllowance "string list" "fee_allowance result" "int option result"
  | OtherAllowance "int option result"

fun ExpiresAt :: "fee_allowance \<Rightarrow> int option result" where
  "ExpiresAt (BasicAllowance l x) = x"
| "ExpiresAt (PeriodicAllowance l x) = x"
| "ExpiresAt (AllowedMsgAllowance ms i x) = x"
| "ExpiresAt (OtherAllowance x) = x"

section \<open>The client\<close>

datatype sign_mode = SIGN_MODE_UNSPECIFIED | SIGN_MODE_DIRECT | SIGN_MODE_LEGACY_AMINO_JSON

record tx_factory =
  tf_AccountNumber :: "64 word"
  tf_Sequence :: "64 word"
  tf_FeeGranter :: "address option"
  tf_Gas :: "64 word"
  tf_GasAdjustment :: f64
  tf_GasPrices :: string
  tf_ChainID :: string
  tf_FromName :: string
  tf_SignMode :: sign_mode
  tf_SimulateAndExecute :: bool

record client_context =
  cx_FromAddress :: address
  cx_FromName :: string
  cx_ChainID :: string
  cx_FeeGranter :: "address option"
  cx_SignModeStr :: string

record lite_client =
  lc_ctx :: client_context
  lc_granter :: "address option"
  lc_queryTimeout :: "64 word"
  lc_remotes :: "string list"
  lc_txf :: tx_factory
  lc_txTimeout :: "64 word"

definition NewClient :: lite_client where
  "NewClient =
    \<lparr>lc_ctx = \<lparr>cx_FromAddress = [], cx_FromName = [], cx_ChainID = [], cx_FeeGranter = None, cx_SignModeStr = []\<rparr>,
     lc_granter = None, lc_queryTimeout = 0, lc_remotes = [],
     lc_txf = \<lparr>tf_AccountNumber = 0, tf_Sequence = 0, tf_FeeGranter = None, tf_Gas = 0, tf_GasAdjustment = Fin 0,
       tf_GasPrices = [], tf_ChainID = [], tf_FromName = [], tf_SignMode = SIGN_MODE_UNSPECIFIED,
       tf_SimulateAndExecute = False\<rparr>,
     lc_txTimeout = 0\<rparr>"

definition WithQueryTimeout :: "64 word \<Rightarrow> lite_client \<Rightarrow> lite_client" where
  "WithQueryTimeout v c = c\<lparr>lc_queryTimeout := v\<rparr>"

definition WithRemotes :: "string list \<Rightarrow> lite_client \<Rightarrow> lite_client" where
  "WithRemotes v c = c\<lparr>lc_remotes := v\<rparr>"

definition WithTxTimeout :: "64 word \<Rightarrow> lite_client \<Rightarrow> lite_client" where
  "WithTxTimeout v c = c\<lparr>lc_txTimeout := v\<rparr>"

definition WithChainID :: "string \<Rightarrow> lite_client \<Rightarrow> lite_client" where
  "WithChainID v c = c\<lparr>lc_ctx := (lc_ctx c)\<lparr>cx_ChainID := v\<rparr>, lc_txf := (lc_txf c)\<lparr>tf_ChainID := v\<rparr>\<rparr>"

definition WithFeeGranterAddress :: "address option \<Rightarrow> lite_client \<Rightarrow> lite_client" where
  "WithFeeGranterAddress v c = c\<lparr>lc_ctx := (lc_ctx c)\<lparr>cx_FeeGranter := v\<rparr>\<rparr>"

definition WithFromAddress :: "address \<Rightarrow> lite_client \<Rightarrow> lite_client" where
  "WithFromAddress v c = c\<lparr>lc_ctx := (lc_ctx c)\<lparr>cx_FromAddress := v\<rparr>\<rparr>"

definition WithFromName :: "string \<Rightarrow> lite_client \<Rightarrow> lite_client" where
  "WithFromName v c = c\<lparr>lc_ctx := (lc_ctx c)\<lparr>cx_FromName := v\<rparr>, lc_txf := (lc_txf c)\<lparr>tf_FromName := v\<rparr>\<rparr>"

definition WithGas :: "64 word \<Rightarrow> lite_client \<Rightarrow> lite_client" where
  "WithGas v c = c\<lparr>lc_txf := (lc_txf c)\<lparr>tf_Gas := v\<rparr>\<rparr>"

definition WithGasAdjustment :: "f64 \<Rightarrow> lite_client \<Rightarrow> lite_client" where
  "WithGasAdjustment v c = c\<lparr>lc_txf := (lc_txf c)\<lparr>tf_GasAdjustment := v\<rparr>\<rparr>"

definition WithGasPrices :: "string \<Rightarrow> lite_client \<Rightarrow> lite_client" where
  "WithGasPrices v c = c\<lparr>lc_txf := (lc_txf c)\<lparr>tf_GasPrices := v\<rparr>\<rparr>"

definition WithSimulateAndExecute :: "bool \<Rightarrow> lite_client \<Rightarrow> lite_client" where
  "WithSimulateAndExecute v c = c\<lparr>lc_txf := (lc_txf c)\<lparr>tf_SimulateAndExecute := v\<rparr>\<rparr>"

definition WithGranter :: "address option \<Rightarrow> lite_client \<Rightarrow> lite_client" where
  "WithGranter v c = c\<lparr>lc_granter := v\<rparr>"

definition FromAddress :: "lite_client \<Rightarrow> address" where
  "FromAddress c = cx_FromAddress (lc_ctx c)"

definition FromName :: "lite_client \<Rightarrow> string" where
  "FromName c = cx_FromName (lc_ctx c)"

definition Granter :: "lite_client \<Rightarrow> address option" where
  "Granter c = lc_granter c"

section \<open>The libraries\<close>

record 'c sdk =
  sdk_NewRPC :: "string \<Rightarrow> 64 word \<Rightarrow> unit result"
  sdk_AccString :: "address \<Rightarrow> string"
  sdk_Account :: "string \<Rightarrow> string \<Rightarrow> 'c \<Rightarrow> (grpc_error + any) \<times> 'c"
  sdk_UnpackAccount :: "any \<Rightarrow> account result"
  sdk_QueryNode :: "string \<Rightarrow> address \<Rightarrow> 'c \<Rightarrow> (grpc_error + any) \<times> 'c"
  sdk_QuerySession :: "string \<Rightarrow> 64 word \<Rightarrow> 'c \<Rightarrow> (grpc_error + any) \<times> 'c"
  sdk_UnpackSession :: "any \<Rightarrow> chain_session result"
  sdk_QuerySubscription :: "string \<Rightarrow> 64 word \<Rightarrow> 'c \<Rightarrow> (grpc_error + subscription) \<times> 'c"
  sdk_QueryAllocation :: "string \<Rightarrow> 64 word \<Rightarrow> address \<Rightarrow> 'c \<Rightarrow> (grpc_error + allocation) \<times> 'c"
  sdk_NodeStatusTimeout :: "string \<Rightarrow> 'c \<Rightarrow> (grpc_error + int) \<times> 'c"
  sdk_SessionStatusTimeout :: "string \<Rightarrow> 'c \<Rightarrow> (grpc_error + int) \<times> 'c"
  sdk_SessionsForAccount :: "string \<Rightarrow> address \<Rightarrow> 'c \<Rightarrow> (grpc_error + any list) \<times> 'c"
  sdk_Grants :: "string \<Rightarrow> string \<Rightarrow> string \<Rightarrow> string \<Rightarrow> 'c \<Rightarrow> (grpc_error + int option list) \<times> 'c"
  sdk_NoAuthorizationFound :: gerror
  sdk_Allowances :: "string \<Rightarrow> string \<Rightarrow> 'c \<Rightarrow> (grpc_error + (string \<times> any) list) \<times> 'c"
  sdk_UnpackAllowance :: "any \<Rightarrow> fee_allowance result"
  sdk_CalculateGas :: "string \<Rightarrow> tx_factory \<Rightarrow> msg list \<Rightarrow> 'c \<Rightarrow> (64 word) result \<times> 'c"
  sdk_BuildUnsignedTx :: "tx_factory \<Rightarrow> msg list \<Rightarrow> bytes result"
  sdk_Sign :: "tx_factory \<Rightarrow> string \<Rightarrow> bytes \<Rightarrow> bytes result"
  sdk_TxEncoder :: "bytes \<Rightarrow> bytes result"
  sdk_BroadcastTx :: "string \<Rightarrow> bytes \<Rightarrow> 'c \<Rightarrow> tx_response result \<times> 'c"
  sdk_QueryTx :: "string \<Rightarrow> string \<Rightarrow> 'c \<Rightarrow> tx_response result \<times> 'c"
  sdk_ErrTxInMempoolCache :: nat
  sdk_Now :: "'c \<Rightarrow> int"
  sdk_Sleep :: "int \<Rightarrow> 'c \<Rightarrow> 'c"
  sdk_Retry :: "nat \<Rightarrow> ('c \<Rightarrow> (tx_response result \<times> 'c) option) \<Rightarrow> 'c \<Rightarrow> (tx_response result \<times> 'c) option"

section \<open>Queries\<close>

definition remote_error :: "string \<Rightarrow> gerror \<Rightarrow> gerror" where
  "remote_error remote e = remote @ '': '' @ e"

text \<open>The closure a query runs writes the caller's result; the state it threads is that result and the
  chain's world. The loop stops at the first remote without an error.\<close>

fun query_from ::
  "(string \<Rightarrow> unit result) \<Rightarrow> (string \<Rightarrow> 'w \<Rightarrow> unit result \<times> 'w) \<Rightarrow> string list \<Rightarrow> gerror list \<Rightarrow> 'w \<Rightarrow>
    unit result \<times> 'w"
where
  "query_from new fn [] errs w = (errors_Join errs, w)"
| "query_from new fn (remote # remotes) errs w =
    (case (case new remote of Inl e \<Rightarrow> (Inl e, w) | Inr _ \<Rightarrow> fn remote w) of
       (Inr _, w) \<Rightarrow> (ok, w)
     | (Inl e, w) \<Rightarrow> query_from new fn remotes (errs @ [remote_error remote e]) w)"

definition query ::
  "'c sdk \<Rightarrow> lite_client \<Rightarrow> (string \<Rightarrow> 'r \<times> 'c \<Rightarrow> unit result \<times> 'r \<times> 'c) \<Rightarrow> 'r \<Rightarrow> 'c \<Rightarrow> 'r result \<times> 'c"
where
  "query sdk lc fn zero c =
    (case query_from (\<lambda>remote. sdk_NewRPC sdk remote (lc_queryTimeout lc)) fn (lc_remotes lc) [] (zero, c) of
       (Inl e, (r, c)) \<Rightarrow> (Inl e, c)
     | (Inr _, (r, c)) \<Rightarrow> (Inr r, c))"

text \<open>The three shapes of a query's body: the answer is taken as it is, or is unpacked first; a "not
  found" leaves the result as it was.\<close>

definition take_answer ::
  "(string \<Rightarrow> 'c \<Rightarrow> (grpc_error + 'a) \<times> 'c) \<Rightarrow> ('a \<Rightarrow> 'r result) \<Rightarrow> string \<Rightarrow> 'r option \<times> 'c \<Rightarrow>
    unit result \<times> 'r option \<times> 'c"
where
  "take_answer ask unpack remote w =
    (case ask remote (snd w) of
       (Inl e, c) \<Rightarrow> (QueryError e, fst w, c)
     | (Inr a, c) \<Rightarrow> (case unpack a of Inl e \<Rightarrow> (Inl e, fst w, c) | Inr r \<Rightarrow> (ok, Some r, c)))"

definition QueryAccount :: "'c sdk \<Rightarrow> lite_client \<Rightarrow> address \<Rightarrow> 'c \<Rightarrow> account option result \<times> 'c" where
  "QueryAccount sdk lc accAddr =
    query sdk lc (take_answer (\<lambda>r. sdk_Account sdk r (sdk_AccString sdk accAddr)) (sdk_UnpackAccount sdk)) None"

definition QueryNode :: "'c sdk \<Rightarrow> lite_client \<Rightarrow> address \<Rightarrow> 'c \<Rightarrow> any option result \<times> 'c" where
  "QueryNode sdk lc nodeAddr = query sdk lc (take_answer (\<lambda>r. sdk_QueryNode sdk r nodeAddr) Inr) None"

definition QuerySession :: "'c sdk \<Rightarrow> lite_client \<Rightarrow> 64 word \<Rightarrow> 'c \<Rightarrow> chain_session option result \<times> 'c" where
  "QuerySession sdk lc i =
    query sdk lc (take_answer (\<lambda>r. sdk_QuerySession sdk r i) (sdk_UnpackSession sdk)) None"

definition QuerySubscription :: "'c sdk \<Rightarrow> lite_client \<Rightarrow> 64 word \<Rightarrow> 'c \<Rightarrow> subscription option result \<times> 'c" where
  "QuerySubscription sdk lc i = query sdk lc (take_answer (\<lambda>r. sdk_QuerySubscription sdk r i) Inr) None"

definition QueryAllocation ::
  "'c sdk \<Rightarrow> lite_client \<Rightarrow> 64 word \<Rightarrow> address \<Rightarrow> 'c \<Rightarrow> allocation option result \<times> 'c"
where
  "QueryAllocation sdk lc i accAddr =
    query sdk lc (take_answer (\<lambda>r. sdk_QueryAllocation sdk r i accAddr) Inr) None"

text \<open>The parameters always exist, so every error counts.\<close>

definition take_params ::
  "(string \<Rightarrow> 'c \<Rightarrow> (grpc_error + int) \<times> 'c) \<Rightarrow> string \<Rightarrow> int option \<times> 'c \<Rightarrow> unit result \<times> int option \<times> 'c"
where
  "take_params ask remote w =
    (case ask remote (snd w) of (Inl e, c) \<Rightarrow> (Inl (ge_Msg e), fst w, c) | (Inr p, c) \<Rightarrow> (ok, Some p, c))"

definition QueryNodeParams :: "'c sdk \<Rightarrow> lite_client \<Rightarrow> 'c \<Rightarrow> int option result \<times> 'c" where
  "QueryNodeParams sdk lc = query sdk lc (take_params (sdk_NodeStatusTimeout sdk)) None"

definition QuerySessionParams :: "'c sdk \<Rightarrow> lite_client \<Rightarrow> 'c \<Rightarrow> int option result \<times> 'c" where
  "QuerySessionParams sdk lc = query sdk lc (take_params (sdk_SessionStatusTimeout sdk)) None"

text \<open>The list is emptied when an answer arrives and filled until an item cannot be read.\<close>

fun unpack_each :: "('a \<Rightarrow> 'r result) \<Rightarrow> 'a list \<Rightarrow> 'r list \<Rightarrow> unit result \<times> 'r list" where
  "unpack_each f [] acc = (ok, acc)"
| "unpack_each f (x # xs) acc = (case f x of Inl e \<Rightarrow> (Inl e, acc) | Inr r \<Rightarrow> unpack_each f xs (acc @ [r]))"

definition QuerySessionsForAccount ::
  "'c sdk \<Rightarrow> lite_client \<Rightarrow> address \<Rightarrow> 'c \<Rightarrow> chain_session list result \<times> 'c"
where
  "QuerySessionsForAccount sdk lc accAddr =
    query sdk lc (\<lambda>remote (res, c).
      case sdk_SessionsForAccount sdk remote accAddr c of
        (Inl e, c) \<Rightarrow> (QueryError e, res, c)
      | (Inr items, c) \<Rightarrow> (case unpack_each (sdk_UnpackSession sdk) items [] of (r, res) \<Rightarrow> (r, res, c))) []"

section \<open>Grants\<close>

text \<open>\<^verbatim>\<open>Time.UTC().Format(time.RFC3339)\<close> of a time in nanoseconds since 1970: the date comes from the day
  number by the proleptic Gregorian calendar.\<close>

definition civil_date :: "int \<Rightarrow> int \<times> int \<times> int" where
  "civil_date day =
    (let z = day + 719468; era = z div 146097; doe = z mod 146097;
         yoe = (doe - doe div 1460 + doe div 36524 - doe div 146096) div 365;
         doy = doe - (365 * yoe + yoe div 4 - yoe div 100); mp = (5 * doy + 2) div 153;
         d = doy - (153 * mp + 2) div 5 + 1; m = (if mp < 10 then mp + 3 else mp - 9)
     in (yoe + 400 * era + (if m \<le> 2 then 1 else 0), m, d))"

definition pad_int :: "nat \<Rightarrow> int \<Rightarrow> string" where
  "pad_int w i = (let s = itoa (nat i) in replicate (w - length s) (CHR ''0'') @ s)"

definition fmt_RFC3339 :: "int \<Rightarrow> string" where
  "fmt_RFC3339 t =
    (let secs = t div second; rest = secs mod 86400 in
     case civil_date (secs div 86400) of (y, m, d) \<Rightarrow>
       pad_int 4 y @ ''-'' @ pad_int 2 m @ ''-'' @ pad_int 2 d @ ''T'' @ pad_int 2 (rest div 3600) @ '':'' @
       pad_int 2 (rest div 60 mod 60) @ '':'' @ pad_int 2 (rest mod 60) @ ''Z'')"

definition NodeMsgTypeURLs :: "string list" where
  "NodeMsgTypeURLs =
    [''/sentinel.node.v3.MsgRegisterNodeRequest'', ''/sentinel.node.v3.MsgUpdateNodeDetailsRequest'',
     ''/sentinel.node.v3.MsgUpdateNodeStatusRequest'', ''/sentinel.session.v3.MsgUpdateSessionRequest'']"

definition ExecMsgTypeURL :: string where
  "ExecMsgTypeURL = ''/cosmos.authz.v1beta1.MsgExec''"

definition GrantWarningWindow :: int where
  "GrantWarningWindow = 14 * 24 * 3600 * second"

record grant_state =
  gs_Found :: bool
  gs_Expiry :: "int option"

text \<open>Problems and warnings, in the order they are found.\<close>

type_synonym grant_notes = "gerror list \<times> gerror list"

definition add_problem :: "gerror \<Rightarrow> grant_notes \<Rightarrow> grant_notes" where
  "add_problem e n = (fst n @ [e], snd n)"

definition add_warning :: "gerror \<Rightarrow> grant_notes \<Rightarrow> grant_notes" where
  "add_warning e n = (fst n, snd n @ [e])"

text \<open>What an expiry adds: a problem once it has passed, a warning within the window.\<close>

definition note_expiry :: "int \<Rightarrow> gerror \<Rightarrow> gerror \<Rightarrow> int option \<Rightarrow> grant_notes \<Rightarrow> grant_notes" where
  "note_expiry now expired expires x n =
    (case x of
       None \<Rightarrow> n
     | Some t \<Rightarrow>
        if t \<le> now then add_problem (expired @ fmt_RFC3339 t) n
        else if t < now + GrantWarningWindow then add_warning (expires @ fmt_RFC3339 t) n
        else n)"

definition note_grant :: "int \<Rightarrow> (string \<Rightarrow> grant_state) \<Rightarrow> string \<Rightarrow> grant_notes \<Rightarrow> grant_notes" where
  "note_grant now grants url n =
    (if \<not> gs_Found (grants url) then add_problem (''no authz grant for '' @ url) n
     else note_expiry now (''the authz grant for '' @ url @ '' expired at '')
       (''the authz grant for '' @ url @ '' expires at '') (gs_Expiry (grants url)) n)"

definition AmountOf :: "coins \<Rightarrow> string \<Rightarrow> int" where
  "AmountOf cs denom = (case map_of cs denom of None \<Rightarrow> 0 | Some a \<Rightarrow> a)"

definition note_coin :: "coins \<Rightarrow> string \<times> int \<Rightarrow> grant_notes \<Rightarrow> grant_notes" where
  "note_coin limit coin n =
    (let left = AmountOf limit (fst coin);
         m = ''the fee allowance has '' @ fmt_int left @ fst coin @ '' left, less than 336h0m0s of fees''
     in if left < snd coin then (if left = 0 then add_problem m n else add_warning m n) else n)"

fun SpendLimit :: "fee_allowance \<Rightarrow> coins option" where
  "SpendLimit (BasicAllowance l x) = l"
| "SpendLimit (PeriodicAllowance l x) = l"
| "SpendLimit _ = None"

text \<open>The second half: the expiry and the spend limit of the allowance, or of the one inside it.\<close>

definition note_allowance :: "int \<Rightarrow> fee_allowance \<Rightarrow> coins \<Rightarrow> grant_notes \<Rightarrow> grant_notes" where
  "note_allowance now a minSpend n =
    (let n = (case ExpiresAt a of
                Inl e \<Rightarrow> n
              | Inr x \<Rightarrow> note_expiry now ''the fee allowance expired at '' ''the fee allowance expires at '' x n)
     in case SpendLimit a of None \<Rightarrow> n | Some limit \<Rightarrow> for_each (note_coin limit) minSpend n)"

definition EvaluateGrants ::
  "int \<Rightarrow> (string \<Rightarrow> grant_state) \<Rightarrow> fee_allowance option \<Rightarrow> coins \<Rightarrow> grant_notes"
where
  "EvaluateGrants now grants allowance minSpend =
    (let n = for_each (note_grant now grants) NodeMsgTypeURLs ([], []) in
     case allowance of
       None \<Rightarrow> add_problem ''no fee allowance from the granter'' n
     | Some (AllowedMsgAllowance msgs inner x) \<Rightarrow>
        (let n = (if ExecMsgTypeURL \<in> set msgs then n
                  else add_problem (''the fee allowance does not cover '' @ ExecMsgTypeURL) n)
         in case inner of
              Inl e \<Rightarrow> add_problem (''the fee allowance cannot be read: '' @ e) n
            | Inr a \<Rightarrow> note_allowance now a minSpend n)
     | Some a \<Rightarrow> note_allowance now a minSpend n)"

definition noAuthorization :: "'c sdk \<Rightarrow> grpc_error \<Rightarrow> bool" where
  "noAuthorization sdk e = contains_str (ge_Msg e) (sdk_NoAuthorizationFound sdk)"

definition QueryGrantExpiry ::
  "'c sdk \<Rightarrow> lite_client \<Rightarrow> address \<Rightarrow> address \<Rightarrow> string \<Rightarrow> 'c \<Rightarrow> grant_state result \<times> 'c"
where
  "QueryGrantExpiry sdk lc granter grantee url =
    query sdk lc (\<lambda>remote (g, c).
      case sdk_Grants sdk remote (sdk_AccString sdk granter) (sdk_AccString sdk grantee) url c of
        (Inl e, c) \<Rightarrow> (if noAuthorization sdk e then ok else QueryError e, g, c)
      | (Inr [], c) \<Rightarrow> (ok, g, c)
      | (Inr (x # _), c) \<Rightarrow> (ok, \<lparr>gs_Found = True, gs_Expiry = x\<rparr>, c)) \<lparr>gs_Found = False, gs_Expiry = None\<rparr>"

text \<open>The first allowance the granter gave; unpacking it may fail.\<close>

definition QueryFeeAllowance ::
  "'c sdk \<Rightarrow> lite_client \<Rightarrow> address \<Rightarrow> address \<Rightarrow> 'c \<Rightarrow> fee_allowance option result \<times> 'c"
where
  "QueryFeeAllowance sdk lc granter grantee =
    query sdk lc (\<lambda>remote (res, c).
      case sdk_Allowances sdk remote (sdk_AccString sdk grantee) c of
        (Inl e, c) \<Rightarrow> (QueryError e, res, c)
      | (Inr grants, c) \<Rightarrow>
         (case map_of grants (sdk_AccString sdk granter) of
            None \<Rightarrow> (ok, res, c)
          | Some a \<Rightarrow> (case sdk_UnpackAllowance sdk a of Inl e \<Rightarrow> (Inl e, res, c) | Inr f \<Rightarrow> (ok, Some f, c)))) None"

fun query_grants ::
  "'c sdk \<Rightarrow> lite_client \<Rightarrow> address \<Rightarrow> string list \<Rightarrow> (string \<Rightarrow> grant_state) \<Rightarrow> 'c \<Rightarrow>
    (string \<Rightarrow> grant_state) result \<times> 'c"
where
  "query_grants sdk lc granter [] grants c = (Inr grants, c)"
| "query_grants sdk lc granter (url # urls) grants c =
    (case QueryGrantExpiry sdk lc granter (FromAddress lc) url c of
       (Inl e, c) \<Rightarrow> (Inl e, c)
     | (Inr g, c) \<Rightarrow> query_grants sdk lc granter urls (grants(url := g)) c)"

definition CheckGrants ::
  "'c sdk \<Rightarrow> lite_client \<Rightarrow> address \<Rightarrow> int \<Rightarrow> coins \<Rightarrow> 'c \<Rightarrow> grant_notes result \<times> 'c"
where
  "CheckGrants sdk lc granter now minSpend c =
    (case query_grants sdk lc granter NodeMsgTypeURLs (\<lambda>_. \<lparr>gs_Found = False, gs_Expiry = None\<rparr>) c of
       (Inl e, c) \<Rightarrow> (Inl e, c)
     | (Inr grants, c) \<Rightarrow>
        (case QueryFeeAllowance sdk lc granter (FromAddress lc) c of
           (Inl e, c) \<Rightarrow> (Inl e, c)
         | (Inr allowance, c) \<Rightarrow> (Inr (EvaluateGrants now grants allowance minSpend), c)))"

section \<open>Transactions\<close>

definition execMessages :: "lite_client \<Rightarrow> msg list \<Rightarrow> msg list" where
  "execMessages lc messages =
    (case lc_granter lc of None \<Rightarrow> messages | Some _ \<Rightarrow> [MsgExec (FromAddress lc) messages])"

text \<open>The loop polls every two seconds until the transaction is in a block or the deadline has passed.\<close>

partial_function (option) wait_until ::
  "'c sdk \<Rightarrow> lite_client \<Rightarrow> string \<Rightarrow> string \<Rightarrow> int \<Rightarrow> 'c \<Rightarrow> (tx_response result \<times> 'c) option"
where
  "wait_until sdk lc remote hash deadline c =
    (case sdk_QueryTx sdk remote hash c of
       (Inr res, c) \<Rightarrow> Some (if txr_Code res \<noteq> 0 then Inl (txr_RawLog res) else Inr res, c)
     | (Inl e, c) \<Rightarrow>
        if deadline < sdk_Now sdk c
        then Some (Inl (''transaction '' @ hash @ '' was not included within '' @ itoa (unat (lc_txTimeout lc)) @ '' seconds''), c)
        else wait_until sdk lc remote hash deadline (sdk_Sleep sdk (2 * second) c))"

text \<open>The conversion of the timeout to a duration and its product with a second wrap.\<close>

definition waitForTx :: "'c sdk \<Rightarrow> lite_client \<Rightarrow> string \<Rightarrow> string \<Rightarrow> 'c \<Rightarrow> (tx_response result \<times> 'c) option" where
  "waitForTx sdk lc remote hash c =
    wait_until sdk lc remote hash (sdk_Now sdk c + i64 (sint (lc_txTimeout lc) * second)) c"

definition broadcastTx :: "'c sdk \<Rightarrow> lite_client \<Rightarrow> string \<Rightarrow> bytes \<Rightarrow> 'c \<Rightarrow> (tx_response result \<times> 'c) option" where
  "broadcastTx sdk lc remote txBytes c =
    (case sdk_NewRPC sdk remote (lc_txTimeout lc) of
       Inl e \<Rightarrow> Some (Inl e, c)
     | Inr _ \<Rightarrow>
        (case sdk_BroadcastTx sdk remote txBytes c of
           (Inl e, c) \<Rightarrow> Some (Inl e, c)
         | (Inr resp, c) \<Rightarrow>
            if txr_Code resp \<in> {0, sdk_ErrTxInMempoolCache sdk} then waitForTx sdk lc remote (txr_TxHash resp) c
            else Some (Inl (txr_RawLog resp), c)))"

text \<open>Without a remote the broadcast answers neither a response nor an error.\<close>

fun broadcast_from ::
  "'c sdk \<Rightarrow> lite_client \<Rightarrow> bytes \<Rightarrow> string list \<Rightarrow> gerror list \<Rightarrow> 'c \<Rightarrow> (tx_response option result \<times> 'c) option"
where
  "broadcast_from sdk lc txBytes [] errs c =
    Some (case errors_Join errs of Inl e \<Rightarrow> Inl e | Inr _ \<Rightarrow> Inr None, c)"
| "broadcast_from sdk lc txBytes (remote # remotes) errs c =
    (case broadcastTx sdk lc remote txBytes c of
       None \<Rightarrow> None
     | Some (Inr res, c) \<Rightarrow> Some (Inr (Some res), c)
     | Some (Inl e, c) \<Rightarrow> broadcast_from sdk lc txBytes remotes (errs @ [remote_error remote e]) c)"

definition BroadcastTx :: "'c sdk \<Rightarrow> lite_client \<Rightarrow> bytes \<Rightarrow> 'c \<Rightarrow> (tx_response option result \<times> 'c) option" where
  "BroadcastTx sdk lc txBytes c = broadcast_from sdk lc txBytes (lc_remotes lc) [] c"

definition calculateGas ::
  "'c sdk \<Rightarrow> lite_client \<Rightarrow> string \<Rightarrow> tx_factory \<Rightarrow> msg list \<Rightarrow> 'c \<Rightarrow> (64 word) result \<times> 'c"
where
  "calculateGas sdk lc remote txf messages c =
    (case sdk_NewRPC sdk remote (lc_txTimeout lc) of
       Inl e \<Rightarrow> (Inl e, c)
     | Inr _ \<Rightarrow> sdk_CalculateGas sdk remote txf messages c)"

fun gas_from ::
  "'c sdk \<Rightarrow> lite_client \<Rightarrow> tx_factory \<Rightarrow> msg list \<Rightarrow> string list \<Rightarrow> gerror list \<Rightarrow> 'c \<Rightarrow> (64 word) result \<times> 'c"
where
  "gas_from sdk lc txf messages [] errs c =
    (case errors_Join errs of Inl e \<Rightarrow> (Inl e, c) | Inr _ \<Rightarrow> (Inr 0, c))"
| "gas_from sdk lc txf messages (remote # remotes) errs c =
    (case calculateGas sdk lc remote txf messages c of
       (Inr gas, c) \<Rightarrow> (Inr gas, c)
     | (Inl e, c) \<Rightarrow> gas_from sdk lc txf messages remotes (errs @ [remote_error remote e]) c)"

definition CalculateGas ::
  "'c sdk \<Rightarrow> lite_client \<Rightarrow> tx_factory \<Rightarrow> msg list \<Rightarrow> 'c \<Rightarrow> (64 word) result \<times> 'c"
where
  "CalculateGas sdk lc txf messages c = gas_from sdk lc txf messages (lc_remotes lc) [] c"

definition PrepareTxFactory :: "'c sdk \<Rightarrow> lite_client \<Rightarrow> msg list \<Rightarrow> 'c \<Rightarrow> tx_factory result \<times> 'c" where
  "PrepareTxFactory sdk lc messages c =
    (case QueryAccount sdk lc (FromAddress lc) c of
       (Inl e, c) \<Rightarrow> (Inl e, c)
     | (Inr None, c) \<Rightarrow> (Inl (''account '' @ sdk_AccString sdk (FromAddress lc) @ '' does not exist''), c)
     | (Inr (Some acc), c) \<Rightarrow>
        (let txf = (lc_txf lc)\<lparr>tf_AccountNumber := acc_AccountNumber acc, tf_Sequence := acc_Sequence acc\<rparr>;
             txf = (if lc_granter lc \<noteq> None then txf\<lparr>tf_FeeGranter := lc_granter lc\<rparr> else txf)
         in if tf_SimulateAndExecute (lc_txf lc)
            then (case CalculateGas sdk lc txf messages c of
                    (Inl e, c) \<Rightarrow> (Inl e, c)
                  | (Inr gas, c) \<Rightarrow> (Inr (txf\<lparr>tf_Gas := gas\<rparr>), c))
            else (Inr txf, c)))"

text \<open>The bytes of the signed transaction.\<close>

definition signed_tx :: "'c sdk \<Rightarrow> lite_client \<Rightarrow> tx_factory \<Rightarrow> msg list \<Rightarrow> bytes result" where
  "signed_tx sdk lc txf messages =
    rbind (sdk_BuildUnsignedTx sdk txf messages) (\<lambda>txb.
    rbind (sdk_Sign sdk txf (FromName lc) txb) (sdk_TxEncoder sdk))"

definition tx :: "'c sdk \<Rightarrow> lite_client \<Rightarrow> msg list \<Rightarrow> 'c \<Rightarrow> (tx_response option result \<times> 'c) option" where
  "tx sdk lc messages c =
    (case PrepareTxFactory sdk lc messages c of
       (Inl e, c) \<Rightarrow> Some (Inl e, c)
     | (Inr txf, c) \<Rightarrow>
        (case signed_tx sdk lc txf messages of
           Inl e \<Rightarrow> Some (Inl e, c)
         | Inr txBytes \<Rightarrow> BroadcastTx sdk lc txBytes c))"

text \<open>One attempt logs the fields of the response, which panics when there is none.\<close>

definition attempt :: "'c sdk \<Rightarrow> lite_client \<Rightarrow> msg list \<Rightarrow> 'c \<Rightarrow> (tx_response result \<times> 'c) option" where
  "attempt sdk lc messages c =
    (case tx sdk lc messages c of
       None \<Rightarrow> None
     | Some (Inl e, c) \<Rightarrow> Some (Inl e, c)
     | Some (Inr None, c) \<Rightarrow> None
     | Some (Inr (Some res), c) \<Rightarrow> Some (Inr res, c))"

definition Tx :: "'c sdk \<Rightarrow> lite_client \<Rightarrow> msg list \<Rightarrow> 'c \<Rightarrow> (tx_response result \<times> 'c) option" where
  "Tx sdk lc messages c = sdk_Retry sdk 5 (attempt sdk lc (execMessages lc messages)) c"

section \<open>What the node sends\<close>

definition Operator :: "lite_client \<Rightarrow> address" where
  "Operator lc = (case Granter lc of Some granter \<Rightarrow> granter | None \<Rightarrow> FromAddress lc)"

text \<open>Prices and the remote address were validated; a value that does not parse panics.\<close>

definition GigabytePrices :: "string parsers \<Rightarrow> config \<Rightarrow> string option" where
  "GigabytePrices pa cfg =
    (case ParsePrices pa (nc_GigabytePrices (cfg_Node cfg)) of Inl _ \<Rightarrow> None | Inr p \<Rightarrow> Some p)"

definition HourlyPrices :: "string parsers \<Rightarrow> config \<Rightarrow> string option" where
  "HourlyPrices pa cfg =
    (case ParsePrices pa (nc_HourlyPrices (cfg_Node cfg)) of Inl _ \<Rightarrow> None | Inr p \<Rightarrow> Some p)"

definition RemoteAddrs :: "config \<Rightarrow> string list option" where
  "RemoteAddrs cfg = (case url_Parse (nc_RemoteURL (cfg_Node cfg)) of None \<Rightarrow> None | Some u \<Rightarrow> Some [url_Host u])"

definition drop_response :: "(tx_response result \<times> 'c) option \<Rightarrow> (unit result \<times> 'c) option" where
  "drop_response r = map_option (\<lambda>(r, c). (case r of Inl e \<Rightarrow> Inl e | Inr _ \<Rightarrow> ok, c)) r"

text \<open>The arguments of the two messages are evaluated in order, the prices and the address first.\<close>

definition send_details ::
  "(address \<Rightarrow> string \<Rightarrow> string \<Rightarrow> string list \<Rightarrow> msg) \<Rightarrow> 'c sdk \<Rightarrow> lite_client \<Rightarrow> string parsers \<Rightarrow> config \<Rightarrow> 'c \<Rightarrow>
    (unit result \<times> 'c) option"
where
  "send_details m sdk lc pa cfg c =
    (case (GigabytePrices pa cfg, HourlyPrices pa cfg, RemoteAddrs cfg) of
       (Some g, Some h, Some addrs) \<Rightarrow> drop_response (Tx sdk lc [m (Operator lc) g h addrs] c)
     | _ \<Rightarrow> None)"

definition RegisterNode :: "'c sdk \<Rightarrow> lite_client \<Rightarrow> string parsers \<Rightarrow> config \<Rightarrow> 'c \<Rightarrow> (unit result \<times> 'c) option" where
  "RegisterNode = send_details MsgRegisterNode"

definition UpdateNodeInfo :: "'c sdk \<Rightarrow> lite_client \<Rightarrow> string parsers \<Rightarrow> config \<Rightarrow> 'c \<Rightarrow> (unit result \<times> 'c) option" where
  "UpdateNodeInfo = send_details MsgUpdateNodeDetails"

definition UpdateNodeStatus :: "'c sdk \<Rightarrow> lite_client \<Rightarrow> 'c \<Rightarrow> (unit result \<times> 'c) option" where
  "UpdateNodeStatus sdk lc c = drop_response (Tx sdk lc [MsgUpdateNodeStatus (Operator lc) StatusActive] c)"

definition Initialize :: "'c sdk \<Rightarrow> lite_client \<Rightarrow> string parsers \<Rightarrow> config \<Rightarrow> 'c \<Rightarrow> (unit result \<times> 'c) option" where
  "Initialize sdk lc pa cfg c =
    (case QueryNode sdk lc (Operator lc) c of
       (Inl e, c) \<Rightarrow> Some (Inl e, c)
     | (Inr None, c) \<Rightarrow> RegisterNode sdk lc pa cfg c
     | (Inr (Some _), c) \<Rightarrow> UpdateNodeInfo sdk lc pa cfg c)"

text \<open>The chain the jobs and the admission talk to is this client. A report that does not return has no
  value here; that there is none such is shown below.\<close>

definition contextChain :: "'c sdk \<Rightarrow> lite_client \<Rightarrow> (string \<Rightarrow> address) \<Rightarrow> 'c chain" where
  "contextChain sdk lc addr =
    \<lparr>ch_QuerySession = QuerySession sdk lc, ch_QuerySubscription = QuerySubscription sdk lc,
     ch_QueryAllocation = (\<lambda>i a. QueryAllocation sdk lc i (addr a)),
     ch_Tx = (\<lambda>ms c. the (drop_response (Tx sdk lc (map MsgUpdateSession ms) c)))\<rparr>"

section \<open>Queries go to the first remote that answers\<close>

text \<open>Remotes before the first that answers only add to the error; \<open>I\<close> is what a failed attempt keeps.\<close>

lemma query_from_answer:
  assumes "\<And>r w e w'. r \<in> set remotes \<Longrightarrow> I w \<Longrightarrow> new r = ok \<Longrightarrow> fn r w = (Inl e, w') \<Longrightarrow> I w'"
    and "\<And>r w w'. r \<in> set remotes \<Longrightarrow> I w \<Longrightarrow> new r = ok \<Longrightarrow> fn r w = (ok, w') \<Longrightarrow> Q w'"
    and "up \<in> set remotes" "new up = ok" "\<And>w. I w \<Longrightarrow> is_ok (fst (fn up w))" "I w"
  shows "\<exists>w'. query_from new fn remotes errs w = (ok, w') \<and> Q w'"
  using assms
proof (induction remotes arbitrary: errs w)
  case (Cons r rs)
  obtain x w1 where x: "(case new r of Inl e \<Rightarrow> (Inl e, w) | Inr _ \<Rightarrow> fn r w) = (x, w1)" by fastforce
  show ?case
  proof (cases x)
    case (Inr u)
    then have "new r = ok" "fn r w = (ok, w1)" using x by (auto split: sum.splits)
    then show ?thesis using Cons.prems(2) [of r w w1] Cons.prems(6) x Inr by auto
  next
    case (Inl e)
    have "I w1"
    proof (cases "new r")
      case Inl: (Inl e')
      then show ?thesis using x Cons.prems(6) by auto
    next
      case Inr: (Inr u)
      then have "new r = ok" by simp
      from Cons.prems(1) [OF _ Cons.prems(6) this] x Inl Inr show ?thesis by auto
    qed
    moreover have "up \<noteq> r"
      using Cons.prems(4) Cons.prems(5) [OF Cons.prems(6)] x Inl by auto
    ultimately have "\<exists>w'. query_from new fn rs (errs @ [remote_error r e]) w1 = (ok, w') \<and> Q w'"
    proof (intro Cons.IH)
      show "Q w'" if "r' \<in> set rs" "I v" "new r' = ok" "fn r' v = (ok, w')" for r' v w'
        using Cons.prems(2) [of r' v w'] that by simp
      show "I w'" if "r' \<in> set rs" "I v" "new r' = ok" "fn r' v = (Inl e', w')" for r' v e' w'
        using Cons.prems(1) [of r' v e' w'] that by simp
    qed (use Cons.prems(3-5) in auto)
    then show ?thesis using x Inl by simp
  qed
qed simp

lemma query_from_errors:
  "query_from new fn remotes errs w = (Inl e, w') \<Longrightarrow>
    \<exists>more. length more = length remotes \<and> e = join ''\<newline>'' (errs @ map2 remote_error remotes more)"
proof (induction remotes arbitrary: errs w)
  case Nil
  then show ?case by (auto simp: errors_Join_def split: if_splits)
next
  case (Cons r rs)
  obtain x w1 where x: "(case new r of Inl e \<Rightarrow> (Inl e, w) | Inr _ \<Rightarrow> fn r w) = (x, w1)" by fastforce
  with Cons.prems obtain e1 where "query_from new fn rs (errs @ [remote_error r e1]) w1 = (Inl e, w')"
    by (cases x) auto
  from Cons.IH [OF this] obtain es where "length es = length rs"
    "e = join ''\<newline>'' ((errs @ [remote_error r e1]) @ map2 remote_error rs es)" by blast
  then show ?case by (intro exI [of _ "e1 # es"]) simp
qed

text \<open>What a remote is trusted with: it may be unreachable or fail, but when it answers about a session it
  answers what the chain holds, and asking changes nothing there.\<close>

definition honest_remotes :: "'c sdk \<Rightarrow> string list \<Rightarrow> ('c \<Rightarrow> 64 word \<Rightarrow> chain_session option) \<Rightarrow> bool" where
  "honest_remotes sdk remotes held \<longleftrightarrow>
    (\<forall>r \<in> set remotes. \<forall>i c a c'. sdk_QuerySession sdk r i c = (a, c') \<longrightarrow> held c' = held c \<and>
      (case a of
         Inl e \<Rightarrow> ge_Code e = 5 \<longrightarrow> held c i = None
       | Inr x \<Rightarrow> (\<exists>s. sdk_UnpackSession sdk x = Inr s \<and> held c i = Some s)))"

definition remote_up :: "'c sdk \<Rightarrow> lite_client \<Rightarrow> string \<Rightarrow> bool" where
  "remote_up sdk lc r \<longleftrightarrow> sdk_NewRPC sdk r (lc_queryTimeout lc) = ok \<and>
    (\<forall>i c e c'. sdk_QuerySession sdk r i c = (Inl e, c') \<longrightarrow> ge_Code e = 5)"

lemma honest_answer:
  assumes "honest_remotes sdk remotes held" "r \<in> set remotes" "sdk_QuerySession sdk r i c = (a, c')"
  shows "held c' = held c"
    and "a = Inl e \<Longrightarrow> ge_Code e = 5 \<Longrightarrow> held c i = None"
    and "a = Inr x \<Longrightarrow> \<exists>s. sdk_UnpackSession sdk x = Inr s \<and> held c i = Some s"
  using assms unfolding honest_remotes_def by (auto split: sum.splits)

text \<open>C7: as long as one of the configured remotes is up, asking for a session is asking the chain: whatever
  remotes before it are unreachable or fail, the answer is exactly the session the chain holds, and none
  when it holds none.\<close>

theorem session_query_exact:
  assumes honest: "honest_remotes sdk (lc_remotes lc) held"
    and up: "up \<in> set (lc_remotes lc)" "remote_up sdk lc up"
  shows "fst (QuerySession sdk lc i c) = Inr (held c i)"
proof -
  let ?fn = "take_answer (\<lambda>r. sdk_QuerySession sdk r i) (sdk_UnpackSession sdk)"
  let ?I = "\<lambda>w. fst w = None \<and> held (snd w) = held c"
  have step: "?I w \<Longrightarrow> r \<in> set (lc_remotes lc) \<Longrightarrow> ?fn r w = (x, w') \<Longrightarrow>
      (\<not> is_ok x \<longrightarrow> ?I w') \<and> (is_ok x \<longrightarrow> fst w' = held c i)" for w r x w'
    using honest_answer [OF honest, of r i "snd w"]
    by (cases "sdk_QuerySession sdk r i (snd w)") (auto simp: take_answer_def QueryError_def split: sum.splits if_splits)
  have live: "?I w \<Longrightarrow> is_ok (fst (?fn up w))" for w
  proof -
    obtain a c' where q: "sdk_QuerySession sdk up i (snd w) = (a, c')" by fastforce
    have "ge_Code e = 5" if "a = Inl e" for e using up(2) q that unfolding remote_up_def by blast
    then show ?thesis
      using q honest_answer [OF honest up(1) q] by (auto simp: take_answer_def QueryError_def split: sum.splits)
  qed
  have "\<exists>w'. query_from (\<lambda>r. sdk_NewRPC sdk r (lc_queryTimeout lc)) ?fn (lc_remotes lc) [] (None, c) = (ok, w') \<and>
      fst w' = held c i"
  proof (rule query_from_answer [where I = ?I and up = up])
    show "sdk_NewRPC sdk up (lc_queryTimeout lc) = ok" using up(2) by (simp add: remote_up_def)
    show "?I w'" if "r \<in> set (lc_remotes lc)" "?I w" "?fn r w = (Inl e, w')" for r w e w'
      using step [OF that(2,1,3)] by simp
    show "fst w' = held c i" if "r \<in> set (lc_remotes lc)" "?I w" "?fn r w = (ok, w')" for r w w'
      using step [OF that(2,1,3)] by simp
    show "is_ok (fst (?fn up w))" if "?I w" for w by (rule live [OF that])
  qed (simp_all add: up(1))
  then show ?thesis by (auto simp: QuerySession_def query_def)
qed

section \<open>A transaction returns\<close>

text \<open>The clock: sleeping takes its time, and asking for a transaction does not turn it back.\<close>

definition clock_doc :: "'c sdk \<Rightarrow> bool" where
  "clock_doc sdk \<longleftrightarrow>
    (\<forall>d c. 0 \<le> d \<longrightarrow> sdk_Now sdk c + d \<le> sdk_Now sdk (sdk_Sleep sdk d c)) \<and>
    (\<forall>r h c x c'. sdk_QueryTx sdk r h c = (x, c') \<longrightarrow> sdk_Now sdk c \<le> sdk_Now sdk c')"

text \<open>The retry helper runs its function up to the given number of times, until it succeeds; between two
  attempts it waits, so the world may change. The error it gives back in the end is its own.\<close>

inductive retry_run :: "('c \<Rightarrow> ('a result \<times> 'c) option) \<Rightarrow> nat \<Rightarrow> 'c \<Rightarrow> 'a result \<times> 'c \<Rightarrow> bool" for f where
  retry_success: "f c = Some (Inr x, c') \<Longrightarrow> retry_run f (Suc n) c (Inr x, c')"
| retry_last: "f c = Some (Inl e, c') \<Longrightarrow> retry_run f (Suc 0) c (Inl e', c')"
| retry_again: "f c = Some (Inl e, c1) \<Longrightarrow> retry_run f (Suc n) c2 r \<Longrightarrow> retry_run f (Suc (Suc n)) c r"

definition retry_doc :: "'c sdk \<Rightarrow> bool" where
  "retry_doc sdk \<longleftrightarrow>
    (\<forall>n f c. 0 < n \<longrightarrow> (\<forall>c. f c \<noteq> None) \<longrightarrow> (\<exists>r. sdk_Retry sdk n f c = Some r \<and> retry_run f n c r))"

text \<open>A response that counts as success was read from a configured remote and has code zero.\<close>

definition included :: "'c sdk \<Rightarrow> lite_client \<Rightarrow> tx_response \<Rightarrow> bool" where
  "included sdk lc res \<longleftrightarrow> txr_Code res = 0 \<and>
    (\<exists>r \<in> set (lc_remotes lc). \<exists>h c c'. sdk_QueryTx sdk r h c = (Inr res, c'))"

lemma wait_until_returns:
  assumes "clock_doc sdk" "r \<in> set (lc_remotes lc)" "deadline - sdk_Now sdk c < 2 * second * int n"
  shows "\<exists>x c'. wait_until sdk lc r h deadline c = Some (x, c') \<and> (\<forall>res. x = Inr res \<longrightarrow> included sdk lc res)"
  using assms(3)
proof (induction n arbitrary: c)
  case (Suc n)
  obtain x c1 where q: "sdk_QueryTx sdk r h c = (x, c1)" by fastforce
  have mono: "sdk_Now sdk c \<le> sdk_Now sdk c1" using assms(1) q by (auto simp: clock_doc_def)
  show ?case
  proof (cases x)
    case (Inr res)
    then show ?thesis using q assms(2) by (subst wait_until.simps) (auto simp: included_def)
  next
    case (Inl e)
    show ?thesis
    proof (cases "deadline < sdk_Now sdk c1")
      case True
      then show ?thesis using q Inl by (subst wait_until.simps) auto
    next
      case False
      have "sdk_Now sdk c1 + 2 * second \<le> sdk_Now sdk (sdk_Sleep sdk (2 * second) c1)"
        using assms(1) by (auto simp: clock_doc_def)
      then have "deadline - sdk_Now sdk (sdk_Sleep sdk (2 * second) c1) < 2 * second * int n"
        using Suc.prems mono by (simp add: algebra_simps)
      from Suc.IH [OF this] show ?thesis using q Inl False by (subst wait_until.simps) simp
    qed
  qed
next
  case 0
  obtain x c1 where q: "sdk_QueryTx sdk r h c = (x, c1)" by fastforce
  have "sdk_Now sdk c \<le> sdk_Now sdk c1" using assms(1) q by (auto simp: clock_doc_def)
  then show ?case using q 0 assms(2)
    by (cases x; subst wait_until.simps) (auto simp: included_def)
qed

lemma waitForTx_returns:
  assumes "clock_doc sdk" "r \<in> set (lc_remotes lc)"
  shows "\<exists>x c'. waitForTx sdk lc r h c = Some (x, c') \<and> (\<forall>res. x = Inr res \<longrightarrow> included sdk lc res)"
proof -
  define d where "d = i64 (sint (lc_txTimeout lc) * second)"
  have "(sdk_Now sdk c + d) - sdk_Now sdk c < 2 * second * int (nat d + 1)" by (cases "0 \<le> d") auto
  from wait_until_returns [OF assms this] show ?thesis by (simp add: waitForTx_def d_def)
qed

lemma broadcast_from_returns:
  assumes "clock_doc sdk" "set rs \<subseteq> set (lc_remotes lc)" "rs \<noteq> [] \<or> errs \<noteq> []"
  shows "\<exists>x c'. broadcast_from sdk lc b rs errs c = Some (x, c') \<and>
    (\<forall>y. x = Inr y \<longrightarrow> (\<exists>res. y = Some res \<and> included sdk lc res))"
  using assms(2,3)
proof (induction rs arbitrary: errs c)
  case Nil
  then show ?case by (auto simp: errors_Join_def)
next
  case (Cons r rs)
  have "\<exists>x c'. broadcastTx sdk lc r b c = Some (x, c') \<and> (\<forall>res. x = Inr res \<longrightarrow> included sdk lc res)"
    using waitForTx_returns [OF assms(1), of r lc] Cons.prems(1)
    by (auto simp: broadcastTx_def split: sum.splits prod.splits)
  then obtain x c' where "broadcastTx sdk lc r b c = Some (x, c')" "\<forall>res. x = Inr res \<longrightarrow> included sdk lc res"
    by blast
  then show ?case using Cons by (cases x) auto
qed

lemma attempt_returns:
  assumes "clock_doc sdk"
  shows "\<exists>x c'. attempt sdk lc ms c = Some (x, c') \<and> (\<forall>res. x = Inr res \<longrightarrow> included sdk lc res)"
proof -
  obtain p c1 where p: "PrepareTxFactory sdk lc ms c = (p, c1)" by fastforce
  show ?thesis
  proof (cases p)
    case (Inl e)
    then show ?thesis using p by (simp add: attempt_def tx_def)
  next
    case (Inr txf)
    have rem: "lc_remotes lc \<noteq> []"
      using p Inr by (auto simp: PrepareTxFactory_def QueryAccount_def query_def)
    show ?thesis
    proof (cases "signed_tx sdk lc txf ms")
      case Inl': (Inl e)
      then show ?thesis using p Inr by (simp add: attempt_def tx_def)
    next
      case Inr': (Inr b)
      obtain x c' where "broadcast_from sdk lc b (lc_remotes lc) [] c1 = Some (x, c')"
        "\<forall>y. x = Inr y \<longrightarrow> (\<exists>res. y = Some res \<and> included sdk lc res)"
        using broadcast_from_returns [OF assms, of "lc_remotes lc" lc] rem by blast
      then show ?thesis using p Inr Inr' by (cases x) (auto simp: attempt_def tx_def BroadcastTx_def)
    qed
  qed
qed

lemma retry_run_success:
  "retry_run f n c r \<Longrightarrow> fst r = Inr x \<Longrightarrow> \<exists>c c'. f c = Some (Inr x, c')"
  by (induction rule: retry_run.induct) auto

text \<open>C12: sending a transaction always returns, also when the chain never includes it and however the
  remotes behave, and when it reports success a configured remote has shown the transaction in a block
  with code zero.\<close>

theorem Tx_returns:
  assumes "clock_doc sdk" "retry_doc sdk"
  shows "\<exists>x c'. Tx sdk lc ms c = Some (x, c') \<and> (\<forall>res. x = Inr res \<longrightarrow> included sdk lc res)"
proof -
  let ?f = "attempt sdk lc (execMessages lc ms)"
  have "\<forall>c. ?f c \<noteq> None" using attempt_returns [OF assms(1), of lc "execMessages lc ms"] by fastforce
  then obtain r where r: "sdk_Retry sdk 5 ?f c = Some r" "retry_run ?f 5 c r"
    using assms(2) unfolding retry_doc_def by (meson zero_less_numeral)
  have "included sdk lc res" if x: "fst r = Inr res" for res
  proof -
    obtain c0 c1 where "?f c0 = Some (Inr res, c1)" using retry_run_success [OF r(2) x] by blast
    then show ?thesis using attempt_returns [OF assms(1), of lc "execMessages lc ms" c0] by auto
  qed
  then show ?thesis using r(1) by (cases r) (auto simp: Tx_def)
qed

section \<open>Which grants are enough\<close>

definition live :: "int \<Rightarrow> int option \<Rightarrow> bool" where
  "live now x \<longleftrightarrow> (\<forall>t. x = Some t \<longrightarrow> now < t)"

lemma no_problem_expiry: "fst (note_expiry now e1 e2 x n) = [] \<longleftrightarrow> fst n = [] \<and> live now x"
  by (auto simp: note_expiry_def add_problem_def add_warning_def live_def split: option.splits)

lemma no_problem_grant:
  "fst (note_grant now grants url n) = [] \<longleftrightarrow>
    fst n = [] \<and> gs_Found (grants url) \<and> live now (gs_Expiry (grants url))"
  by (auto simp: note_grant_def no_problem_expiry add_problem_def)

lemma no_problem_coin:
  "fst (note_coin limit coin n) = [] \<longleftrightarrow> fst n = [] \<and> (AmountOf limit (fst coin) = 0 \<longrightarrow> snd coin \<le> 0)"
  by (auto simp: note_coin_def add_problem_def add_warning_def Let_def)

lemma no_problem_each:
  assumes "\<And>x n. fst (f x n) = [] \<longleftrightarrow> fst n = [] \<and> P x"
  shows "fst (for_each f xs n) = [] \<longleftrightarrow> fst n = [] \<and> (\<forall>x \<in> set xs. P x)"
  by (induction xs arbitrary: n) (auto simp: assms)

lemma no_problem_allowance:
  "fst (note_allowance now a minSpend n) = [] \<longleftrightarrow> fst n = [] \<and>
    (\<forall>x. ExpiresAt a = Inr x \<longrightarrow> live now x) \<and>
    (\<forall>limit. SpendLimit a = Some limit \<longrightarrow> (\<forall>coin \<in> set minSpend. AmountOf limit (fst coin) = 0 \<longrightarrow> snd coin \<le> 0))"
  by (auto simp: note_allowance_def Let_def no_problem_expiry no_problem_each [OF no_problem_coin]
      split: sum.splits option.splits)

text \<open>The allowance that pays: the one inside an allowance limited to messages, when that one covers the
  only message a hot key sends.\<close>

fun paying :: "fee_allowance option \<Rightarrow> fee_allowance option" where
  "paying (Some (AllowedMsgAllowance ms (Inr a) x)) = (if ExecMsgTypeURL \<in> set ms then Some a else None)"
| "paying (Some (AllowedMsgAllowance ms (Inl e) x)) = None"
| "paying a = a"


lemma demo_date: "fmt_RFC3339 (1790899200 * second) = ''2026-10-02T00:00:00Z''"
  by code_simp


section \<open>A chain for worked examples\<close>

text \<open>Two remotes, the first of which is down. The world is a clock; the chain holds one session, takes
  every transaction and never shows it in a block.\<close>

definition held_session :: chain_session where
  "held_session = \<lparr>cs_ID = 7, cs_AccAddress = ''sent1'', cs_NodeAddress = ''sentnode1'', cs_Status = StatusActive,
    cs_StatusAt = 0, cs_DownloadBytes = 0, cs_UploadBytes = 0, cs_TotalBytes = 0, cs_MaxBytes = 0, cs_Duration = 0,
    cs_SubscriptionID = None\<rparr>"

fun demo_retry :: "nat \<Rightarrow> (int \<Rightarrow> ('a result \<times> int) option) \<Rightarrow> int \<Rightarrow> ('a result \<times> int) option" where
  "demo_retry 0 f c = None"
| "demo_retry (Suc n) f c =
    (case f c of
       Some (Inl e, c') \<Rightarrow> if n = 0 then Some (Inl e, c') else demo_retry n f c'
     | r \<Rightarrow> r)"

definition demo_sdk :: "int sdk" where
  "demo_sdk =
    \<lparr>sdk_NewRPC = (\<lambda>r _. if r = ''down'' then Inl ''refused'' else ok), sdk_AccString = (\<lambda>_. ''sent1''),
     sdk_Account = (\<lambda>_ _ c. (Inr [], c)), sdk_UnpackAccount = (\<lambda>_. Inr \<lparr>acc_AccountNumber = 1, acc_Sequence = 2\<rparr>),
     sdk_QueryNode = (\<lambda>_ _ c. (Inr [], c)),
     sdk_QuerySession = (\<lambda>_ i c. (if i = 7 then Inr [] else Inl \<lparr>ge_Code = 5, ge_Msg = ''not found''\<rparr>, c)),
     sdk_UnpackSession = (\<lambda>_. Inr held_session),
     sdk_QuerySubscription = (\<lambda>_ _ c. (Inl \<lparr>ge_Code = 5, ge_Msg = ''not found''\<rparr>, c)),
     sdk_QueryAllocation = (\<lambda>_ _ _ c. (Inl \<lparr>ge_Code = 5, ge_Msg = ''not found''\<rparr>, c)),
     sdk_NodeStatusTimeout = (\<lambda>_ c. (Inr (3600 * second), c)), sdk_SessionStatusTimeout = (\<lambda>_ c. (Inr (7200 * second), c)),
     sdk_SessionsForAccount = (\<lambda>_ _ c. (Inr [], c)), sdk_Grants = (\<lambda>_ _ _ _ c. (Inr [], c)),
     sdk_NoAuthorizationFound = ''authorization not found'', sdk_Allowances = (\<lambda>_ _ c. (Inr [], c)),
     sdk_UnpackAllowance = (\<lambda>_. Inl ''unknown''), sdk_CalculateGas = (\<lambda>_ _ _ c. (Inr 100000, c)),
     sdk_BuildUnsignedTx = (\<lambda>_ _. Inr [1]), sdk_Sign = (\<lambda>_ _ b. Inr b), sdk_TxEncoder = Inr,
     sdk_BroadcastTx = (\<lambda>_ _ c. (Inr \<lparr>txr_Code = 0, txr_TxHash = ''AB'', txr_RawLog = []\<rparr>, c)),
     sdk_QueryTx = (\<lambda>_ _ c. (Inl ''not found'', c)), sdk_ErrTxInMempoolCache = 19, sdk_Now = (\<lambda>c. c),
     sdk_Sleep = (\<lambda>d c. c + d), sdk_Retry = demo_retry\<rparr>"

definition demo_client :: lite_client where
  "demo_client = WithRemotes [''down'', ''up''] (WithTxTimeout 30 (WithQueryTimeout 10 NewClient))"

lemma demo_retry_run:
  "0 < n \<Longrightarrow> \<forall>c. f c \<noteq> None \<Longrightarrow> \<exists>r. demo_retry n f c = Some r \<and> retry_run f n c r"
proof (induction n f c rule: demo_retry.induct)
  case (2 n f c)
  obtain x c' where f: "f c = Some (x, c')" using "2.prems"(2) by fastforce
  show ?case
  proof (cases x)
    case (Inr a)
    then show ?thesis using f retry_success [of f c a c' n] by auto
  next
    case (Inl e)
    show ?thesis
    proof (cases n)
      case 0
      then show ?thesis using f Inl retry_last [of f c e c' e] by auto
    next
      case (Suc m)
      then obtain r where "demo_retry n f c' = Some r" "retry_run f n c' r"
        using "2.IH" [OF f _ Inl] "2.prems"(2) f Inl by auto
      then show ?thesis using f Inl Suc retry_again [of f c e c' m c' r] by auto
    qed
  qed
qed simp

lemma session_query_exact_witness:
  "fst (QuerySession demo_sdk demo_client 7 0) = Inr (Some held_session) \<and>
   fst (QuerySession demo_sdk demo_client 8 0) = Inr None"
proof -
  have h: "honest_remotes demo_sdk (lc_remotes demo_client) (\<lambda>_ i. if i = 7 then Some held_session else None)"
    by (simp add: honest_remotes_def demo_sdk_def)
  have u: "''up'' \<in> set (lc_remotes demo_client)" "remote_up demo_sdk demo_client ''up''"
    by (auto simp: demo_client_def WithRemotes_def remote_up_def demo_sdk_def split: if_splits)
  show ?thesis using session_query_exact [OF h u, of 7 0] session_query_exact [OF h u, of 8 0] by simp
qed

lemma Tx_returns_witness:
  "\<exists>x c'. Tx demo_sdk demo_client [MsgUpdateNodeStatus [] StatusActive] 0 = Some (x, c') \<and>
    (\<forall>res. x = Inr res \<longrightarrow> included demo_sdk demo_client res)"
proof (rule Tx_returns)
  show "clock_doc demo_sdk" by (simp add: clock_doc_def demo_sdk_def)
  have "sdk_Retry demo_sdk = demo_retry" by (simp add: demo_sdk_def)
  then show "retry_doc demo_sdk" unfolding retry_doc_def using demo_retry_run by metis
qed

end
