(* ===== verification/Bandwidth.thy ===== *)
theory Bandwidth
  imports Config Host Json Lite
begin

text \<open>
  The bandwidth a node advertises, package \<^verbatim>\<open>libs/bandwidth\<close>: the selection of speed-test servers, the
  aggregation of the samples, the cached measurement and the prober over the speed-test library. The
  library is a record of calls. Rates are \<^verbatim>\<open>float64\<close> values; a division or product rounds by the
  processor's rounding, which is a parameter, and so is the conversion of a value that no \<^verbatim>\<open>int64\<close> holds.
\<close>

section \<open>Rates\<close>

record fpu =
  fp_round :: "rat \<Rightarrow> f64"
  fp_convert :: "f64 \<Rightarrow> int"

fun f64_div :: "fpu \<Rightarrow> f64 \<Rightarrow> f64 \<Rightarrow> f64" where
  "f64_div fp (Fin a) (Fin b) =
    (if b \<noteq> 0 then fp_round fp (a / b) else if a = 0 then NaN else if 0 < a then PosInf else NegInf)"
| "f64_div fp PosInf (Fin b) = (if b < 0 then NegInf else PosInf)"
| "f64_div fp NegInf (Fin b) = (if b < 0 then PosInf else NegInf)"
| "f64_div fp (Fin a) PosInf = Fin 0"
| "f64_div fp (Fin a) NegInf = Fin 0"
| "f64_div fp _ _ = NaN"

text \<open>A product with a positive constant.\<close>

fun f64_scale :: "fpu \<Rightarrow> f64 \<Rightarrow> rat \<Rightarrow> f64" where
  "f64_scale fp (Fin a) k = fp_round fp (a * k)"
| "f64_scale fp x k = x"

definition rat_trunc :: "rat \<Rightarrow> int" where
  "rat_trunc a = (if 0 \<le> a then \<lfloor>a\<rfloor> else \<lceil>a\<rceil>)"

definition f64_int64 :: "fpu \<Rightarrow> f64 \<Rightarrow> int" where
  "f64_int64 fp x = (case x of Fin a \<Rightarrow> if in_i64 (rat_trunc a) then rat_trunc a else fp_convert fp x | _ \<Rightarrow> fp_convert fp x)"

definition bytesPerMegabit :: rat where
  "bytesPerMegabit = 125000"

definition BytesPerSecond :: "fpu \<Rightarrow> f64 \<Rightarrow> int" where
  "BytesPerSecond fp mbps = f64_int64 fp (f64_scale fp mbps bytesPerMegabit)"

definition Mbps :: "fpu \<Rightarrow> f64 \<Rightarrow> f64" where
  "Mbps fp x = f64_div fp x (Fin bytesPerMegabit)"

abbreviation millisecond :: int where
  "millisecond \<equiv> 1000000"

definition sameFacilityFloor :: int where "sameFacilityFloor = 2 * millisecond"
definition sameBuildingFloor :: int where "sameBuildingFloor = 1 * millisecond"
definition refineBatch :: nat where "refineBatch = 10"
definition refineLimit :: nat where "refineLimit = 30"
definition wantQualifying :: nat where "wantQualifying = 3"
definition maxQualifying :: nat where "maxQualifying = 5"
definition maxSamples :: nat where "maxSamples = 3"

text \<open>The nearest \<^verbatim>\<open>float64\<close> to 0.7.\<close>

definition agreementRatio :: f64 where
  "agreementRatio = Fin (3152519739159347 / 4503599627370496)"

section \<open>Servers and samples\<close>

record candidate =
  ca_ID :: string
  ca_Name :: string
  ca_Sponsor :: string
  ca_Country :: string
  ca_Host :: string
  ca_Latency :: int
  ca_MinLatency :: int

record sample =
  sa_Candidate :: candidate
  sa_Upload :: f64
  sa_Download :: f64

record bw_result =
  br_Upload :: int
  br_Download :: int
  br_Source :: string

record 'w prober =
  pr_Candidates :: "'w \<Rightarrow> candidate list result \<times> 'w"
  pr_Refine :: "candidate list \<Rightarrow> 'w \<Rightarrow> candidate list \<times> 'w"
  pr_Measure :: "candidate \<Rightarrow> 'w \<Rightarrow> sample result \<times> 'w"
  pr_Stopped :: "'w \<Rightarrow> bool"

definition sortByLatency :: "candidate list \<Rightarrow> candidate list" where
  "sortByLatency cs = sort_key ca_Latency cs"

definition countClearing :: "candidate list \<Rightarrow> int \<Rightarrow> nat" where
  "countClearing cs lo = length (filter (\<lambda>c. lo \<le> ca_MinLatency c) cs)"

definition server_key :: "candidate \<Rightarrow> string" where
  "server_key c = to_lower (ca_Sponsor c @ ''|'' @ ca_Name c)"

text \<open>The loop keeps the keys it has seen, the list and the rejected servers.\<close>

fun shortlist_from ::
  "int \<Rightarrow> candidate list \<Rightarrow> string set \<Rightarrow> candidate list \<Rightarrow> candidate list \<Rightarrow> candidate list \<times> candidate list"
where
  "shortlist_from lo [] seen xs rejected = (xs, rejected)"
| "shortlist_from lo (c # cs) seen xs rejected =
    (if ca_MinLatency c < lo then shortlist_from lo cs seen xs (rejected @ [c])
     else if server_key c \<in> seen then shortlist_from lo cs seen xs rejected
     else if length (xs @ [c]) = maxQualifying then (xs @ [c], rejected)
     else shortlist_from lo cs (insert (server_key c) seen) (xs @ [c]) rejected)"

definition shortlist :: "candidate list \<Rightarrow> int \<Rightarrow> candidate list \<times> candidate list" where
  "shortlist cs lo = shortlist_from lo cs {} [] []"

definition minF :: "f64 \<Rightarrow> f64 \<Rightarrow> f64" where
  "minF a b = (if f64_less a b then a else b)"

definition maxF :: "f64 \<Rightarrow> f64 \<Rightarrow> f64" where
  "maxF a b = (if f64_less b a then a else b)"

definition fold_range :: "(f64 \<Rightarrow> f64 \<Rightarrow> f64) \<Rightarrow> (sample \<Rightarrow> f64) \<Rightarrow> sample list \<Rightarrow> f64" where
  "fold_range f pick ss = foldl (\<lambda>m s. f m (pick s)) (pick (hd ss)) (tl ss)"

definition agree :: "fpu \<Rightarrow> sample list \<Rightarrow> bool" where
  "agree fp ss \<longleftrightarrow> 2 \<le> length ss \<and>
    f64_le agreementRatio (f64_div fp (fold_range minF sa_Upload ss) (fold_range maxF sa_Upload ss)) \<and>
    f64_le agreementRatio (f64_div fp (fold_range minF sa_Download ss) (fold_range maxF sa_Download ss))"

definition minSample :: "sample list \<Rightarrow> (sample \<Rightarrow> f64) \<Rightarrow> f64" where
  "minSample ss pick = foldl (\<lambda>m s. if f64_less (pick s) m then pick s else m) (pick (hd ss)) (tl ss)"

section \<open>The measurement\<close>

definition none_result :: bw_result where
  "none_result = \<lparr>br_Upload = 0, br_Download = 0, br_Source = ''none''\<rparr>"

text \<open>The nearest servers are refined in batches, until enough of them clear the floor.\<close>

function refine_from :: "'w prober \<Rightarrow> candidate list \<Rightarrow> candidate list \<Rightarrow> 'w \<Rightarrow> candidate list \<times> 'w" where
  "refine_from p cs refined w =
    (if cs = [] then (refined, w)
     else
       (case pr_Refine p (take refineBatch cs) w of (answers, w) \<Rightarrow>
         let refined = refined @ filter (\<lambda>c. 0 < ca_Latency c \<and> 0 < ca_MinLatency c) answers in
         if wantQualifying \<le> countClearing refined sameFacilityFloor \<or> pr_Stopped p w then (refined, w)
         else refine_from p (drop refineBatch cs) refined w))"
  by pat_completeness auto
termination
  by (relation "measure (\<lambda>(p, cs, refined, w). length cs)") (auto simp: refineBatch_def)

declare refine_from.simps [simp del]

fun sample_from :: "fpu \<Rightarrow> 'w prober \<Rightarrow> candidate list \<Rightarrow> sample list \<Rightarrow> 'w \<Rightarrow> sample list \<times> 'w" where
  "sample_from fp p [] samples w = (samples, w)"
| "sample_from fp p (c # cs) samples w =
    (if pr_Stopped p w then (samples, w)
     else
       (case pr_Measure p c w of
          (Inl e, w) \<Rightarrow> sample_from fp p cs samples w
        | (Inr s, w) \<Rightarrow>
           if f64_le (sa_Upload s) (Fin 0) \<or> f64_le (sa_Download s) (Fin 0) then sample_from fp p cs samples w
           else
             (let samples = samples @ [s] in
              if maxSamples \<le> length samples \<or> agree fp samples then (samples, w)
              else sample_from fp p cs samples w)))"

text \<open>The servers to measure: those that clear the floor, or else the lower floor.\<close>

definition to_measure :: "candidate list \<Rightarrow> candidate list" where
  "to_measure refined =
    (let cs = fst (shortlist refined sameFacilityFloor) in
     if cs = [] then fst (shortlist refined sameBuildingFloor) else cs)"

definition measure_link :: "fpu \<Rightarrow> 'w prober \<Rightarrow> 'w \<Rightarrow> bw_result \<times> 'w" where
  "measure_link fp p w =
    (case pr_Candidates p w of
       (Inl e, w) \<Rightarrow> (none_result, w)
     | (Inr candidates, w) \<Rightarrow>
        (let reachable = filter (\<lambda>c. 0 < ca_Latency c) candidates in
         if reachable = [] then (none_result, w)
         else
           (case refine_from p (take refineLimit (sortByLatency reachable)) [] w of (refined, w) \<Rightarrow>
             let cs = to_measure (sortByLatency refined) in
             if cs = [] then (none_result, w)
             else
               (case sample_from fp p cs [] w of (samples, w) \<Rightarrow>
                 if samples = [] then (none_result, w)
                 else
                   (\<lparr>br_Upload = f64_int64 fp (minSample samples sa_Upload),
                     br_Download = f64_int64 fp (minSample samples sa_Download), br_Source = ''speedtest''\<rparr>, w)))))"

section \<open>The cache\<close>

definition cacheTTL :: int where
  "cacheTTL = 7 * 24 * 3600 * second"

record cache_entry =
  ce_IP :: string
  ce_Upload :: int
  ce_Download :: int
  ce_MeasuredAt :: int

text \<open>The zero time: the start of year 1.\<close>

definition zero_time :: int where
  "zero_time = - 62135596800 * second"

definition ce_result :: "cache_entry \<Rightarrow> bw_result" where
  "ce_result e = \<lparr>br_Upload = ce_Upload e, br_Download = ce_Download e, br_Source = ''speedtest''\<rparr>"

text \<open>The scanner of \<^verbatim>\<open>encoding/json\<close> and the reader of a time in it are given.\<close>

record decoders =
  jd_value :: "string \<Rightarrow> json result"
  jd_time :: "json \<Rightarrow> int option option"

definition cache_of_json :: "decoders \<Rightarrow> json \<Rightarrow> cache_entry option" where
  "cache_of_json jd v =
    (case as_object (Some v) of
       None \<Rightarrow> None
     | Some obj \<Rightarrow>
        (case (plain_field as_string_ptr [] ''ip'' obj, plain_field as_int_ptr 0 ''upload'' obj,
               plain_field as_int_ptr 0 ''download'' obj, plain_field (jd_time jd) zero_time ''measured_at'' obj) of
           (Some ip, Some up, Some down, Some t) \<Rightarrow>
             Some \<lparr>ce_IP = ip, ce_Upload = up, ce_Download = down, ce_MeasuredAt = t\<rparr>
         | _ \<Rightarrow> None))"

definition cache_path :: "string \<Rightarrow> string" where
  "cache_path home = filepath_Join [home, ''bandwidth.json'']"

definition readCache :: "'o host \<Rightarrow> decoders \<Rightarrow> string \<Rightarrow> 'o \<Rightarrow> cache_entry option" where
  "readCache h jd home w =
    (if home = [] then None
     else
       (case h_ReadFile h (cache_path home) w of
          Inl e \<Rightarrow> None
        | Inr data \<Rightarrow>
           (case jd_value jd data of
              Inl e \<Rightarrow> None
            | Inr v \<Rightarrow>
               (case cache_of_json jd v of
                  None \<Rightarrow> None
                | Some e \<Rightarrow>
                   if ce_Upload e \<le> 0 \<or> ce_Download e \<le> 0 \<or> ce_MeasuredAt e = zero_time then None else Some e))))"

text \<open>\<^verbatim>\<open>json.MarshalIndent\<close> of an entry, with the time cut to a second, and a line end.\<close>

definition cache_text :: "cache_entry \<Rightarrow> string" where
  "cache_text e =
    ''{\<newline>  '' @ json_string ''ip'' @ '': '' @ json_string (ce_IP e) @
    '',\<newline>  '' @ json_string ''upload'' @ '': '' @ fmt_int (ce_Upload e) @
    '',\<newline>  '' @ json_string ''download'' @ '': '' @ fmt_int (ce_Download e) @
    '',\<newline>  '' @ json_string ''measured_at'' @ '': '' @ json_string (fmt_RFC3339 (ce_MeasuredAt e)) @ ''\<newline>}\<newline>''"

definition writeCache :: "'o host \<Rightarrow> string \<Rightarrow> string \<Rightarrow> bw_result \<Rightarrow> int \<Rightarrow> 'o \<Rightarrow> 'o" where
  "writeCache h home ip res now w =
    (if home = [] then w
     else snd (h_WriteFile h (cache_path home)
       (cache_text \<lparr>ce_IP = ip, ce_Upload = br_Upload res, ce_Download = br_Download res,
          ce_MeasuredAt = now div second * second\<rparr>) 384 w))"

record bw_options =
  bo_UploadMbps :: f64
  bo_DownloadMbps :: f64
  bo_IP :: string
  bo_Home :: string

text \<open>The files and the network are two parts of the world.\<close>

definition Measure ::
  "fpu \<Rightarrow> 'o host \<Rightarrow> decoders \<Rightarrow> 'w prober \<Rightarrow> int \<Rightarrow> bw_options \<Rightarrow> 'o \<times> 'w \<Rightarrow> bw_result \<times> 'o \<times> 'w"
where
  "Measure fp h jd p now opts w =
    (if f64_less (Fin 0) (bo_UploadMbps opts) \<and> f64_less (Fin 0) (bo_DownloadMbps opts)
     then (\<lparr>br_Upload = BytesPerSecond fp (bo_UploadMbps opts), br_Download = BytesPerSecond fp (bo_DownloadMbps opts),
            br_Source = ''config''\<rparr>, w)
     else
       (let cached = readCache h jd (bo_Home opts) (fst w);
            mine = (case cached of None \<Rightarrow> None | Some e \<Rightarrow> if ce_IP e = bo_IP opts then Some e else None)
        in case mine of
             Some e \<Rightarrow>
               if time_Sub now (ce_MeasuredAt e) < cacheTTL then (ce_result e, w)
               else
                 (case measure_link fp p (snd w) of (res, v) \<Rightarrow>
                   if br_Source res = ''speedtest''
                   then (res, writeCache h (bo_Home opts) (bo_IP opts) res now (fst w), v)
                   else (ce_result e, fst w, v))
           | None \<Rightarrow>
               (case measure_link fp p (snd w) of (res, v) \<Rightarrow>
                 if br_Source res = ''speedtest''
                 then (res, writeCache h (bo_Home opts) (bo_IP opts) res now (fst w), v)
                 else (res, fst w, v))))"

section \<open>The prober\<close>

text \<open>A speed-test server as the library keeps it; pings and transfers write their results into it.\<close>

record server =
  sv_ID :: string
  sv_Name :: string
  sv_Sponsor :: string
  sv_Country :: string
  sv_Host :: string
  sv_Latency :: int
  sv_MinLatency :: int
  sv_DLSpeed :: f64
  sv_ULSpeed :: f64

record 'w speedtest =
  st_FetchServerList :: "'w \<Rightarrow> server list result \<times> 'w"
  st_Ping :: "server \<Rightarrow> 'w \<Rightarrow> unit result \<times> server \<times> 'w"
  st_Download :: "server \<Rightarrow> 'w \<Rightarrow> unit result \<times> server \<times> 'w"
  st_Upload :: "server \<Rightarrow> 'w \<Rightarrow> unit result \<times> server \<times> 'w"
  st_Reset :: "'w \<Rightarrow> 'w"
  st_Wait :: "'w \<Rightarrow> 'w"
  st_Stopped :: "'w \<Rightarrow> bool"

record 'w ookla =
  oo_servers :: "string \<rightharpoonup> server"
  oo_world :: 'w

definition candidateOf :: "server \<Rightarrow> candidate" where
  "candidateOf s = \<lparr>ca_ID = sv_ID s, ca_Name = sv_Name s, ca_Sponsor = sv_Sponsor s, ca_Country = sv_Country s,
    ca_Host = sv_Host s, ca_Latency = sv_Latency s, ca_MinLatency = sv_MinLatency s\<rparr>"

definition oo_Candidates :: "'w speedtest \<Rightarrow> 'w ookla \<Rightarrow> candidate list result \<times> 'w ookla" where
  "oo_Candidates st p =
    (case st_FetchServerList st (oo_world p) of
       (Inl e, w) \<Rightarrow> (Inl e, p\<lparr>oo_world := w\<rparr>)
     | (Inr xs, w) \<Rightarrow>
        (Inr (map candidateOf xs),
         p\<lparr>oo_servers := for_each (\<lambda>s m. m(sv_ID s \<mapsto> s)) xs (oo_servers p), oo_world := w\<rparr>))"

text \<open>The pings run in parallel and write only their own server and their own place in the answer.\<close>

definition refine_one :: "'w speedtest \<Rightarrow> candidate \<Rightarrow> 'w ookla \<Rightarrow> candidate \<times> 'w ookla" where
  "refine_one st c p =
    (case oo_servers p (ca_ID c) of
       None \<Rightarrow> (c\<lparr>ca_Latency := - 1\<rparr>, p)
     | Some s \<Rightarrow>
        (case st_Ping st s (oo_world p) of (r, s', w) \<Rightarrow>
          ((case r of Inl e \<Rightarrow> (candidateOf s)\<lparr>ca_Latency := - 1\<rparr> | Inr _ \<Rightarrow> candidateOf s'),
           p\<lparr>oo_servers := (oo_servers p)(ca_ID c \<mapsto> s'), oo_world := w\<rparr>)))"

fun oo_Refine :: "'w speedtest \<Rightarrow> candidate list \<Rightarrow> 'w ookla \<Rightarrow> candidate list \<times> 'w ookla" where
  "oo_Refine st [] p = ([], p)"
| "oo_Refine st (c # cs) p =
    (case refine_one st c p of (x, p) \<Rightarrow> (case oo_Refine st cs p of (xs, p) \<Rightarrow> (x # xs, p)))"

definition oo_Measure :: "'w speedtest \<Rightarrow> candidate \<Rightarrow> 'w ookla \<Rightarrow> sample result \<times> 'w ookla" where
  "oo_Measure st c p =
    (case oo_servers p (ca_ID c) of
       None \<Rightarrow> (Inl (''unknown server '' @ ca_ID c), p)
     | Some s \<Rightarrow>
        (case st_Download st s (st_Reset st (oo_world p)) of
           (Inl e, s, w) \<Rightarrow> (Inl e, p\<lparr>oo_servers := (oo_servers p)(ca_ID c \<mapsto> s), oo_world := w\<rparr>)
         | (Inr _, s, w) \<Rightarrow>
            (case st_Upload st s (st_Wait st w) of
               (Inl e, s, w) \<Rightarrow> (Inl e, p\<lparr>oo_servers := (oo_servers p)(ca_ID c \<mapsto> s), oo_world := w\<rparr>)
             | (Inr _, s, w) \<Rightarrow>
                (Inr \<lparr>sa_Candidate = c, sa_Upload = sv_ULSpeed s, sa_Download = sv_DLSpeed s\<rparr>,
                 p\<lparr>oo_servers := (oo_servers p)(ca_ID c \<mapsto> s), oo_world := st_Wait st w\<rparr>))))"

definition ooklaProber :: "'w speedtest \<Rightarrow> 'w ookla prober" where
  "ooklaProber st = \<lparr>pr_Candidates = oo_Candidates st, pr_Refine = oo_Refine st, pr_Measure = oo_Measure st,
    pr_Stopped = (\<lambda>p. st_Stopped st (oo_world p))\<rparr>"

section \<open>What is measured\<close>

text \<open>The short list: servers off the host's network, one per sponsor and city, five at most.\<close>

lemma shortlist_from_spec:
  assumes "shortlist_from lo cs seen xs rej = (ys, rej')"
    and "seen = server_key ` set xs" "distinct (map server_key xs)" "\<forall>c \<in> set xs. lo \<le> ca_MinLatency c"
      "length xs < maxQualifying"
  shows "distinct (map server_key ys) \<and> (\<forall>c \<in> set ys. lo \<le> ca_MinLatency c) \<and> length ys \<le> maxQualifying"
  using assms
proof (induction lo cs seen xs rej rule: shortlist_from.induct)
  case (2 lo c cs seen xs rej)
  show ?case
  proof (cases "ca_MinLatency c < lo \<or> server_key c \<in> seen")
    case True
    then show ?thesis using "2.IH"(1,2) "2.prems" by (auto split: if_splits)
  next
    case False
    then have d: "distinct (map server_key (xs @ [c]))" "\<forall>d \<in> set (xs @ [c]). lo \<le> ca_MinLatency d"
      using "2.prems" by auto
    show ?thesis
    proof (cases "length (xs @ [c]) = maxQualifying")
      case True
      then have "ys = xs @ [c]" using False "2.prems"(1) by simp
      then show ?thesis using d True by simp
    next
      case shorter: False
      then have "shortlist_from lo cs (insert (server_key c) seen) (xs @ [c]) rej = (ys, rej')"
        using False "2.prems"(1) by simp
      from "2.IH"(3) [OF _ _ shorter this] show ?thesis using False d "2.prems"(2,5) shorter by auto
    qed
  qed
qed simp

lemma to_measure_spec:
  "distinct (map server_key (to_measure cs)) \<and> (\<forall>c \<in> set (to_measure cs). sameBuildingFloor \<le> ca_MinLatency c) \<and>
    length (to_measure cs) \<le> 5"
proof -
  have *: "distinct (map server_key (fst (shortlist cs lo))) \<and> (\<forall>c \<in> set (fst (shortlist cs lo)). lo \<le> ca_MinLatency c) \<and>
      length (fst (shortlist cs lo)) \<le> maxQualifying" for lo
    using shortlist_from_spec [of lo cs "{}" "[]" "[]"]
    by (cases "shortlist_from lo cs {} [] []") (auto simp: shortlist_def maxQualifying_def)
  have "sameBuildingFloor \<le> sameFacilityFloor" by (simp add: sameFacilityFloor_def sameBuildingFloor_def)
  then show ?thesis
    using * [of sameFacilityFloor] * [of sameBuildingFloor]
    by (auto simp: to_measure_def Let_def maxQualifying_def intro: order_trans)
qed

text \<open>A prober that keeps a list of what was measured and with what result.\<close>

type_synonym bw_log = "(candidate \<times> sample result) list"

definition watched :: "'w prober \<Rightarrow> ('w \<times> bw_log) prober" where
  "watched p =
    \<lparr>pr_Candidates = (\<lambda>(w, l). case pr_Candidates p w of (r, w) \<Rightarrow> (r, w, l)),
     pr_Refine = (\<lambda>cs (w, l). case pr_Refine p cs w of (r, w) \<Rightarrow> (r, w, l)),
     pr_Measure = (\<lambda>c (w, l). case pr_Measure p c w of (r, w) \<Rightarrow> (r, w, l @ [(c, r)])),
     pr_Stopped = (\<lambda>(w, l). pr_Stopped p w)\<rparr>"

lemma watched_simps:
  "pr_Candidates (watched p) (w, l) = (case pr_Candidates p w of (r, w) \<Rightarrow> (r, w, l))"
  "pr_Refine (watched p) cs (w, l) = (case pr_Refine p cs w of (r, w) \<Rightarrow> (r, w, l))"
  "pr_Measure (watched p) c (w, l) = (case pr_Measure p c w of (r, w) \<Rightarrow> (r, w, l @ [(c, r)]))"
  "pr_Stopped (watched p) (w, l) = pr_Stopped p w"
  by (simp_all add: watched_def)

lemma refine_from_watched:
  "refine_from (watched p) cs refined (w, l) = (case refine_from p cs refined w of (r, w) \<Rightarrow> (r, w, l))"
proof (induction p cs refined w rule: refine_from.induct)
  case (1 p cs refined w)
  show ?case
    by (subst (1 2) refine_from.simps) (auto simp: watched_simps Let_def "1.IH" split: prod.splits)
qed

text \<open>The samples that count among the results.\<close>

definition usable :: "sample \<Rightarrow> bool" where
  "usable s \<longleftrightarrow> \<not> f64_le (sa_Upload s) (Fin 0) \<and> \<not> f64_le (sa_Download s) (Fin 0)"

definition usable_of :: "bw_log \<Rightarrow> sample list" where
  "usable_of l = filter usable (List.map_filter (\<lambda>(c, r). case r of Inl _ \<Rightarrow> None | Inr s \<Rightarrow> Some s) l)"

lemma usable_of_Cons:
  "usable_of ((c, Inl e) # l) = usable_of l"
  "usable_of ((c, Inr s) # l) = (if usable s then s # usable_of l else usable_of l)"
  by (simp_all add: usable_of_def List.map_filter_simps)

lemma sample_from_log:
  "sample_from fp (watched p) cs ss (w, l) = (ss', w', l') \<Longrightarrow>
    \<exists>es. l' = l @ es \<and> map fst es = take (length es) cs \<and> ss' = ss @ usable_of es \<and>
      (\<forall>e \<in> set es. \<exists>c w w'. pr_Measure p c w = (snd e, w'))"
proof (induction cs arbitrary: ss w l)
  case Nil
  then show ?case by (simp add: usable_of_def)
next
  case (Cons c cs)
  show ?case
  proof (cases "pr_Stopped p w")
    case True
    then show ?thesis using Cons.prems by (auto simp: watched_simps usable_of_def)
  next
    case False
    obtain r w1 where m: "pr_Measure p c w = (r, w1)" by fastforce
    have here: "\<exists>c w w'. pr_Measure p c w = (r, w')" using m by blast
    have grow: ?thesis if es: "l' = (l @ [(c, r)]) @ es" "map fst es = take (length es) cs"
        "\<forall>e \<in> set es. \<exists>c w w'. pr_Measure p c w = (snd e, w')" "ss' = ss @ usable_of ((c, r) # es)" for es
      using es here by (intro exI [of _ "(c, r) # es"]) simp
    show ?thesis
    proof (cases "\<exists>s. r = Inr s \<and> usable s \<and> (maxSamples \<le> length (ss @ [s]) \<or> agree fp (ss @ [s]))")
      case True
      then show ?thesis using Cons.prems False m
        by (intro grow [of "[]"]) (auto simp: watched_simps usable_def usable_of_Cons usable_of_def Let_def List.map_filter_simps)
    next
      case go_on: False
      define ss1 where "ss1 = (case r of Inl _ \<Rightarrow> ss | Inr s \<Rightarrow> if usable s then ss @ [s] else ss)"
      have "sample_from fp (watched p) cs ss1 (w1, l @ [(c, r)]) = (ss', w', l')"
        using Cons.prems False m go_on
        by (auto simp: watched_simps usable_def ss1_def Let_def split: sum.splits if_splits)
      from Cons.IH [OF this] obtain es where "l' = (l @ [(c, r)]) @ es" "map fst es = take (length es) cs"
        "ss' = ss1 @ usable_of es" "\<forall>e \<in> set es. \<exists>c w w'. pr_Measure p c w = (snd e, w')" by blast
      then show ?thesis by (intro grow) (auto simp: ss1_def usable_of_Cons split: sum.splits)
    qed
  qed
qed

section \<open>The lowest sample counts\<close>

lemma minSample_fold:
  assumes "\<forall>s \<in> set ss. \<exists>a. pick s = Fin a"
  shows "\<exists>m'. foldl (\<lambda>m s. if f64_less (pick s) m then pick s else m) (Fin m) ss = Fin m' \<and> m' \<le> m \<and>
    (m' = m \<or> (\<exists>s \<in> set ss. pick s = Fin m')) \<and> (\<forall>s \<in> set ss. \<forall>a. pick s = Fin a \<longrightarrow> m' \<le> a)"
  using assms
proof (induction ss arbitrary: m)
  case (Cons s ss)
  obtain a where a: "pick s = Fin a" using Cons.prems by auto
  have "\<forall>s \<in> set ss. \<exists>a. pick s = Fin a" using Cons.prems by auto
  from Cons.IH [OF this, of "if a < m then a else m"] obtain m' where
    m': "foldl (\<lambda>m s. if f64_less (pick s) m then pick s else m) (Fin (if a < m then a else m)) ss = Fin m'"
      "m' \<le> (if a < m then a else m)" "m' = (if a < m then a else m) \<or> (\<exists>s \<in> set ss. pick s = Fin m')"
      "\<forall>s \<in> set ss. \<forall>a. pick s = Fin a \<longrightarrow> m' \<le> a" by blast
  show ?case
  proof (intro exI [of _ m'] conjI)
    show "foldl (\<lambda>m s. if f64_less (pick s) m then pick s else m) (Fin m) (s # ss) = Fin m'"
      using m'(1) a by (cases "a < m") auto
    show "m' \<le> m" using m'(2) by (cases "a < m") auto
    show "m' = m \<or> (\<exists>t \<in> set (s # ss). pick t = Fin m')" using m'(3) a by (cases "a < m") auto
    show "\<forall>t \<in> set (s # ss). \<forall>b. pick t = Fin b \<longrightarrow> m' \<le> b" using m'(2,4) a by (cases "a < m") auto
  qed
qed simp

lemma minSample_least:
  assumes "ss \<noteq> []" "\<forall>s \<in> set ss. \<exists>a. pick s = Fin a \<and> a < 2 ^ 63"
  shows "\<exists>m. minSample ss pick = Fin m \<and> m < 2 ^ 63 \<and> (\<exists>s \<in> set ss. pick s = Fin m) \<and>
    (\<forall>s \<in> set ss. \<forall>a. pick s = Fin a \<longrightarrow> m \<le> a)"
proof -
  obtain s t where ss: "ss = s # t" using assms(1) by (cases ss) auto
  obtain a where a: "pick s = Fin a" "a < 2 ^ 63" using assms(2) ss by auto
  have "\<forall>s \<in> set t. \<exists>a. pick s = Fin a" using assms(2) ss by fastforce
  from minSample_fold [OF this, of a] obtain m where
    m: "minSample ss pick = Fin m" "m \<le> a" "m = a \<or> (\<exists>s \<in> set t. pick s = Fin m)"
      "\<forall>s \<in> set t. \<forall>a. pick s = Fin a \<longrightarrow> m \<le> a" by (auto simp: minSample_def ss a(1))
  then have "\<exists>s \<in> set ss. pick s = Fin m" using a ss by auto
  moreover have "\<forall>s \<in> set ss. \<forall>a. pick s = Fin a \<longrightarrow> m \<le> a" using m a ss by auto
  ultimately show ?thesis using m(1,2) a(2) by (intro exI [of _ m]) auto
qed

lemma f64_int64_le:
  assumes "0 < m" "m < 2 ^ 63"
  shows "of_int (f64_int64 fp (Fin m)) \<le> m"
proof -
  have "\<lfloor>m\<rfloor> < 2 ^ 63" using assms(2) by (simp add: floor_less_iff)
  moreover have "0 \<le> \<lfloor>m\<rfloor>" using assms(1) by simp
  ultimately have "in_i64 \<lfloor>m\<rfloor>" by (simp add: in_i64_def)
  then show ?thesis using assms(1) by (simp add: f64_int64_def rat_trunc_def)
qed

text \<open>The library reports rates as finite numbers of bytes per second.\<close>

definition rates_doc :: "'w prober \<Rightarrow> bool" where
  "rates_doc p \<longleftrightarrow> (\<forall>c w s w'. pr_Measure p c w = (Inr s, w') \<longrightarrow>
    (\<exists>u d. sa_Upload s = Fin u \<and> u < 2 ^ 63 \<and> sa_Download s = Fin d \<and> d < 2 ^ 63))"

lemma usable_of_mem:
  "s \<in> set (usable_of l) \<longleftrightarrow> usable s \<and> (\<exists>c. (c, Inr s) \<in> set l)"
  by (induction l) (auto simp: usable_of_def List.map_filter_simps split: sum.splits)


text \<open>Two servers off the host's network and one inside it; the two disagree, so both count.\<close>

definition demo_server :: "string \<Rightarrow> int \<Rightarrow> candidate" where
  "demo_server name t = \<lparr>ca_ID = name, ca_Name = name, ca_Sponsor = ''s'', ca_Country = ''c'', ca_Host = ''h'',
    ca_Latency = t, ca_MinLatency = t\<rparr>"

definition demo_prober :: "unit prober" where
  "demo_prober =
    \<lparr>pr_Candidates = (\<lambda>w. (Inr [demo_server ''a'' 9000000, demo_server ''b'' 500000, demo_server ''d'' 3000000], w)),
     pr_Refine = (\<lambda>cs w. (cs, w)),
     pr_Measure = (\<lambda>c w. (Inr \<lparr>sa_Candidate = c, sa_Upload = Fin (of_int (min (ca_Latency c) 10000000)), sa_Download = Fin 50\<rparr>, w)),
     pr_Stopped = (\<lambda>w. False)\<rparr>"

definition demo_fpu :: fpu where
  "demo_fpu = \<lparr>fp_round = Fin, fp_convert = (\<lambda>_. 0)\<rparr>"

lemma demo_link:
  "measure_link demo_fpu (watched demo_prober) ((), []) =
    (\<lparr>br_Upload = 3000000, br_Download = 50, br_Source = ''speedtest''\<rparr>, (),
     [(demo_server ''d'' 3000000, Inr \<lparr>sa_Candidate = demo_server ''d'' 3000000, sa_Upload = Fin 3000000, sa_Download = Fin 50\<rparr>),
      (demo_server ''a'' 9000000, Inr \<lparr>sa_Candidate = demo_server ''a'' 9000000, sa_Upload = Fin 9000000, sa_Download = Fin 50\<rparr>)])"
  by code_simp


end
