(* ===== verification/GeoIP.thy ===== *)
theory GeoIP
  imports Config Json
begin

text \<open>
  The node's public address and location, package \<^verbatim>\<open>libs/geoip\<close>: the lookup services with what each
  answer is read as, the chain of services of the automatic mode, and the operator's static values. The
  HTTP transport is a function that is given; JSON text is read by the decoder record. Letters are
  compared and raised as ASCII.
\<close>

section \<open>Locations and providers\<close>

record location =
  loc_IP :: string
  loc_City :: string
  loc_Country :: string
  loc_CountryCode :: string
  loc_Latitude :: f64
  loc_Longitude :: f64
  loc_Source :: string

definition zero_location :: location where
  "zero_location = \<lparr>loc_IP = [], loc_City = [], loc_Country = [], loc_CountryCode = [], loc_Latitude = Fin 0,
    loc_Longitude = Fin 0, loc_Source = []\<rparr>"

definition to_upper :: "string \<Rightarrow> string" where
  "to_upper s = map (\<lambda>c. if 97 \<le> char_code c \<and> char_code c \<le> 122 then char_of (char_code c - 32) else c) s"

definition EqualFold :: "string \<Rightarrow> string \<Rightarrow> bool" where
  "EqualFold a b \<longleftrightarrow> to_lower a = to_lower b"

record geo_decoders =
  gd_value :: "string \<Rightarrow> json result"
  gd_float :: "json \<Rightarrow> f64 option option"
  gd_ParseFloat :: "string \<Rightarrow> f64"

abbreviation string_field :: "string \<Rightarrow> (string \<times> json) list \<Rightarrow> string option" where
  "string_field \<equiv> plain_field as_string_ptr []"

abbreviation float_field :: "geo_decoders \<Rightarrow> string \<Rightarrow> (string \<times> json) list \<Rightarrow> f64 option" where
  "float_field gd \<equiv> plain_field (gd_float gd) (Fin 0)"

fun as_bool_ptr :: "json \<Rightarrow> bool option option" where
  "as_bool_ptr JNull = Some None"
| "as_bool_ptr (JBool b) = Some (Some b)"
| "as_bool_ptr _ = None"

definition body_object :: "geo_decoders \<Rightarrow> string \<Rightarrow> (string \<times> json) list result" where
  "body_object gd r =
    (case gd_value gd r of
       Inl e \<Rightarrow> Inl e
     | Inr v \<Rightarrow> (case as_object (Some v) of None \<Rightarrow> Inl ''json: cannot unmarshal'' | Some obj \<Rightarrow> Inr obj))"

text \<open>The fields four of the services share, under the names each uses.\<close>

definition full_location ::
  "geo_decoders \<Rightarrow> string \<Rightarrow> string \<Rightarrow> string \<Rightarrow> string \<Rightarrow> string \<Rightarrow> string \<Rightarrow> (string \<times> json) list \<Rightarrow> location option"
where
  "full_location gd ip city country code lat lon obj =
    (case (string_field ip obj, string_field city obj, string_field country obj, string_field code obj,
           float_field gd lat obj, float_field gd lon obj) of
       (Some a, Some b, Some c, Some d, Some x, Some y) \<Rightarrow>
         Some (zero_location\<lparr>loc_IP := a, loc_City := b, loc_Country := c, loc_CountryCode := d,
           loc_Latitude := x, loc_Longitude := y\<rparr>)
     | _ \<Rightarrow> None)"

definition parseIPWhois :: "geo_decoders \<Rightarrow> string \<Rightarrow> location result" where
  "parseIPWhois gd r =
    rbind (body_object gd r) (\<lambda>obj.
      case (full_location gd ''ip'' ''city'' ''country'' ''country_code'' ''latitude'' ''longitude'' obj,
            plain_field as_bool_ptr False ''success'' obj, string_field ''message'' obj) of
        (Some loc, Some success, Some message) \<Rightarrow>
          if \<not> success then Inl (''lookup failed: '' @ message) else Inr loc
      | _ \<Rightarrow> Inl ''json: cannot unmarshal'')"

text \<open>The error object is a pointer: \<^verbatim>\<open>null\<close> or absent is none.\<close>

fun as_error_ptr :: "json \<Rightarrow> (int \<times> string) option option" where
  "as_error_ptr JNull = Some None"
| "as_error_ptr (JObj obj) =
    (case (plain_field as_int_ptr 0 ''error_code'' obj, string_field ''error_message'' obj) of
       (Some c, Some m) \<Rightarrow> Some (Some (c, m))
     | _ \<Rightarrow> None)"
| "as_error_ptr _ = None"

definition parseIP2Location :: "geo_decoders \<Rightarrow> string \<Rightarrow> location result" where
  "parseIP2Location gd r =
    rbind (body_object gd r) (\<lambda>obj.
      case (full_location gd ''ip'' ''city_name'' ''country_name'' ''country_code'' ''latitude'' ''longitude'' obj,
            ptr_field as_error_ptr ''error'' obj) of
        (Some loc, Some None) \<Rightarrow> Inr loc
      | (Some loc, Some (Some (c, m))) \<Rightarrow> Inl (''lookup failed: '' @ fmt_int c @ '' '' @ m)
      | _ \<Rightarrow> Inl ''json: cannot unmarshal'')"

text \<open>\<^verbatim>\<open>bufio.Scanner\<close>: the lines without their ends; a line of 64 KiB or more is an error.\<close>

definition drop_cr :: "string \<Rightarrow> string" where
  "drop_cr l = (if l \<noteq> [] \<and> last l = CHR 0x0D then butlast l else l)"

definition scan_lines :: "string \<Rightarrow> string list" where
  "scan_lines s = (let ls = split_on (CHR 0x0A) s in map drop_cr (if last ls = [] then butlast ls else ls))"

definition too_long :: "string \<Rightarrow> bool" where
  "too_long s \<longleftrightarrow> (\<exists>l \<in> set (split_on (CHR 0x0A) s). 65536 \<le> length l)"

definition cloudflare_line :: "string \<Rightarrow> location \<Rightarrow> location" where
  "cloudflare_line l loc =
    (case cut_at (CHR ''='') (trim_space l) of
       None \<Rightarrow> loc
     | Some (key, v) \<Rightarrow>
        if key = ''ip'' then loc\<lparr>loc_IP := v\<rparr>
        else if key = ''loc'' \<and> v \<noteq> [] \<and> v \<noteq> ''XX'' then loc\<lparr>loc_CountryCode := to_upper v\<rparr>
        else loc)"

definition parseCloudflare :: "string \<Rightarrow> location result" where
  "parseCloudflare r =
    (if too_long r then Inl ''bufio.Scanner: token too long''
     else
       (let loc = for_each cloudflare_line (scan_lines r) zero_location in
        if loc_IP loc = [] then Inl ''no ip= line in the response'' else Inr loc))"

definition parseIPify :: "geo_decoders \<Rightarrow> string \<Rightarrow> location result" where
  "parseIPify gd r =
    rbind (body_object gd r) (\<lambda>obj.
      case string_field ''ip'' obj of
        None \<Rightarrow> Inl ''json: cannot unmarshal''
      | Some ip \<Rightarrow> Inr (zero_location\<lparr>loc_IP := ip\<rparr>))"

definition parseIPAPI :: "geo_decoders \<Rightarrow> string \<Rightarrow> location result" where
  "parseIPAPI gd r =
    rbind (body_object gd r) (\<lambda>obj.
      case full_location gd ''query'' ''city'' ''country'' ''countrycode'' ''lat'' ''lon'' obj of
        None \<Rightarrow> Inl ''json: cannot unmarshal''
      | Some loc \<Rightarrow> Inr loc)"

definition parseIPInfo :: "geo_decoders \<Rightarrow> string \<Rightarrow> location result" where
  "parseIPInfo gd r =
    rbind (body_object gd r) (\<lambda>obj.
      case (string_field ''ip'' obj, string_field ''city'' obj, string_field ''country'' obj,
            string_field ''country_code'' obj, string_field ''loc'' obj) of
        (Some ip, Some city, Some country, Some code, Some l) \<Rightarrow>
          (let loc = zero_location\<lparr>loc_IP := ip, loc_City := city, loc_Country := country,
                 loc_CountryCode := if code = [] \<and> length country = 2 then to_upper country else code\<rparr>
           in Inr (case cut_at (CHR '','') l of
                     None \<Rightarrow> loc
                   | Some (lat, lon) \<Rightarrow> loc\<lparr>loc_Latitude := gd_ParseFloat gd lat, loc_Longitude := gd_ParseFloat gd lon\<rparr>))
      | _ \<Rightarrow> Inl ''json: cannot unmarshal'')"

section \<open>Requests\<close>

record geo_request =
  gr_URL :: string
  gr_Authorization :: "string option"
  gr_Key :: "string option"

definition bearer :: "string \<Rightarrow> geo_request \<Rightarrow> geo_request" where
  "bearer token req = req\<lparr>gr_Authorization := Some (''Bearer '' @ token)\<rparr>"

definition queryKey :: "string \<Rightarrow> geo_request \<Rightarrow> geo_request" where
  "queryKey token req = req\<lparr>gr_Key := Some token\<rparr>"

record provider =
  pv_name :: string
  pv_source :: string
  pv_auth :: "(string \<Rightarrow> geo_request \<Rightarrow> geo_request) option"
  pv_parse :: "geo_decoders \<Rightarrow> string \<Rightarrow> location result"

definition providers :: "provider list" where
  "providers =
    [\<lparr>pv_name = ''ipwhois'', pv_source = ''ipwho.is'', pv_auth = None, pv_parse = parseIPWhois\<rparr>,
     \<lparr>pv_name = ''ip2location'', pv_source = ''ip2location.io'', pv_auth = Some queryKey, pv_parse = parseIP2Location\<rparr>,
     \<lparr>pv_name = ''cloudflare'', pv_source = ''cloudflare'', pv_auth = None, pv_parse = (\<lambda>gd. parseCloudflare)\<rparr>,
     \<lparr>pv_name = ''ipify'', pv_source = ''ipify'', pv_auth = None, pv_parse = parseIPify\<rparr>,
     \<lparr>pv_name = ''ip-api'', pv_source = ''ip-api'', pv_auth = None, pv_parse = parseIPAPI\<rparr>,
     \<lparr>pv_name = ''ipinfo'', pv_source = ''ipinfo'', pv_auth = Some bearer, pv_parse = parseIPInfo\<rparr>]"

definition provider_of :: "string \<Rightarrow> provider option" where
  "provider_of name = find (\<lambda>p. pv_name p = name) providers"

definition defaultURLs :: "(string \<times> string) list" where
  "defaultURLs =
    [(''ipwhois'', ''https://ipwho.is/''), (''ip2location'', ''https://api.ip2location.io/''),
     (''cloudflare'', ''https://www.cloudflare.com/cdn-cgi/trace''), (''ipify'', ''https://api.ipify.org?format=json''),
     (''ip-api'', ''http://ip-api.com/json''), (''ipinfo'', ''https://api.ipinfo.io/lite/me'')]"

definition defaultURL :: "string \<Rightarrow> string" where
  "defaultURL name = (case map_of defaultURLs name of None \<Rightarrow> [] | Some u \<Rightarrow> u)"

text \<open>The transport: status and body of the answer, or an error.\<close>

type_synonym 'w geo_transport = "geo_request \<Rightarrow> 'w \<Rightarrow> (nat \<times> string) result \<times> 'w"

definition fetch ::
  "'w geo_transport \<Rightarrow> geo_decoders \<Rightarrow> string \<Rightarrow> string \<Rightarrow> string \<Rightarrow> 'w \<Rightarrow> location result \<times> 'w"
where
  "fetch http gd name url token w =
    (case provider_of name of
       None \<Rightarrow> (Inl (''unknown geoip provider '' @ name), w)
     | Some p \<Rightarrow>
        (let url = (if url = [] then defaultURL name else url);
             req = \<lparr>gr_URL = url, gr_Authorization = None, gr_Key = None\<rparr>
         in if url_Parse url = None then (Inl ''invalid url'', w)
            else
              (case http (case pv_auth p of Some auth \<Rightarrow> if token \<noteq> [] then auth token req else req | None \<Rightarrow> req) w of
                 (Inl e, w) \<Rightarrow> (Inl e, w)
               | (Inr (status, body), w) \<Rightarrow>
                  if status \<noteq> 200
                  then (Inl (''geoip source '' @ pv_source p @ '' returned HTTP '' @ itoa status), w)
                  else
                    (case pv_parse p gd (take 1048576 body) of
                       Inl e \<Rightarrow> (Inl (''geoip source '' @ pv_source p @ '': '' @ e), w)
                     | Inr loc \<Rightarrow> (Inr (loc\<lparr>loc_Source := pv_source p\<rparr>), w)))))"

section \<open>The lookup\<close>

record geo_options =
  go_Provider :: string
  go_URL :: string
  go_Token :: string
  go_IP :: string
  go_City :: string
  go_Country :: string
  go_Latitude :: f64
  go_Longitude :: f64

definition autoChain :: "string list" where
  "autoChain = [''ipwhois'', ''ip2location'']"

fun first_full :: "'w geo_transport \<Rightarrow> geo_decoders \<Rightarrow> string list \<Rightarrow> 'w \<Rightarrow> location option \<times> 'w" where
  "first_full http gd [] w = (None, w)"
| "first_full http gd (name # names) w =
    (case fetch http gd name [] [] w of
       (Inl e, w) \<Rightarrow> first_full http gd names w
     | (Inr l, w) \<Rightarrow> if loc_CountryCode l = [] then first_full http gd names w else (Some l, w))"

text \<open>The cross-check asks Cloudflare in any case; a disagreement is only logged.\<close>

definition lookupAuto :: "'w geo_transport \<Rightarrow> geo_decoders \<Rightarrow> geo_options \<Rightarrow> 'w \<Rightarrow> location result \<times> 'w" where
  "lookupAuto http gd opts w =
    (case first_full http gd autoChain w of (found, w) \<Rightarrow>
      case fetch http gd ''cloudflare'' [] [] w of (cf, w) \<Rightarrow>
        (case (found, cf) of
           (Some loc, _) \<Rightarrow> (Inr loc, w)
         | (None, Inr l) \<Rightarrow> (Inr l, w)
         | (None, Inl e) \<Rightarrow>
            (case fetch http gd ''ipify'' [] [] w of
               (Inr l, w) \<Rightarrow> (Inr l, w)
             | (Inl e, w) \<Rightarrow>
                if go_IP opts \<noteq> [] then (Inr (zero_location\<lparr>loc_IP := go_IP opts, loc_Source := ''none''\<rparr>), w)
                else (Inl ''every geoip source failed and node.ipv4_address is not set'', w))))"

definition static_country :: "geo_options \<Rightarrow> location \<Rightarrow> location" where
  "static_country opts loc =
    (let same = (EqualFold (go_Country opts) (loc_Country loc) \<or> EqualFold (go_Country opts) (loc_CountryCode loc)) in
     loc\<lparr>loc_Country := go_Country opts,
       loc_CountryCode := if length (go_Country opts) = 2 then to_upper (go_Country opts)
         else if \<not> same then [] else loc_CountryCode loc\<rparr>)"

text \<open>The comparison with zero is true of a NaN too.\<close>

definition static_place :: "geo_options \<Rightarrow> bool" where
  "static_place opts \<longleftrightarrow> go_Latitude opts \<noteq> Fin 0 \<or> go_Longitude opts \<noteq> Fin 0"

definition applyStatic :: "geo_options \<Rightarrow> location \<Rightarrow> location" where
  "applyStatic opts loc =
    (let a = (if go_Country opts \<noteq> [] then static_country opts loc else loc);
         b = (if go_City opts \<noteq> [] then a\<lparr>loc_City := go_City opts\<rparr> else a);
         c = (if static_place opts then b\<lparr>loc_Latitude := go_Latitude opts, loc_Longitude := go_Longitude opts\<rparr> else b)
     in if go_Country opts \<noteq> [] \<or> go_City opts \<noteq> [] \<or> static_place opts then c\<lparr>loc_Source := ''static''\<rparr> else c)"

definition Location :: "'w geo_transport \<Rightarrow> geo_decoders \<Rightarrow> geo_options \<Rightarrow> 'w \<Rightarrow> location result \<times> 'w" where
  "Location http gd opts w =
    (case (if go_Provider opts = ''none'' then (Inr (zero_location\<lparr>loc_IP := go_IP opts, loc_Source := ''none''\<rparr>), w)
           else if go_Provider opts = ''auto'' then lookupAuto http gd opts w
           else if provider_of (go_Provider opts) = None
           then (Inl (''unknown geoip provider '' @ go_Provider opts), w)
           else fetch http gd (go_Provider opts) (go_URL opts) (go_Token opts) w) of
       (Inl e, w) \<Rightarrow> (Inl e, w)
     | (Inr loc, w) \<Rightarrow> (Inr (applyStatic opts loc), w))"

section \<open>Where a token goes\<close>

text \<open>A transport that keeps the requests it was given.\<close>

definition recorded :: "'w geo_transport \<Rightarrow> ('w \<times> geo_request list) geo_transport" where
  "recorded http req w = (case http req (fst w) of (r, v) \<Rightarrow> (r, v, snd w @ [req]))"

definition bare :: "geo_request \<Rightarrow> bool" where
  "bare req \<longleftrightarrow> gr_Authorization req = None \<and> gr_Key req = None"

text \<open>One fetch makes one request at most, and a token is in it only for the two services that take one.\<close>

lemma fetch_requests:
  assumes "fetch (recorded http) gd name url token (w, rs) = (r, w', rs')"
  shows "\<exists>new. rs' = rs @ new \<and> length new \<le> 1 \<and> (\<forall>q \<in> set new. (token = [] \<or> name \<notin> {''ipinfo'', ''ip2location''} \<longrightarrow> bare q) \<and>
    gr_URL q = (if url = [] then defaultURL name else url))"
proof (cases "provider_of name")
  case None
  then show ?thesis using assms by (simp add: fetch_def)
next
  case (Some p)
  have p: "p \<in> set providers" "pv_name p = name"
    using Some unfolding provider_of_def find_Some_iff by (auto simp: set_conv_nth)
  have auth: "pv_auth p = None \<or> name \<in> {''ipinfo'', ''ip2location''} \<and> pv_auth p \<in> {Some bearer, Some queryKey}"
    using p by (auto simp: providers_def)
  show ?thesis
    using assms Some auth
    by (auto simp: fetch_def recorded_def Let_def bare_def bearer_def queryKey_def
        split: prod.splits sum.splits option.splits if_splits)
qed

lemma fetch_bare:
  assumes "fetch (recorded http) gd name [] [] (w, rs) = (r, w', rs')"
  shows "\<exists>new. rs' = rs @ new \<and> length new \<le> 1 \<and> (\<forall>q \<in> set new. bare q)"
  using fetch_requests [OF assms] by auto

lemma first_full_bare:
  "first_full (recorded http) gd names (w, rs) = (r, w', rs') \<Longrightarrow>
    \<exists>new. rs' = rs @ new \<and> length new \<le> length names \<and> (\<forall>q \<in> set new. bare q)"
proof (induction names arbitrary: w rs)
  case (Cons name names)
  obtain x v rs1 where f: "fetch (recorded http) gd name [] [] (w, rs) = (x, v, rs1)" by (metis surj_pair)
  from fetch_bare [OF f] obtain a where a: "rs1 = rs @ a" "length a \<le> 1" "\<forall>q \<in> set a. bare q" by blast
  show ?case
  proof (cases "r = None \<or> first_full (recorded http) gd names (v, rs1) = (r, w', rs')")
    case True
    then have "first_full (recorded http) gd names (v, rs1) = (r, w', rs')"
      using Cons.prems f by (auto split: sum.splits if_splits)
    from Cons.IH [OF this] obtain b where "rs' = rs1 @ b" "length b \<le> length names" "\<forall>q \<in> set b. bare q" by blast
    then show ?thesis using a by (intro exI [of _ "a @ b"]) auto
  next
    case False
    then have "rs' = rs1" using Cons.prems f by (auto split: sum.splits if_splits)
    then show ?thesis using a by auto
  qed
qed simp

lemma lookupAuto_bare:
  assumes "lookupAuto (recorded http) gd opts (w, rs) = (r, w', rs')"
  shows "\<exists>new. rs' = rs @ new \<and> length new \<le> 4 \<and> (\<forall>q \<in> set new. bare q)"
proof -
  obtain x v rs1 where a: "first_full (recorded http) gd autoChain (w, rs) = (x, v, rs1)" by (metis surj_pair)
  obtain y u rs2 where b: "fetch (recorded http) gd ''cloudflare'' [] [] (v, rs1) = (y, u, rs2)" by (metis surj_pair)
  obtain z t rs3 where c: "fetch (recorded http) gd ''ipify'' [] [] (u, rs2) = (z, t, rs3)" by (metis surj_pair)
  obtain na where na: "rs1 = rs @ na" "length na \<le> 2" "\<forall>q \<in> set na. bare q"
    using first_full_bare [OF a] by (auto simp: autoChain_def)
  obtain nb where nb: "rs2 = rs1 @ nb" "length nb \<le> 1" "\<forall>q \<in> set nb. bare q" using fetch_bare [OF b] by blast
  obtain nc where nc: "rs3 = rs2 @ nc" "length nc \<le> 1" "\<forall>q \<in> set nc. bare q" using fetch_bare [OF c] by blast
  have "rs' = rs2 \<or> rs' = rs3"
    using assms a b c by (auto simp: lookupAuto_def split: option.splits sum.splits if_splits)
  then show ?thesis
  proof
    assume "rs' = rs2"
    then show ?thesis using na nb by (intro exI [of _ "na @ nb"]) auto
  next
    assume "rs' = rs3"
    then show ?thesis using na nb nc by (intro exI [of _ "na @ nb @ nc"]) auto
  qed
qed

text \<open>C11: a lookup makes at most four requests, and the operator's token is only ever part of a request
  to the configured service, at the address configured or known for it, and only when that service is one
  of the two that take a token.\<close>

theorem geoip_token_confined:
  assumes "Location (recorded http) gd opts (w, []) = (r, w', rs)"
  shows "length rs \<le> 4 \<and> (\<forall>q \<in> set rs. bare q \<or> go_Provider opts \<in> {''ipinfo'', ''ip2location''} \<and>
    gr_URL q = (if go_URL opts = [] then defaultURL (go_Provider opts) else go_URL opts))"
proof (cases "go_Provider opts \<in> {''none'', ''auto''}")
  case True
  then show ?thesis
    using assms lookupAuto_bare [of http gd opts w "[]"]
    by (auto simp: Location_def split: prod.splits sum.splits if_splits)
next
  case False
  show ?thesis
  proof (cases "provider_of (go_Provider opts)")
    case None
    then show ?thesis using assms False by (auto simp: Location_def)
  next
    case (Some p)
    obtain x v rs1 where f: "fetch (recorded http) gd (go_Provider opts) (go_URL opts) (go_Token opts) (w, []) = (x, v, rs1)"
      by (metis surj_pair)
    have "rs = rs1" using assms False Some f by (auto simp: Location_def split: sum.splits)
    then show ?thesis using fetch_requests [OF f] by auto
  qed
qed

text \<open>A static country never leaves a code that contradicts it.\<close>

lemma static_country_code:
  assumes "go_Country opts \<noteq> []"
  shows "loc_CountryCode (applyStatic opts loc) \<in> {[], to_upper (go_Country opts)} \<or>
    loc_CountryCode (applyStatic opts loc) = loc_CountryCode loc \<and>
      (EqualFold (go_Country opts) (loc_Country loc) \<or> EqualFold (go_Country opts) (loc_CountryCode loc))"
  using assms by (auto simp: applyStatic_def static_country_def Let_def)

text \<open>The automatic mode fails only when no service answered and no address is configured.\<close>

lemma lookupAuto_fails:
  assumes "lookupAuto http gd opts w = (Inl e, w')"
  shows "go_IP opts = [] \<and> (\<exists>v e' v'. fetch http gd ''ipify'' [] [] v = (Inl e', v'))"
  using assms by (auto simp: lookupAuto_def split: prod.splits option.splits sum.splits if_splits)

text \<open>A transport that answers nothing but the tokens it needs.\<close>

definition demo_geo :: geo_decoders where
  "demo_geo = \<lparr>gd_value = (\<lambda>_. Inr (JObj [(''ip'', JStr ''192.0.2.1''), (''country'', JStr ''de'')])),
    gd_float = (\<lambda>_. Some None), gd_ParseFloat = (\<lambda>_. Fin 0)\<rparr>"

definition demo_geo_options :: geo_options where
  "demo_geo_options = \<lparr>go_Provider = ''ipinfo'', go_URL = [], go_Token = ''t'', go_IP = [], go_City = [], go_Country = [],
    go_Latitude = Fin 0, go_Longitude = Fin 0\<rparr>"

lemma demo_url: "(url_Parse ''https://api.ipinfo.io/lite/me'' = None) = False"
  by code_simp

lemma demo_upper: "to_upper ''de'' = ''DE''"
  by code_simp

lemma demo_fields:
  "plain_field as_string_ptr [] ''ip'' [(''ip'', JStr ''192.0.2.1''), (''country'', JStr ''de'')] = Some ''192.0.2.1''"
  "plain_field as_string_ptr [] ''city'' [(''ip'', JStr ''192.0.2.1''), (''country'', JStr ''de'')] = Some []"
  "plain_field as_string_ptr [] ''country'' [(''ip'', JStr ''192.0.2.1''), (''country'', JStr ''de'')] = Some ''de''"
  "plain_field as_string_ptr [] ''country_code'' [(''ip'', JStr ''192.0.2.1''), (''country'', JStr ''de'')] = Some []"
  "plain_field as_string_ptr [] ''loc'' [(''ip'', JStr ''192.0.2.1''), (''country'', JStr ''de'')] = Some []"
  by code_simp+

lemma demo_ipinfo:
  "provider_of ''ipinfo'' = Some \<lparr>pv_name = ''ipinfo'', pv_source = ''ipinfo'', pv_auth = Some bearer, pv_parse = parseIPInfo\<rparr>"
  "defaultURL ''ipinfo'' = ''https://api.ipinfo.io/lite/me''"
  by (simp_all add: provider_of_def providers_def defaultURL_def defaultURLs_def)

lemma demo_lookup:
  "Location (recorded (\<lambda>_ w. (Inr (200, []), w))) demo_geo demo_geo_options ((), []) =
    (Inr \<lparr>loc_IP = ''192.0.2.1'', loc_City = [], loc_Country = ''de'', loc_CountryCode = ''DE'', loc_Latitude = Fin 0,
       loc_Longitude = Fin 0, loc_Source = ''ipinfo''\<rparr>, (),
     [\<lparr>gr_URL = ''https://api.ipinfo.io/lite/me'', gr_Authorization = Some ''Bearer t'', gr_Key = None\<rparr>])"
  by (simp add: Location_def fetch_def recorded_def demo_geo_options_def demo_geo_def demo_ipinfo demo_url bearer_def
      parseIPInfo_def body_object_def demo_fields demo_upper zero_location_def applyStatic_def static_place_def Let_def)

lemma geoip_token_confined_witness:
  "\<exists>r q. Location (recorded (\<lambda>_ w. (Inr (200, []), w))) demo_geo demo_geo_options ((), []) = (r, (), [q]) \<and>
    \<not> bare q \<and> gr_URL q = defaultURL ''ipinfo''"
proof -
  let ?q = "\<lparr>gr_URL = ''https://api.ipinfo.io/lite/me'', gr_Authorization = Some ''Bearer t'', gr_Key = None\<rparr>"
  have o: "go_Provider demo_geo_options = ''ipinfo''" "go_URL demo_geo_options = []" by (simp_all add: demo_geo_options_def)
  have nb: "\<not> bare ?q" by (simp add: bare_def)
  then have "gr_URL ?q = defaultURL ''ipinfo''" using geoip_token_confined [OF demo_lookup] o by simp
  then show ?thesis using demo_lookup nb by metis
qed

end
