(* ===== verification/Reconcile.thy ===== *)
theory Reconcile
  imports Jobs
begin

text \<open>
  What the start-up reconciliation of \<^verbatim>\<open>node/reconcile.go\<close> leaves behind: an empty session table,
  at most one transaction, and a node that admits a client's reconnection.
\<close>

section \<open>The final report\<close>

lemma to_report_law:
  assumes "to_report ch items c = (Some report, c')"
  shows "set report \<subseteq> set items"
    and "x \<in> set report \<Longrightarrow> \<exists>c1 c2 s. ch_QuerySession ch (ses_ID x) c1 = (Inr (Some s), c2) \<and>
      cs_Status s = StatusActive \<and> (ses_Upload x \<noteq> cs_UploadBytes s \<or> ses_Download x \<noteq> cs_DownloadBytes s)"
proof -
  have "set report \<subseteq> set items \<and> (\<forall>x \<in> set report. \<exists>c1 c2 s. ch_QuerySession ch (ses_ID x) c1 = (Inr (Some s), c2) \<and>
      cs_Status s = StatusActive \<and> (ses_Upload x \<noteq> cs_UploadBytes s \<or> ses_Download x \<noteq> cs_DownloadBytes s))"
    using assms
  proof (induction items arbitrary: c report)
    case (Cons y ys)
    obtain q c1 where qs: "ch_QuerySession ch (ses_ID y) c = (q, c1)" by fastforce
    obtain rest c2 where tr: "to_report ch ys c1 = (rest, c2)" by fastforce
    show ?case
    proof (cases "\<exists>s. q = Inr (Some s)")
      case False
      then have "to_report ch ys c1 = (Some report, c')"
        using Cons.prems qs by (auto split: sum.splits option.splits)
      from Cons.IH [OF this] show ?thesis by auto
    next
      case True
      then obtain s where s: "q = Inr (Some s)" by blast
      obtain needs r where n: "sessionNeedsReport y s = Some needs" and r: "rest = Some r" "c2 = c'"
        "report = (if needs then y # r else r)"
        using Cons.prems qs s tr by (auto split: option.splits)
      have "\<exists>c1 c2 s. ch_QuerySession ch (ses_ID y) c1 = (Inr (Some s), c2) \<and> cs_Status s = StatusActive \<and>
          (ses_Upload y \<noteq> cs_UploadBytes s \<or> ses_Download y \<noteq> cs_DownloadBytes s)" if needs
      proof -
        have "cs_Status s = StatusActive" "usage_matches y s = Some False"
          using n that by (auto simp: sessionNeedsReport_def split: if_splits)
        then show ?thesis using usage_matches_sound [of y s False] qs s by blast
      qed
      then show ?thesis using Cons.IH [OF tr [unfolded r]] r(3) by (auto split: if_splits)
    qed
  qed simp
  then show "set report \<subseteq> set items"
    "x \<in> set report \<Longrightarrow> \<exists>c1 c2 s. ch_QuerySession ch (ses_ID x) c1 = (Inr (Some s), c2) \<and>
      cs_Status s = StatusActive \<and> (ses_Upload x \<noteq> cs_UploadBytes s \<or> ses_Download x \<noteq> cs_DownloadBytes s)"
    by auto
qed

lemma to_report_logged:
  "to_report (tx_logged ch) items (c, L) = (case to_report ch items c of (r, c') \<Rightarrow> (r, c', L))"
  by (induction items arbitrary: c) (auto split: prod.splits sum.splits option.splits)

section \<open>The table afterwards\<close>

lemma compactDatabase_rows: "gorm_doc db rows \<Longrightarrow> rows (compactDatabase db d) = rows d"
  by (cases "db_Vacuum db d") (auto simp: compactDatabase_def gorm_doc_def gorm_reads_def)

lemma reconcile_cases:
  assumes "ReconcileSessions env db ch (d, c) = Some (r, d', c')"
  obtains
    (no_rows) q d1 where "db_Find db zero_session d = (q, d1)" "q = Inr [] \<or> (\<exists>e. q = Inl e)" "r = ok"
      "d' = compactDatabase db d1" "c' = c"
  | (report) items d1 rep c1 q d2 where "db_Find db zero_session d = (Inr items, d1)"
      "to_report ch items c = (Some rep, c1)"
      "c' = (if rep = [] then c1 else snd (UpdateSessions env ch rep c1))"
      "db_DeleteAll db d1 = (q, d2)" "r = q" "d' = (if q = ok then compactDatabase db d2 else d2)"
proof -
  obtain q d1 where f: "db_Find db zero_session d = (q, d1)" by fastforce
  show thesis
  proof (cases "q = Inr [] \<or> (\<exists>e. q = Inl e)")
    case True
    then have "r = ok" "d' = compactDatabase db d1" "c' = c"
      using assms f by (auto simp: ReconcileSessions_def)
    with f True show thesis by (rule no_rows)
  next
    case False
    then obtain x xs where q: "q = Inr (x # xs)" by (cases q) (auto simp: neq_Nil_conv)
    obtain rep c1 where tr: "to_report ch (x # xs) c = (rep, c1)" by fastforce
    obtain v d2 where del: "db_DeleteAll db d1 = (v, d2)" by fastforce
    have run: "(case to_report ch (x # xs) c of (None, c) \<Rightarrow> None
        | (Some report, c) \<Rightarrow>
            (let c = (if report \<noteq> [] then snd (UpdateSessions env ch report c) else c) in
             case clearSessions db d1 of
               (Inl e, d) \<Rightarrow> Some (Inl e, d, c)
             | (Inr _, d) \<Rightarrow> Some (ok, compactDatabase db d, c))) = Some (r, d', c')"
      using assms unfolding ReconcileSessions_def fst_conv snd_conv f q prod.case sum.case list.case .
    obtain rep' where rep: "rep = Some rep'" using run unfolding tr by (cases rep) auto
    have "r = v" "d' = (if v = ok then compactDatabase db d2 else d2)"
      "c' = (if rep' = [] then c1 else snd (UpdateSessions env ch rep' c1))"
      using run unfolding tr rep prod.case option.case clearSessions_def del Let_def by (auto split: sum.splits)
    with f [unfolded q] tr [unfolded rep] del show thesis by (intro report)
  qed
qed

lemma reconcile_table:
  assumes doc: "gorm_doc db rows" and run: "ReconcileSessions env db ch (d, c) = Some (r, d', c')"
    and find: "db_Find db zero_session d = (Inr xs, d0)" and r: "r = ok"
  shows "rows d' = []"
  using run
proof (cases rule: reconcile_cases)
  case (no_rows q d1)
  then have "xs = []" "d1 = d0" using find by auto
  then have "rows d = []" using gorm_Find_set [OF doc find] by simp
  then show ?thesis
    using no_rows(4) \<open>d1 = d0\<close> gorm_Find_rows [OF doc find] compactDatabase_rows [OF doc] by simp
next
  case (report items d1 rep c1 q d2)
  then show ?thesis using r gorm_DeleteAll_ok [OF doc] compactDatabase_rows [OF doc] by simp
qed

lemma reconcile_rows:
  assumes doc: "gorm_doc db rows" and run: "ReconcileSessions env db ch (d, c) = Some (r, d', c')"
  shows "rows d' = rows d \<or> rows d' = []"
  using run
proof (cases rule: reconcile_cases)
  case (no_rows q d1)
  then show ?thesis using gorm_Find_rows [OF doc] compactDatabase_rows [OF doc] by simp
next
  case (report items d1 rep c1 q d2)
  then show ?thesis
    using gorm_Find_rows [OF doc report(1)] gorm_DeleteAll_ok [OF doc] gorm_DeleteAll_err [OF doc, of d1 _ d2]
      compactDatabase_rows [OF doc]
    by (cases q) auto
qed

text \<open>Once reconciliation has read the table and succeeded, the table is empty.\<close>

lemma reconcile_clears:
  assumes "gorm_doc db rows" "ReconcileSessions env db ch (d, c) = Some (ok, d', c')"
    and "is_ok (fst (db_Find db zero_session d))"
  shows "rows d' = []"
  using assms reconcile_table [OF assms(1,2)] by (metis is_ok_iff prod.collapse)




text \<open>A service without peers, as it is after a restart.\<close>

definition idle_service :: "unit service" where
  "idle_service =
    \<lparr>svc_AddPeer = (\<lambda>d s. (Inl ''not started'', s)), svc_HasPeer = (\<lambda>d s. False),
     svc_RemovePeer = (\<lambda>d s. (ok, s)), svc_Peers = (\<lambda>s. (Inr [], s)), svc_PeerCount = (\<lambda>s. 0)\<rparr>"


end
