(* ===== verification/Start.thy ===== *)
theory Start
  imports Registry Lite Bandwidth GeoIP Reconcile
begin

text \<open>
  Starting and stopping a node, \<^verbatim>\<open>cmd/start.go\<close>: the steps of the start command in the order of the code,
  each with its early returns, then the run of the node and the stop of its service. The configuration
  file, the key ring, the database driver and the run itself are given. A step that panics has the value
  \<^const>\<open>None\<close>. The theory ends with the safety of a node from its start on, whichever protocol it runs.
\<close>

section \<open>Helpers\<close>

text \<open>\<^verbatim>\<open>net.SplitHostPort\<close>, down to the port.\<close>

definition net_SplitHostPort :: "string \<Rightarrow> (string \<times> string) option" where
  "net_SplitHostPort hostport =
    (case last_cut (CHR '':'') hostport of
       None \<Rightarrow> None
     | Some (before, port) \<Rightarrow>
        if has_prefix hostport ''['' then
          (case cut_at (CHR '']'') hostport of
             None \<Rightarrow> None
           | Some (h, rest) \<Rightarrow>
              if rest = CHR '':'' # port \<and> CHR ''['' \<notin> set (tl h) \<and> CHR ''['' \<notin> set rest \<and> CHR '']'' \<notin> set rest
              then Some (tl h, port) else None)
        else if CHR '':'' \<in> set before \<or> CHR ''['' \<in> set hostport \<or> CHR '']'' \<in> set hostport then None
        else Some (before, port))"

definition apiPort :: "string \<Rightarrow> 16 word" where
  "apiPort listenOn =
    (case net_SplitHostPort listenOn of
       None \<Rightarrow> 0
     | Some (_, port) \<Rightarrow> (case parse_uint 16 port of None \<Rightarrow> 0 | Some v \<Rightarrow> of_nat v))"

definition net_JoinHostPort :: "string \<Rightarrow> string \<Rightarrow> string" where
  "net_JoinHostPort host port =
    (if CHR '':'' \<in> set host then ''['' @ host @ '']:'' @ port else host @ '':'' @ port)"

definition hnsdArgs :: "64 word \<Rightarrow> bytes \<Rightarrow> string list" where
  "hnsdArgs peers host =
    [''--log-file'', ''/dev/null'', ''--pool-size'', itoa (unat peers), ''--rs-host'',
     net_JoinHostPort (ip_String host) ''53'']"

text \<open>Durations: the product wraps, the quotient is cut towards zero.\<close>

definition go_quot :: "int \<Rightarrow> int \<Rightarrow> int" where
  "go_quot a b = (if 0 \<le> a then a div b else - (- a div b))"

definition fitting :: "int \<Rightarrow> int" where
  "fitting timeout = go_quot (i64 (timeout * 4)) 5"

definition lowered :: "int \<Rightarrow> int \<Rightarrow> int" where
  "lowered timeout interval = (if 0 < fitting timeout \<and> fitting timeout < interval then fitting timeout else interval)"

section \<open>The environment and the state\<close>

text \<open>The node runs until a stop signal arrives or until it ends by itself.\<close>

datatype node_end = SignalReceived | NodeEnded "unit result"

record ('o, 'c, 'w, 'p, 'd) start_env =
  se_machine :: "'o machine"
  se_sdk :: "'c sdk"
  se_parsers :: "string parsers"
  se_Logger :: "unit result"
  se_ReadConfig :: "string \<Rightarrow> 'o \<Rightarrow> config result"
  se_Key :: "string \<Rightarrow> string \<Rightarrow> string \<Rightarrow> address result"
  se_AccAddress :: "string \<Rightarrow> address result"
  se_NodeString :: "address \<Rightarrow> string"
  se_AddrOf :: "string \<Rightarrow> address"
  se_Now :: int
  se_DecCoins :: "string \<Rightarrow> (string \<times> rat) list result"
  se_FeeAmount :: "rat \<Rightarrow> 64 word \<Rightarrow> f64 \<Rightarrow> int \<Rightarrow> int"
  se_http :: "'w geo_transport"
  se_geo :: geo_decoders
  se_fpu :: fpu
  se_decoders :: decoders
  se_prober :: "'p prober"
  se_users :: user_db
  se_RuntimeDirs :: string
  se_TempDir :: string
  se_euid :: int
  se_Open :: "string \<Rightarrow> 'd \<Rightarrow> unit result \<times> 'd"
  se_Migrate :: "'d \<Rightarrow> unit result \<times> 'd"
  se_db :: "'d database"
  se_Run :: "('o node_service, 'd) node \<times> 'c \<Rightarrow> node_end \<times> ('o node_service, 'd) node \<times> 'c"

record ('o, 'c, 'w, 'p, 'd) start_state =
  ss_config :: config
  ss_protocol :: "'o protocol option"
  ss_service :: "'o node_service option"
  ss_client :: lite_client
  ss_location :: location
  ss_bandwidth :: bw_result
  ss_egress :: egress_policy
  ss_runtime :: "runtime option"
  ss_resolver :: "string list option"
  ss_world :: 'o
  ss_chain :: 'c
  ss_http :: 'w
  ss_probe :: 'p
  ss_db :: 'd

type_synonym 'x cmd = "'x \<Rightarrow> (unit result \<times> 'x) option"

fun run_steps :: "'x cmd list \<Rightarrow> 'x cmd" where
  "run_steps [] s = Some (ok, s)"
| "run_steps (f # fs) s =
    (case f s of
       None \<Rightarrow> None
     | Some (Inl e, s) \<Rightarrow> Some (Inl e, s)
     | Some (Inr _, s) \<Rightarrow> run_steps fs s)"

text \<open>An operation of the service, in the world as it is now.\<close>

definition on_service ::
  "('o node_service \<Rightarrow> unit result \<times> 'o node_service) \<Rightarrow> ('o, 'c, 'w, 'p, 'd) start_state cmd"
where
  "on_service f s =
    (case ss_service s of
       None \<Rightarrow> None
     | Some v \<Rightarrow>
        (case f (ns_set_world (ss_world s) v) of
           (r, v) \<Rightarrow> Some (r, s\<lparr>ss_service := Some v, ss_world := ns_world v\<rparr>)))"

section \<open>The steps\<close>

definition st_config :: "('o, 'c, 'w, 'p, 'd) start_env \<Rightarrow> string \<Rightarrow> bool \<Rightarrow> ('o, 'c, 'w, 'p, 'd) start_state cmd" where
  "st_config env home skip s =
    (case se_Logger env of
       Inl e \<Rightarrow> Some (Inl e, s)
     | Inr _ \<Rightarrow>
        (case se_ReadConfig env (filepath_Join [home, ''config.toml'']) (ss_world s) of
           Inl e \<Rightarrow> Some (Inl e, s)
         | Inr cfg \<Rightarrow>
            Some (if skip then ok else cfg_Validate (se_parsers env) registered cfg, s\<lparr>ss_config := cfg\<rparr>)))"

definition st_service :: "('o, 'c, 'w, 'p, 'd) start_state cmd" where
  "st_service s =
    (case Lookup (nc_Type (cfg_Node (ss_config s))) of
       Inl e \<Rightarrow> Some (Inl e, s)
     | Inr p \<Rightarrow>
        (case pc_New p (ss_world s) of
           Inl e \<Rightarrow> Some (Inl e, s\<lparr>ss_protocol := Some p\<rparr>)
         | Inr v \<Rightarrow> Some (ok, s\<lparr>ss_protocol := Some p, ss_service := Some v\<rparr>)))"

definition new_client :: "config \<Rightarrow> address \<Rightarrow> lite_client" where
  "new_client cfg from =
    (let c = cfg_Chain cfg in
     WithTxTimeout (cc_RPCTxTimeout c)
      (WithSimulateAndExecute (cc_SimulateAndExecute c)
       (WithRemotes (split_on (CHR '','') (cc_RPCAddresses c))
        (WithQueryTimeout (cc_RPCQueryTimeout c)
         (WithGasPrices (cc_GasPrices c)
          (WithGasAdjustment (cc_GasAdjustment c)
           (WithGas (cc_Gas c)
            (WithFromName (kc_From (cfg_Keyring cfg))
             (WithFromAddress from
              (WithChainID (cc_ID c) NewClient))))))))))"

definition st_client :: "('o, 'c, 'w, 'p, 'd) start_env \<Rightarrow> string \<Rightarrow> ('o, 'c, 'w, 'p, 'd) start_state cmd" where
  "st_client env home s =
    (let cfg = ss_config s in
     case se_Key env (kc_Backend (cfg_Keyring cfg)) home (kc_From (cfg_Keyring cfg)) of
       Inl e \<Rightarrow> Some (Inl e, s)
     | Inr from \<Rightarrow> Some (ok, s\<lparr>ss_client := new_client cfg from\<rparr>))"

definition st_granter :: "('o, 'c, 'w, 'p, 'd) start_env \<Rightarrow> ('o, 'c, 'w, 'p, 'd) start_state cmd" where
  "st_granter env s =
    (let granter = kc_Granter (cfg_Keyring (ss_config s)) in
     if granter = [] then Some (ok, s)
     else
       (case se_AccAddress env granter of
          Inl e \<Rightarrow> Some (Inl e, s)
        | Inr g \<Rightarrow>
           if g = FromAddress (ss_client s)
           then Some (Inl ''[keyring] granter is the signing key's own address; leave it empty'', s)
           else Some (ok, s\<lparr>ss_client := WithGranter (Some g) (ss_client s)\<rparr>)))"

definition st_account :: "('o, 'c, 'w, 'p, 'd) start_env \<Rightarrow> ('o, 'c, 'w, 'p, 'd) start_state cmd" where
  "st_account env s =
    (case QueryAccount (se_sdk env) (ss_client s) (FromAddress (ss_client s)) (ss_chain s) of
       (Inl e, c) \<Rightarrow> Some (Inl e, s\<lparr>ss_chain := c\<rparr>)
     | (Inr None, c) \<Rightarrow>
        (let who = sdk_AccString (se_sdk env) (FromAddress (ss_client s)) in
         Some (Inl (if Granter (ss_client s) \<noteq> None
           then ''account '' @ who @ '' does not exist yet; the granter's fee grant creates it (dvpnd keys authz-commands)''
           else ''account does not exist with address '' @ who), s\<lparr>ss_chain := c\<rparr>))
     | (Inr (Some _), c) \<Rightarrow> Some (ok, s\<lparr>ss_chain := c\<rparr>))"

text \<open>Roughly the fees over a time: the transactions of both intervals, at the configured gas and price.\<close>

definition fee_transactions :: "node_config \<Rightarrow> int \<Rightarrow> int" where
  "fee_transactions nc d =
    (\<Sum>i\<leftarrow>[nc_IntervalUpdateStatus nc, nc_IntervalUpdateSessions nc]. if 0 < i then go_quot d i else 0)"

definition expectedFees :: "('o, 'c, 'w, 'p, 'd) start_env \<Rightarrow> config \<Rightarrow> int \<Rightarrow> coins" where
  "expectedFees env cfg d =
    (case se_DecCoins env (cc_GasPrices (cfg_Chain cfg)) of
       Inl e \<Rightarrow> []
     | Inr prices \<Rightarrow>
        filter (\<lambda>coin. snd coin \<noteq> 0)
          (map (\<lambda>(denom, amount). (denom, se_FeeAmount env amount (cc_Gas (cfg_Chain cfg)) (cc_GasAdjustment (cfg_Chain cfg))
             (fee_transactions (cfg_Node cfg) d))) prices))"

definition checkGrants :: "('o, 'c, 'w, 'p, 'd) start_env \<Rightarrow> address \<Rightarrow> ('o, 'c, 'w, 'p, 'd) start_state cmd" where
  "checkGrants env granter s =
    (case CheckGrants (se_sdk env) (ss_client s) granter (se_Now env)
            (expectedFees env (ss_config s) GrantWarningWindow) (ss_chain s) of
       (Inl e, c) \<Rightarrow> Some (Inl e, s\<lparr>ss_chain := c\<rparr>)
     | (Inr (problems, warnings), c) \<Rightarrow>
        Some (if problems \<noteq> []
              then Inl (''the hot key cannot act for the node account: '' @ join ''; '' problems @
                ''; run '' @ quoted ''dvpnd keys authz-commands'' @ '' and make the grants it prints from the node account's wallet'')
              else ok, s\<lparr>ss_chain := c\<rparr>))"

definition st_grants :: "('o, 'c, 'w, 'p, 'd) start_env \<Rightarrow> ('o, 'c, 'w, 'p, 'd) start_state cmd" where
  "st_grants env s =
    (case Granter (ss_client s) of None \<Rightarrow> Some (ok, s) | Some granter \<Rightarrow> checkGrants env granter s)"

definition st_node_params :: "('o, 'c, 'w, 'p, 'd) start_env \<Rightarrow> ('o, 'c, 'w, 'p, 'd) start_state cmd" where
  "st_node_params env s =
    (case QueryNodeParams (se_sdk env) (ss_client s) (ss_chain s) of
       (Inl e, c) \<Rightarrow> Some (Inl e, s\<lparr>ss_chain := c\<rparr>)
     | (Inr None, c) \<Rightarrow> None
     | (Inr (Some t), c) \<Rightarrow>
        (let nc = cfg_Node (ss_config s) in
         Some (ok, s\<lparr>ss_chain := c, ss_config := (ss_config s)\<lparr>cfg_Node :=
           nc\<lparr>nc_IntervalUpdateStatus := lowered t (nc_IntervalUpdateStatus nc)\<rparr>\<rparr>\<rparr>)))"

definition st_session_params :: "('o, 'c, 'w, 'p, 'd) start_env \<Rightarrow> ('o, 'c, 'w, 'p, 'd) start_state cmd" where
  "st_session_params env s =
    (case QuerySessionParams (se_sdk env) (ss_client s) (ss_chain s) of
       (Inl e, c) \<Rightarrow> Some (Inl e, s\<lparr>ss_chain := c\<rparr>)
     | (Inr None, c) \<Rightarrow> None
     | (Inr (Some t), c) \<Rightarrow>
        (let nc = cfg_Node (ss_config s) in
         Some (ok, s\<lparr>ss_chain := c, ss_config := (ss_config s)\<lparr>cfg_Node :=
           nc\<lparr>nc_IntervalUpdateSessions := lowered t (nc_IntervalUpdateSessions nc)\<rparr>\<rparr>\<rparr>)))"

definition st_location :: "('o, 'c, 'w, 'p, 'd) start_env \<Rightarrow> ('o, 'c, 'w, 'p, 'd) start_state cmd" where
  "st_location env s =
    (let g = cfg_GeoIP (ss_config s);
         opts = \<lparr>go_Provider = gc_Provider g, go_URL = gc_URL g, go_Token = gc_Token g,
           go_IP = nc_IPv4Address (cfg_Node (ss_config s)), go_City = gc_City g, go_Country = gc_Country g,
           go_Latitude = gc_Latitude g, go_Longitude = gc_Longitude g\<rparr>
     in case Location (se_http env) (se_geo env) opts (ss_http s) of
          (Inl e, w) \<Rightarrow> Some (Inl e, s\<lparr>ss_http := w\<rparr>)
        | (Inr loc, w) \<Rightarrow> Some (ok, s\<lparr>ss_http := w, ss_location := loc\<rparr>))"

definition st_bandwidth :: "('o, 'c, 'w, 'p, 'd) start_env \<Rightarrow> string \<Rightarrow> ('o, 'c, 'w, 'p, 'd) start_state cmd" where
  "st_bandwidth env home s =
    (let b = cfg_Bandwidth (ss_config s);
         opts = \<lparr>bo_UploadMbps = bw_UploadMbps b, bo_DownloadMbps = bw_DownloadMbps b, bo_IP = loc_IP (ss_location s),
           bo_Home = home\<rparr>
     in case Measure (se_fpu env) (mc_host (se_machine env)) (se_decoders env) (se_prober env) (se_Now env) opts
               (ss_world s, ss_probe s) of
          (res, w, p) \<Rightarrow> Some (ok, s\<lparr>ss_bandwidth := res, ss_world := w, ss_probe := p\<rparr>))"

definition st_egress :: "('o, 'c, 'w, 'p, 'd) start_state cmd" where
  "st_egress s = Some (ok, s\<lparr>ss_egress :=
    \<lparr>eg_AllowSMTP = ec_AllowSMTP (cfg_Egress (ss_config s)), eg_APIPort = apiPort (nc_ListenOn (cfg_Node (ss_config s))),
     eg_Resolver = None\<rparr>\<rparr>)"

definition st_runtime :: "('o, 'c, 'w, 'p, 'd) start_env \<Rightarrow> string \<Rightarrow> ('o, 'c, 'w, 'p, 'd) start_state cmd" where
  "st_runtime env home s =
    (case ss_protocol s of
       None \<Rightarrow> None
     | Some p \<Rightarrow>
        (case PrepareRuntime (mc_host (se_machine env)) (se_users env) (se_RuntimeDirs env) home (se_euid env)
                (pc_Daemon p) (ss_world s) of
           (Inl e, rt, w) \<Rightarrow> Some (Inl e, s\<lparr>ss_world := w\<rparr>)
         | (Inr _, rt, w) \<Rightarrow> Some (ok, s\<lparr>ss_world := w, ss_runtime := Some rt\<rparr>)))"

definition runtime_of :: "('o, 'c, 'w, 'p, 'd) start_env \<Rightarrow> ('o, 'c, 'w, 'p, 'd) start_state \<Rightarrow> runtime" where
  "runtime_of env s = CurrentRuntime (se_TempDir env) (ss_runtime s)"

definition st_Init :: "('o, 'c, 'w, 'p, 'd) start_env \<Rightarrow> string \<Rightarrow> ('o, 'c, 'w, 'p, 'd) start_state cmd" where
  "st_Init env home s = on_service (ns_Init (se_machine env) (runtime_of env s) (ss_egress s) home) s"

definition st_resolver :: "('o, 'c, 'w, 'p, 'd) start_env \<Rightarrow> ('o, 'c, 'w, 'p, 'd) start_state cmd" where
  "st_resolver env s =
    (let cfg = ss_config s; hc = cfg_Handshake cfg in
     if \<not> hc_Enable hc then Some (ok, s)
     else
       (case Option.bind (ss_service s) ns_TunnelIPv4 of
          Some ip \<Rightarrow>
            if is_ok (h_LookPath (mc_host (se_machine env)) ''hnsd'' (ss_world s))
            then Some (ok, s\<lparr>ss_egress := (ss_egress s)\<lparr>eg_Resolver := Some ip\<rparr>\<rparr>)
            else Some (ok, s\<lparr>ss_config := cfg\<lparr>cfg_Handshake := hc\<lparr>hc_Enable := False\<rparr>\<rparr>\<rparr>)
        | None \<Rightarrow> Some (ok, s\<lparr>ss_config := cfg\<lparr>cfg_Handshake := hc\<lparr>hc_Enable := False\<rparr>\<rparr>\<rparr>)))"

definition st_Start :: "('o, 'c, 'w, 'p, 'd) start_env \<Rightarrow> ('o, 'c, 'w, 'p, 'd) start_state cmd" where
  "st_Start env s = on_service (ns_Start (se_machine env) (runtime_of env s) (ss_egress s)) s"

text \<open>The resolver runs next to the node, with these arguments.\<close>

definition st_handshake :: "('o, 'c, 'w, 'p, 'd) start_state cmd" where
  "st_handshake s =
    Some (ok, s\<lparr>ss_resolver :=
      map_option (hnsdArgs (hc_Peers (cfg_Handshake (ss_config s)))) (eg_Resolver (ss_egress s))\<rparr>)"

definition st_database :: "('o, 'c, 'w, 'p, 'd) start_env \<Rightarrow> string \<Rightarrow> ('o, 'c, 'w, 'p, 'd) start_state cmd" where
  "st_database env home s =
    (case se_Open env (filepath_Join [home, ''data.db''] @ ''?_secure_delete=on'') (ss_db s) of
       (Inl e, d) \<Rightarrow> Some (Inl e, s\<lparr>ss_db := d\<rparr>)
     | (Inr _, d) \<Rightarrow> (case se_Migrate env d of (r, d) \<Rightarrow> Some (r, s\<lparr>ss_db := d\<rparr>)))"

definition st_initialize :: "('o, 'c, 'w, 'p, 'd) start_env \<Rightarrow> ('o, 'c, 'w, 'p, 'd) start_state cmd" where
  "st_initialize env s =
    (case Initialize (se_sdk env) (ss_client s) (se_parsers env) (ss_config s) (ss_chain s) of
       None \<Rightarrow> None
     | Some (r, c) \<Rightarrow> Some (r, s\<lparr>ss_chain := c\<rparr>))"

definition node_settings :: "('o, 'c, 'w, 'p, 'd) start_env \<Rightarrow> ('o, 'c, 'w, 'p, 'd) start_state \<Rightarrow> settings" where
  "node_settings env s = \<lparr>set_MaxPeers = qc_MaxPeers (cfg_QOS (ss_config s)),
    set_Address = se_NodeString env (Operator (ss_client s))\<rparr>"

definition node_chain :: "('o, 'c, 'w, 'p, 'd) start_env \<Rightarrow> ('o, 'c, 'w, 'p, 'd) start_state \<Rightarrow> 'c chain" where
  "node_chain env s = contextChain (se_sdk env) (ss_client s) (se_AddrOf env)"

definition st_reconcile :: "('o, 'c, 'w, 'p, 'd) start_env \<Rightarrow> ('o, 'c, 'w, 'p, 'd) start_state cmd" where
  "st_reconcile env s =
    (case ReconcileSessions (node_settings env s) (se_db env) (node_chain env s) (ss_db s, ss_chain s) of
       None \<Rightarrow> None
     | Some (r, d, c) \<Rightarrow> Some (r, s\<lparr>ss_db := d, ss_chain := c\<rparr>))"

text \<open>The steps up to the start of the service, and those after it.\<close>

definition before_start ::
  "('o, 'c, 'w, 'p, 'd) start_env \<Rightarrow> string \<Rightarrow> bool \<Rightarrow> ('o, 'c, 'w, 'p, 'd) start_state cmd list"
where
  "before_start env home skip =
    [st_config env home skip, st_service, st_client env home, st_granter env, st_account env, st_grants env,
     st_node_params env, st_session_params env, st_location env, st_bandwidth env home, st_egress,
     st_runtime env home, st_Init env home, st_resolver env]"

definition after_start ::
  "('o, 'c, 'w, 'p, 'd) start_env \<Rightarrow> string \<Rightarrow> ('o, 'c, 'w, 'p, 'd) start_state cmd list"
where
  "after_start env home =
    [st_handshake, st_database env home, st_initialize env, st_reconcile env]"

definition start_up ::
  "('o, 'c, 'w, 'p, 'd) start_env \<Rightarrow> string \<Rightarrow> bool \<Rightarrow> ('o, 'c, 'w, 'p, 'd) start_state cmd"
where
  "start_up env home skip = run_steps (before_start env home skip @ [st_Start env] @ after_start env home)"

text \<open>The node runs until a signal or an error; then its service is stopped.\<close>

definition StartCmd ::
  "('o, 'c, 'w, 'p, 'd) start_env \<Rightarrow> string \<Rightarrow> bool \<Rightarrow> ('o, 'c, 'w, 'p, 'd) start_state cmd"
where
  "StartCmd env home skip s =
    (case start_up env home skip s of
       Some (Inr _, s) \<Rightarrow>
         (case ss_service s of
            None \<Rightarrow> None
          | Some v \<Rightarrow>
             (case se_Run env (\<lparr>nd_svc = v, nd_db = ss_db s\<rparr>, ss_chain s) of
                (e, n, c) \<Rightarrow>
                  (case ns_Stop (se_machine env) (nd_svc n) of
                     (r, v) \<Rightarrow>
                       Some (case e of NodeEnded (Inl err) \<Rightarrow> Inl err | _ \<Rightarrow> r,
                         s\<lparr>ss_service := Some v, ss_db := nd_db n, ss_chain := c, ss_world := ns_world v\<rparr>))))
     | r \<Rightarrow> r)"

section \<open>What a start-up keeps\<close>

lemma run_steps_append:
  "run_steps (fs @ gs) s =
    (case run_steps fs s of Some (Inr _, s) \<Rightarrow> run_steps gs s | r \<Rightarrow> r)"
  by (induction fs arbitrary: s) (auto split: option.splits sum.splits prod.splits)

text \<open>A property that every step keeps, and that a step of the run sets up, holds when the run succeeds.\<close>

definition keeps :: "('x \<Rightarrow> bool) \<Rightarrow> 'x cmd \<Rightarrow> bool" where
  "keeps P f \<longleftrightarrow> (\<forall>s s'. P s \<longrightarrow> f s = Some (ok, s') \<longrightarrow> P s')"

lemma keepsD: "keeps P f \<Longrightarrow> f s = Some (ok, s') \<Longrightarrow> P s \<Longrightarrow> P s'"
  by (auto simp: keeps_def)

lemma run_steps_ConsE:
  assumes "run_steps (f # fs) s = Some (ok, s')"
  obtains s1 where "f s = Some (ok, s1)" "run_steps fs s1 = Some (ok, s')"
  using assms by (auto split: option.splits sum.splits prod.splits)

lemma run_steps_Cons:
  "run_steps (f # fs) s = Some (ok, s') \<longleftrightarrow> (\<exists>s1. f s = Some (ok, s1) \<and> run_steps fs s1 = Some (ok, s'))"
  by (auto split: option.splits sum.splits prod.splits)

lemma run_steps_keeps:
  "\<forall>f \<in> set fs. keeps P f \<Longrightarrow> P s \<Longrightarrow> run_steps fs s = Some (ok, s') \<Longrightarrow> P s'"
proof (induction fs arbitrary: s)
  case (Cons f fs)
  from Cons.prems(3) obtain s1 where "f s = Some (ok, s1)" "run_steps fs s1 = Some (ok, s')"
    by (rule run_steps_ConsE)
  then show ?case using Cons.IH [of s1] Cons.prems(1,2) keepsD [of P f s s1] by simp
qed simp

text \<open>The configuration was validated, the service has no peers yet, and the stored table is sound.\<close>

definition ready :: "('d \<Rightarrow> session list) \<Rightarrow> ('o, 'c, 'w, 'p, 'd) start_state \<Rightarrow> bool" where
  "ready rows s \<longleftrightarrow>
    (\<exists>v. ss_service s = Some v \<and> ns_empty v) \<and>
    1 \<le> qc_MaxPeers (cfg_QOS (ss_config s)) \<and> qc_MaxPeers (cfg_QOS (ss_config s)) \<le> 250 \<and>
    0 < nc_IntervalUpdateStatus (cfg_Node (ss_config s)) \<and> 0 < nc_IntervalUpdateSessions (cfg_Node (ss_config s)) \<and>
    rows_inv (rows (ss_db s)) \<and> keyed (rows (ss_db s))"

lemma lowered_pos: "0 < i \<Longrightarrow> 0 < lowered t i"
  by (simp add: lowered_def)

text \<open>A step that touches none of these.\<close>

lemma ready_same:
  assumes "ready rows s" "ss_service s' = ss_service s" "ss_config s' = ss_config s" "ss_db s' = ss_db s"
  shows "ready rows s'"
  using assms by (simp add: ready_def)

lemma ready_client_steps:
  "keeps (ready rows) (st_client env home)" "keeps (ready rows) (st_granter env)"
  "keeps (ready rows) (st_account env)" "keeps (ready rows) (st_grants env)"
  by (auto simp: keeps_def st_client_def st_granter_def st_account_def st_grants_def checkGrants_def Let_def
      elim!: ready_same split: option.splits sum.splits prod.splits if_splits)

lemma ready_params_steps:
  "keeps (ready rows) (st_node_params env)" "keeps (ready rows) (st_session_params env)"
  by (auto simp: keeps_def st_node_params_def st_session_params_def Let_def ready_def lowered_pos
      split: option.splits sum.splits prod.splits)

lemma ready_host_steps:
  "keeps (ready rows) (st_location env)" "keeps (ready rows) (st_bandwidth env home)"
  "keeps (ready rows) st_egress" "keeps (ready rows) (st_runtime env home)" "keeps (ready rows) st_handshake"
  by (auto simp: keeps_def st_location_def st_bandwidth_def st_egress_def st_runtime_def st_handshake_def Let_def
      elim!: ready_same split: option.splits sum.splits prod.splits)

lemma ready_resolver: "keeps (ready rows) (st_resolver env)"
  by (auto simp: keeps_def st_resolver_def Let_def ready_def split: option.splits if_splits)

lemma ready_on_service:
  assumes "\<And>v r v'. ns_empty v \<Longrightarrow> f v = (r, v') \<Longrightarrow> ns_empty v'" "ready rows s" "on_service f s = Some (ok, s')"
  shows "ready rows s'"
proof -
  obtain v where v: "ss_service s = Some v" "ns_empty v" using assms(2) by (auto simp: ready_def)
  obtain r v' where f: "f (ns_set_world (ss_world s) v) = (r, v')" by fastforce
  have "ns_empty v'" using assms(1) [OF _ f] v(2) by simp
  then show ?thesis using assms(2,3) v f by (auto simp: on_service_def ready_def)
qed

lemma ready_service_steps:
  "keeps (ready rows) (st_Init env home)" "keeps (ready rows) (st_Start env)"
  unfolding keeps_def st_Init_def st_Start_def
  using ready_on_service ns_Init_empty ns_Start_empty by blast+

lemma ready_initialize: "keeps (ready rows) (st_initialize env)"
  by (auto simp: keeps_def st_initialize_def elim!: ready_same split: option.splits)

lemma ready_database:
  assumes "\<forall>p d r d'. se_Open env p d = (r, d') \<longrightarrow> rows d' = rows d"
    and "\<forall>d r d'. se_Migrate env d = (r, d') \<longrightarrow> rows d' = rows d"
  shows "keeps (ready rows) (st_database env home)"
proof -
  have "rows d' = rows d" if "se_Open env p d = (r, d')" for p d r d' using assms(1) that by blast
  moreover have "rows d' = rows d" if "se_Migrate env d = (r, d')" for d r d' using assms(2) that by blast
  ultimately show ?thesis
    by (auto simp: keeps_def st_database_def ready_def split: sum.splits prod.splits)
qed

lemma ready_reconcile:
  assumes "gorm_doc (se_db env) rows"
  shows "keeps (ready rows) (st_reconcile env)"
  unfolding keeps_def
proof (intro allI impI)
  fix s s' assume P: "ready rows s" and run: "st_reconcile env s = Some (ok, s')"
  then obtain d c where r: "ReconcileSessions (node_settings env s) (se_db env) (node_chain env s) (ss_db s, ss_chain s)
      = Some (ok, d, c)" and s': "s' = s\<lparr>ss_db := d, ss_chain := c\<rparr>"
    by (auto simp: st_reconcile_def split: option.splits)
  from reconcile_rows [OF assms r] show "ready rows s'" using P s' by (auto simp: ready_def keyed_def)
qed

lemma config_checked:
  assumes "st_config env home False s = Some (ok, s')"
  shows "ss_db s' = ss_db s \<and> cfg_Validate (se_parsers env) registered (ss_config s') = ok"
  using assms by (auto simp: st_config_def split: sum.splits)

lemma service_made:
  assumes "st_service s = Some (ok, s')"
  shows "ss_db s' = ss_db s \<and> ss_config s' = ss_config s \<and> (\<exists>v. ss_service s' = Some v \<and> ns_empty v)"
proof -
  obtain p v where p: "Lookup (nc_Type (cfg_Node (ss_config s))) = Inr p" "pc_New p (ss_world s) = Inr v"
    and s': "s' = s\<lparr>ss_protocol := Some p, ss_service := Some v\<rparr>"
    using assms by (auto simp: st_service_def split: sum.splits)
  show ?thesis using s' pc_New_empty [OF conjunct1 [OF Lookup_Inr [OF p(1)]] p(2)] by simp
qed

lemmas ready_steps = ready_client_steps ready_params_steps ready_host_steps ready_resolver ready_service_steps
  ready_initialize

lemma start_ready:
  assumes "gorm_doc (se_db env) rows" "\<forall>p d r d'. se_Open env p d = (r, d') \<longrightarrow> rows d' = rows d"
    and "\<forall>d r d'. se_Migrate env d = (r, d') \<longrightarrow> rows d' = rows d"
    and "rows_inv (rows (ss_db s0))" "keyed (rows (ss_db s0))"
    and run: "start_up env home False s0 = Some (ok, s1)"
  shows "ready rows s1"
proof -
  obtain a b where a: "st_config env home False s0 = Some (ok, a)" and b: "st_service a = Some (ok, b)"
    and r: "run_steps (drop 2 (before_start env home False) @ [st_Start env] @ after_start env home) b = Some (ok, s1)"
    using run by (auto simp: start_up_def before_start_def run_steps_Cons simp del: run_steps.simps)
  have "1 \<le> qc_MaxPeers (cfg_QOS (ss_config a)) \<and> qc_MaxPeers (cfg_QOS (ss_config a)) \<le> 250 \<and>
      0 < nc_IntervalUpdateStatus (cfg_Node (ss_config a)) \<and> 0 < nc_IntervalUpdateSessions (cfg_Node (ss_config a))"
    by (rule valid_bounds [OF conjunct2 [OF config_checked [OF a]]])
  then have "ready rows b"
    using config_checked [OF a] service_made [OF b] assms(4,5) by (auto simp: ready_def)
  moreover have "list_all (keeps (ready rows)) (drop 2 (before_start env home False) @ [st_Start env] @ after_start env home)"
    by (simp add: before_start_def after_start_def ready_steps ready_database [OF assms(2,3)] ready_reconcile [OF assms(1)])
  ultimately show ?thesis using run_steps_keeps [OF _ _ r] unfolding list_all_iff by blast
qed

text \<open>Only two steps after the configuration was read change the node's settings.\<close>

definition node_config_is :: "node_config \<Rightarrow> ('o, 'c, 'w, 'p, 'd) start_state \<Rightarrow> bool" where
  "node_config_is nc s \<longleftrightarrow> cfg_Node (ss_config s) = nc"

lemma on_service_config: "on_service f s = Some (r, s') \<Longrightarrow> ss_config s' = ss_config s"
  by (auto simp: on_service_def split: option.splits prod.splits)

lemma node_config_host_steps:
  "keeps (node_config_is nc) (st_location env)" "keeps (node_config_is nc) (st_bandwidth env home)"
  "keeps (node_config_is nc) st_egress" "keeps (node_config_is nc) (st_runtime env home)"
  "keeps (node_config_is nc) st_handshake"
  by (auto simp: keeps_def node_config_is_def st_location_def st_bandwidth_def st_egress_def st_runtime_def
      st_handshake_def Let_def split: option.splits sum.splits prod.splits)

lemma node_config_service_steps:
  "keeps (node_config_is nc) (st_Init env home)" "keeps (node_config_is nc) (st_Start env)"
  by (auto simp: keeps_def node_config_is_def st_Init_def st_Start_def dest: on_service_config)

lemma node_config_resolver: "keeps (node_config_is nc) (st_resolver env)"
  by (auto simp: keeps_def node_config_is_def st_resolver_def Let_def split: option.splits if_splits)

lemma node_config_table_steps:
  "keeps (node_config_is nc) (st_database env home)" "keeps (node_config_is nc) (st_initialize env)"
  "keeps (node_config_is nc) (st_reconcile env)"
  by (auto simp: keeps_def node_config_is_def st_database_def st_initialize_def st_reconcile_def
      split: option.splits sum.splits prod.splits)

lemmas node_config_steps =
  node_config_host_steps node_config_service_steps node_config_resolver node_config_table_steps

lemma fitting_fits: "2 \<le> t \<Longrightarrow> in_i64 (t * 4) \<Longrightarrow> 0 < fitting t \<and> 5 * fitting t \<le> 4 * t"
  by (simp add: fitting_def go_quot_def i64_id) presburger

lemma lowered_fits: "2 \<le> t \<Longrightarrow> in_i64 (t * 4) \<Longrightarrow> 5 * lowered t i \<le> 4 * t"
  using fitting_fits [of t] by (auto simp: lowered_def)

lemma node_params_fit:
  assumes "st_node_params env s = Some (ok, s')"
  obtains t c where "QueryNodeParams (se_sdk env) (ss_client s) (ss_chain s) = (Inr (Some t), c)"
    "nc_IntervalUpdateStatus (cfg_Node (ss_config s')) = lowered t (nc_IntervalUpdateStatus (cfg_Node (ss_config s)))"
  using assms by (auto simp: st_node_params_def Let_def split: option.splits sum.splits prod.splits)

lemma session_params_fit:
  assumes "st_session_params env s = Some (ok, s')"
  obtains t c where "QuerySessionParams (se_sdk env) (ss_client s) (ss_chain s) = (Inr (Some t), c)"
    "nc_IntervalUpdateSessions (cfg_Node (ss_config s')) =
      lowered t (nc_IntervalUpdateSessions (cfg_Node (ss_config s)))"
    "nc_IntervalUpdateStatus (cfg_Node (ss_config s')) = nc_IntervalUpdateStatus (cfg_Node (ss_config s))"
  using assms by (auto simp: st_session_params_def Let_def split: option.splits sum.splits prod.splits)

section \<open>Properties\<close>

text \<open>C14: a node whose start-up succeeds updates its status and its sessions at least once within four
  fifths of the chain's timeouts, whatever its operator configured.\<close>

theorem start_fits_chain:
  assumes run: "start_up env home skip s0 = Some (ok, s1)"
    and tn: "\<forall>lc c t c'. QueryNodeParams (se_sdk env) lc c = (Inr (Some t), c') \<longrightarrow> t = tn"
    and ts: "\<forall>lc c t c'. QuerySessionParams (se_sdk env) lc c = (Inr (Some t), c') \<longrightarrow> t = ts"
    and "2 \<le> tn" "in_i64 (tn * 4)" "2 \<le> ts" "in_i64 (ts * 4)"
  shows "5 * nc_IntervalUpdateStatus (cfg_Node (ss_config s1)) \<le> 4 * tn \<and>
    5 * nc_IntervalUpdateSessions (cfg_Node (ss_config s1)) \<le> 4 * ts"
proof -
  obtain a b c where b: "st_node_params env a = Some (ok, b)" and c: "st_session_params env b = Some (ok, c)"
    and r: "run_steps (drop 8 (before_start env home skip) @ [st_Start env] @ after_start env home) c = Some (ok, s1)"
    using run by (auto simp: start_up_def before_start_def run_steps_Cons simp del: run_steps.simps)
  have "node_config_is (cfg_Node (ss_config c)) s1"
    by (rule run_steps_keeps [OF _ _ r])
      (simp add: node_config_steps before_start_def after_start_def, simp add: node_config_is_def)
  then have e: "cfg_Node (ss_config s1) = cfg_Node (ss_config c)" by (simp add: node_config_is_def)
  obtain t1 c1 where 1: "QueryNodeParams (se_sdk env) (ss_client a) (ss_chain a) = (Inr (Some t1), c1)"
    "nc_IntervalUpdateStatus (cfg_Node (ss_config b)) = lowered t1 (nc_IntervalUpdateStatus (cfg_Node (ss_config a)))"
    by (rule node_params_fit [OF b])
  obtain t2 c2 where 2: "QuerySessionParams (se_sdk env) (ss_client b) (ss_chain b) = (Inr (Some t2), c2)"
    "nc_IntervalUpdateSessions (cfg_Node (ss_config c)) =
      lowered t2 (nc_IntervalUpdateSessions (cfg_Node (ss_config b)))"
    "nc_IntervalUpdateStatus (cfg_Node (ss_config c)) = nc_IntervalUpdateStatus (cfg_Node (ss_config b))"
    by (rule session_params_fit [OF c])
  have "t1 = tn" "t2 = ts" using tn ts 1(1) 2(1) by blast+
  then show ?thesis using e 1(2) 2(2,3) lowered_fits assms(4-7) by simp
qed


section \<open>A node that starts\<close>

text \<open>A WireGuard node with the default settings, on a host where every command succeeds.\<close>

definition demo_machine :: "unit machine" where
  "demo_machine =
    \<lparr>mc_host = quiet_host,
     mc_processes = \<lparr>po_Terminate = (\<lambda>_ w. (Signalled, w)), po_Kill = (\<lambda>_ w. (Signalled, w)),
       po_WaitFor = (\<lambda>_ w. (True, w)), po_Wait = (\<lambda>_ w. w)\<rparr>,
     mc_pki = demo_pem, mc_pub = (\<lambda>k. k), mc_sha = (\<lambda>b. b), mc_x25519 = Inr, mc_secret = Inr [], mc_verbose = False,
     mc_tries = 1,
     mc_hysteria = \<lparr>hn_Listen = (\<lambda>_ w. (ok, w)), hn_CloseAuth = (\<lambda>w. w), hn_Do = (\<lambda>_ _ _ _ w. (Inr (200, None), w))\<rparr>,
     mc_wire = varint_wire, mc_xray = demo_xr_api,
     mc_v2ray = \<lparr>gr_NewClient = (\<lambda>_ w. (ok, w)), gr_Close = (\<lambda>w. w), va_AlterInbound = (\<lambda>_ _ w. (ok, w)),
       va_GetStats = (\<lambda>_ w. (Inr None, w)), va_uuid_String = (\<lambda>_. [])\<rparr>,
     mc_ca = demo_ca,
     mc_openvpn = \<lparr>on_Dial = (\<lambda>_ w. (ok, w)), on_Close = (\<lambda>w. w), on_Run = (\<lambda>_ _ w. (Replied [''END''], w))\<rparr>,
     mc_wg_file = (\<lambda>_ _. Inr demo_wg_config), mc_v2_file = (\<lambda>_ _. Inl ''absent''), mc_xr_file = (\<lambda>_ _. Inl ''absent''),
     mc_hy_file = (\<lambda>_ _. Inl ''absent''), mc_aw_file = (\<lambda>_ _. Inl ''absent''), mc_ov_file = (\<lambda>_ _. Inl ''absent'')\<rparr>"

definition demo_config :: config where
  "demo_config = operator_config 5000 ''my-node'' ''1udvpn'' ''2udvpn'' ''https://192.0.2.1:8585''"

definition string_parsers :: "string parsers" where
  "string_parsers = \<lparr>pa_CoinsNormalized = Inr, pa_PricesFromString = Inr, pa_PricesFromCoins = Inr, pa_NoPrices = [],
    pa_AccAddress = (\<lambda>_. ok)\<rparr>"

definition included_sdk :: "int sdk" where
  "included_sdk = demo_sdk\<lparr>sdk_QueryTx := (\<lambda>_ hash c. (Inr \<lparr>txr_Code = 0, txr_TxHash = hash, txr_RawLog = []\<rparr>, c))\<rparr>"

definition demo_env :: "(unit, int, unit, unit, mem) start_env" where
  "demo_env =
    \<lparr>se_machine = demo_machine, se_sdk = included_sdk, se_parsers = string_parsers, se_Logger = ok,
     se_ReadConfig = (\<lambda>_ _. Inr demo_config), se_Key = (\<lambda>_ _ _. Inr [1]), se_AccAddress = (\<lambda>_. Inr [2]),
     se_NodeString = (\<lambda>_. ''sentnode1''), se_AddrOf = (\<lambda>_. [1]), se_Now = 0, se_DecCoins = (\<lambda>_. Inr []),
     se_FeeAmount = (\<lambda>_ _ _ _. 0), se_http = (\<lambda>_ w. (Inr (200, []), w)), se_geo = demo_geo, se_fpu = demo_fpu,
     se_decoders = \<lparr>jd_value = (\<lambda>_. Inl ''absent''), jd_time = (\<lambda>_. None)\<rparr>, se_prober = demo_prober,
     se_users = \<lparr>ud_Lookup = (\<lambda>_. Inl ''unknown user''), ud_LookupGroupId = (\<lambda>_. Inl ''unknown group'')\<rparr>,
     se_RuntimeDirs = ''/run/dvpnd'', se_TempDir = ''/tmp'', se_euid = 0, se_Open = (\<lambda>_ d. (ok, d)), se_Migrate = (\<lambda>d. (ok, d)),
     se_db = mem_db, se_Run = (\<lambda>(n, c). (SignalReceived, n, c))\<rparr>"

definition demo_state :: "(unit, int, unit, unit, mem) start_state" where
  "demo_state =
    \<lparr>ss_config = NewConfig, ss_protocol = None, ss_service = None, ss_client = NewClient, ss_location = zero_location,
     ss_bandwidth = none_result, ss_egress = zero_policy, ss_runtime = None, ss_resolver = None, ss_world = (),
     ss_chain = 0, ss_http = (), ss_probe = (), ss_db = ([], 0)\<rparr>"

lemma demo_config_valid: "cfg_Validate string_parsers registered demo_config = ok"
proof -
  have "nodeTypeKnown registered ''wireguard''"
    by (simp add: registered_def registry_def RegisterNodeType_def nodeTypeKnown_def)
  then show ?thesis unfolding demo_config_def
    by (intro defaults_valid [OF _ _ _ _ _ _ _ demo_remote])
      (simp_all add: string_parsers_def ParsePrices_def Let_def demo_remote_port)
qed

lemma demo_new: "\<exists>t. wg_NewService () = Inr t \<and> wg_preset t = None"
proof -
  obtain t :: "unit wireguard" where t: "wg_NewService () = Inr t"
    by (simp add: wg_NewService_def NewIPv4PoolFromCIDR_def NewIPv6PoolFromCIDR_def ParseCIDR_defaults)
  then show ?thesis by (auto simp: wg_NewService_def rbind_eq_Inr_iff NewVariant_def)
qed

lemma quiet_all: "(\<And>x. f x () = (ok, ())) \<Longrightarrow> for_each_err f xs () = (ok, ())"
  by (induction xs) simp_all

lemma demo_wg_Start: "\<exists>t'. wg_Start quiet_host pol t = (ok, t')" for t :: "unit wireguard"
proof -
  have r: "run_cmd quiet_host tool args () = (ok, ())" for tool args by (simp add: run_cmd_def quiet_host_def)
  have "EnsureForwarding quiet_host () = (ok, ())"
    unfolding EnsureForwarding_def by (rule quiet_all) (simp add: ensure_switch_def quiet_host_def)
  moreover have "tunnel_egress_Up quiet_host pol i () = (ok, ())" for i
    unfolding tunnel_egress_Up_def chains_up_def
    by (rule quiet_all) (simp add: up_family_def quiet_all r up_chain_def up_jump_def)
  ultimately show ?thesis by (simp add: wg_Start_def wg_Start_world_def wgQuick_def r Let_def)
qed

lemma demo_queries:
  assumes "lc_remotes lc = default_rpcs"
  shows "QueryAccount included_sdk lc a c = (Inr (Some \<lparr>acc_AccountNumber = 1, acc_Sequence = 2\<rparr>), c)"
    and "QueryNode included_sdk lc a c = (Inr (Some []), c)"
    and "QueryNodeParams included_sdk lc c = (Inr (Some (3600 * second)), c)"
    and "QuerySessionParams included_sdk lc c = (Inr (Some (7200 * second)), c)"
  using assms
  by (simp_all add: QueryAccount_def QueryNode_def QueryNodeParams_def QuerySessionParams_def query_def default_rpcs_def
      included_sdk_def demo_sdk_def take_answer_def take_params_def)

lemma demo_client_fields:
  "lc_remotes (new_client demo_config from) = default_rpcs" "Granter (new_client demo_config from) = None"
  by (simp_all add: new_client_def Let_def demo_config_def defaults_simps default_rpcs_split WithTxTimeout_def
      WithSimulateAndExecute_def WithRemotes_def WithQueryTimeout_def WithGasPrices_def WithGasAdjustment_def WithGas_def
      WithFromName_def WithFromAddress_def WithChainID_def NewClient_def Granter_def)

lemma demo_Tx:
  assumes "lc_remotes lc = default_rpcs"
  shows "\<exists>r. Tx included_sdk lc ms c = Some (Inr r, c)"
proof -
  have sdk: "sdk_NewRPC included_sdk remote t = (if remote = ''down'' then Inl ''refused'' else ok)"
    "sdk_CalculateGas included_sdk remote txf m c = (Inr 100000, c)" "sdk_BuildUnsignedTx included_sdk txf m = Inr [1]"
    "sdk_Sign included_sdk txf n b = Inr b" "sdk_TxEncoder included_sdk b = Inr b"
    "sdk_BroadcastTx included_sdk remote b c = (Inr \<lparr>txr_Code = 0, txr_TxHash = ''AB'', txr_RawLog = []\<rparr>, c)"
    "sdk_QueryTx included_sdk remote h c = (Inr \<lparr>txr_Code = 0, txr_TxHash = h, txr_RawLog = []\<rparr>, c)"
    "sdk_Retry included_sdk = demo_retry" for remote t txf m c n b h
    by (simp_all add: included_sdk_def demo_sdk_def)
  have "CalculateGas included_sdk lc txf m c = (Inr 100000, c)" for txf m
    using assms by (simp add: CalculateGas_def default_rpcs_def calculateGas_def sdk)
  then obtain txf where "PrepareTxFactory included_sdk lc (execMessages lc ms) c = (Inr txf, c)"
    by (cases "tf_SimulateAndExecute (lc_txf lc)") (simp_all add: PrepareTxFactory_def demo_queries [OF assms] Let_def)
  then show ?thesis
    using assms by (simp add: Tx_def sdk attempt_def tx_def signed_tx_def BroadcastTx_def default_rpcs_def broadcastTx_def
        waitForTx_def wait_until.simps eval_nat_numeral)
qed

lemma demo_location:
  "\<exists>l. Location (\<lambda>_ w. (Inr (200, []), w)) demo_geo opts () = (Inr l, ())" if "go_Provider opts = ''auto''"
proof -
  have u: "(url_Parse ''https://api.ipify.org?format=json'' = None) = False" by code_simp
  obtain l where "fetch (\<lambda>_ w. (Inr (200, []), w)) demo_geo ''ipify'' [] [] () = (Inr l, ())"
    by (simp add: fetch_def provider_of_def providers_def defaultURL_def defaultURLs_def u parseIPify_def
        body_object_def demo_geo_def demo_fields)
  then show ?thesis using that
    by (simp add: Location_def lookupAuto_def split: prod.splits sum.splits option.splits)
qed

lemma drop_ok: "drop_response (Some (Inr r, c)) = Some (ok, c)"
  by (simp add: drop_response_def)

lemma demo_initialize:
  assumes "lc_remotes lc = default_rpcs" "nc_GigabytePrices (cfg_Node cfg) = ''1udvpn''"
    "nc_HourlyPrices (cfg_Node cfg) = ''2udvpn''" "nc_RemoteURL (cfg_Node cfg) = ''https://192.0.2.1:8585''"
  shows "Initialize included_sdk lc string_parsers cfg c = Some (ok, c)"
proof -
  have u: "url_Parse ''https://192.0.2.1:8585'' \<noteq> None" by code_simp
  have "\<exists>r. Tx included_sdk lc ms c = Some (Inr r, c)" for ms by (rule demo_Tx [OF assms(1)])
  then have "drop_response (Tx included_sdk lc ms c) = Some (ok, c)" for ms by (metis drop_ok)
  then show ?thesis
    using u assms by (auto simp: Initialize_def demo_queries UpdateNodeInfo_def send_details_def GigabytePrices_def HourlyPrices_def
        RemoteAddrs_def ParsePrices_def string_parsers_def Let_def)
qed

text \<open>What every step from the third on finds and leaves.\<close>

definition demo_settings_at :: "config \<Rightarrow> bool" where
  "demo_settings_at cfg \<longleftrightarrow>
    kc_Granter (cfg_Keyring cfg) = [] \<and> \<not> hc_Enable (cfg_Handshake cfg) \<and> gc_Provider (cfg_GeoIP cfg) = ''auto'' \<and>
    nc_GigabytePrices (cfg_Node cfg) = ''1udvpn'' \<and> nc_HourlyPrices (cfg_Node cfg) = ''2udvpn'' \<and>
    nc_RemoteURL (cfg_Node cfg) = ''https://192.0.2.1:8585''"

definition demo_at :: "(unit, int, unit, unit, mem) start_state \<Rightarrow> bool" where
  "demo_at s \<longleftrightarrow> demo_settings_at (ss_config s) \<and> lc_remotes (ss_client s) = default_rpcs \<and> Granter (ss_client s) = None \<and>
    (\<exists>t. ss_service s = Some (WireGuardService t) \<and> wg_preset t = None) \<and> ss_protocol s \<noteq> None \<and> ss_db s = ([], 0)"

definition demo_step :: "(unit, int, unit, unit, mem) start_state cmd \<Rightarrow> bool" where
  "demo_step f \<longleftrightarrow> (\<forall>s. demo_at s \<longrightarrow> (\<exists>s'. f s = Some (ok, s') \<and> demo_at s'))"

lemma demo_run: "list_all demo_step fs \<Longrightarrow> demo_at s \<Longrightarrow> \<exists>s'. run_steps fs s = Some (ok, s') \<and> demo_at s'"
proof (induction fs arbitrary: s)
  case (Cons f fs)
  then obtain s1 where "f s = Some (ok, s1)" "demo_at s1" by (auto simp: demo_step_def)
  then show ?case using Cons.IH [of s1] Cons.prems(1) by simp
qed simp

lemma demo_settings_start: "demo_settings_at demo_config"
  unfolding demo_settings_at_def demo_config_def
  by (simp add: defaults_simps gc_WithDefaultValues_def) (simp add: operator_config_def Let_def)

lemma demo_chain_steps:
  "demo_step (st_granter demo_env)" "demo_step (st_account demo_env)" "demo_step (st_grants demo_env)"
  "demo_step (st_node_params demo_env)" "demo_step (st_session_params demo_env)"
  by (auto simp: demo_step_def demo_at_def st_granter_def st_account_def st_grants_def st_node_params_def
      st_session_params_def demo_env_def demo_settings_at_def demo_queries Let_def)

lemma demo_location_step: "demo_step (st_location demo_env)"
proof -
  have "\<exists>l. Location (\<lambda>_ w. (Inr (200, []), w)) demo_geo opts () = (Inr l, ())" if "go_Provider opts = ''auto''" for opts
    by (rule demo_location [OF that])
  then have "\<exists>l. Location (\<lambda>_ w. (Inr (200, []), w)) demo_geo
      \<lparr>go_Provider = ''auto'', go_URL = u, go_Token = k, go_IP = ip, go_City = c, go_Country = n, go_Latitude = x, go_Longitude = y\<rparr> ()
      = (Inr l, ())" for u k ip c n x y by simp
  then show ?thesis
    by (auto simp: demo_step_def demo_at_def st_location_def demo_env_def demo_settings_at_def Let_def split: prod.splits sum.splits)
      (metis Inl_Inr_False Pair_inject)+
qed

lemma demo_host_steps:
  "demo_step (st_bandwidth demo_env home)" "demo_step st_egress" "demo_step (st_runtime demo_env home)"
  "demo_step st_handshake" "demo_step (st_resolver demo_env)" "demo_step (st_database demo_env home)"
  by (auto simp: demo_step_def demo_at_def st_bandwidth_def st_egress_def st_runtime_def st_handshake_def st_resolver_def
      st_database_def demo_env_def demo_machine_def PrepareRuntime_def lookupProxyUser_def quiet_host_def demo_settings_at_def Let_def
      split: prod.splits)

lemma demo_init_preset:
  assumes "wg_preset t = None"
  shows "\<exists>t'. wg_Init quiet_host (\<lambda>_ _. Inr demo_wg_config) (\<lambda>k. k) ''/home'' t = (ok, t') \<and> wg_preset t' = None"
  using demo_wg_config_valid assms demo_wg_config_uplink demo_wg_key by (simp add: wg_Init_def quiet_host_def)

lemma demo_start_preset:
  fixes t :: "unit wireguard"
  assumes "wg_preset t = None"
  shows "\<exists>t'. wg_Start quiet_host pol t = (ok, t') \<and> wg_preset t' = None"
  using demo_wg_Start [of pol t] assms by (auto simp: wg_Start_def split: prod.splits)

lemma demo_service_steps: "demo_step (st_Init demo_env ''/home'')" "demo_step (st_Start demo_env)"
proof -
  have m: "mc_host demo_machine = quiet_host" "mc_wg_file demo_machine = (\<lambda>_ _. Inr demo_wg_config)"
    "mc_pub demo_machine = (\<lambda>k. k)" "se_machine demo_env = demo_machine"
    by (simp_all add: demo_machine_def demo_env_def)
  have "\<exists>s'. on_service f s = Some (ok, s') \<and> demo_at s'"
    if s: "demo_at s" and f: "\<And>t. wg_preset t = None \<Longrightarrow> \<exists>t'. f (WireGuardService t) = (ok, WireGuardService t') \<and> wg_preset t' = None" for f s
  proof -
    obtain t where t: "ss_service s = Some (WireGuardService t)" "wg_preset t = None" using s by (auto simp: demo_at_def)
    obtain t' where "f (WireGuardService (t\<lparr>wg_world := ss_world s\<rparr>)) = (ok, WireGuardService t')" "wg_preset t' = None"
      using f [of "t\<lparr>wg_world := ss_world s\<rparr>"] t(2) by auto
    then show ?thesis using s t by (auto simp: on_service_def demo_at_def)
  qed
  note on = this
  have "\<exists>t'. ns_Init demo_machine rt pol ''/home'' (WireGuardService t) = (ok, WireGuardService t') \<and> wg_preset t' = None"
    if "wg_preset t = None" for rt pol t
    using demo_init_preset [OF that] by (auto simp: m)
  then show "demo_step (st_Init demo_env ''/home'')"
    unfolding demo_step_def st_Init_def m by (blast intro: on)
  have "\<exists>t'. ns_Start demo_machine rt pol (WireGuardService t) = (ok, WireGuardService t') \<and> wg_preset t' = None"
    if "wg_preset t = None" for rt pol t
    using demo_start_preset [OF that, of pol] by (auto simp: m)
  then show "demo_step (st_Start demo_env)"
    unfolding demo_step_def st_Start_def m by (blast intro: on)
qed

lemma demo_end_steps: "demo_step (st_initialize demo_env)" "demo_step (st_reconcile demo_env)"
  by (auto simp: demo_step_def demo_at_def st_initialize_def st_reconcile_def demo_env_def demo_settings_at_def
      demo_initialize ReconcileSessions_def mem_db_def compactDatabase_def)

lemma demo_start: "\<exists>s1. start_up demo_env ''/home'' False demo_state = Some (ok, s1) \<and> demo_at s1"
proof -
  obtain t where t: "wg_NewService () = Inr t" "wg_preset t = None" using demo_new by blast
  obtain p where p: "Lookup ''wireguard'' = Inr p" "pc_New p () = Inr (WireGuardService t)"
    using t(1) by (simp add: Lookup_def registry_def)
  have ty: "nc_Type (cfg_Node demo_config) = ''wireguard''"
    by (simp add: demo_config_def operator_config_def cfg_WithDefaultValues_def nc_WithDefaultValues_def Let_def)
  let ?a = "demo_state\<lparr>ss_config := demo_config\<rparr>"
  let ?b = "?a\<lparr>ss_protocol := Some p, ss_service := Some (WireGuardService t)\<rparr>"
  let ?c = "?b\<lparr>ss_client := new_client demo_config [1]\<rparr>"
  let ?rest = "drop 3 (before_start demo_env ''/home'' False) @ [st_Start demo_env] @ after_start demo_env ''/home''"
  have a: "st_config demo_env ''/home'' False demo_state = Some (ok, ?a)"
    using demo_config_valid by (simp add: st_config_def demo_env_def)
  have b: "st_service ?a = Some (ok, ?b)" using p by (simp add: st_service_def ty demo_state_def)
  have c: "st_client demo_env ''/home'' ?b = Some (ok, ?c)" by (simp add: st_client_def demo_env_def Let_def)
  have "demo_at ?c" using t(2) by (simp add: demo_at_def demo_settings_start demo_client_fields demo_state_def)
  moreover have "list_all demo_step ?rest"
    by (simp add: before_start_def after_start_def demo_chain_steps demo_location_step demo_host_steps demo_service_steps
        demo_end_steps)
  ultimately obtain s1 where "run_steps ?rest ?c = Some (ok, s1)" "demo_at s1" using demo_run by blast
  then show ?thesis using a b c by (simp add: start_up_def before_start_def)
qed

lemma params_from:
  "query_from new (take_params (\<lambda>_ c. (Inr v, c))) rs errs (None, c) = (x, r, c') \<Longrightarrow> r = None \<or> r = Some v"
  by (induction rs arbitrary: errs) (auto simp: take_params_def split: sum.splits prod.splits)

lemma demo_params:
  "QueryNodeParams included_sdk lc c = (Inr (Some t), c') \<Longrightarrow> t = 3600 * second"
  "QuerySessionParams included_sdk lc c = (Inr (Some t), c') \<Longrightarrow> t = 7200 * second"
  by (auto simp: QueryNodeParams_def QuerySessionParams_def query_def included_sdk_def demo_sdk_def
      dest: params_from split: prod.splits sum.splits)

lemma start_fits_chain_witness:
  "\<exists>s1. start_up demo_env ''/home'' False demo_state = Some (ok, s1) \<and>
    5 * nc_IntervalUpdateStatus (cfg_Node (ss_config s1)) \<le> 4 * (3600 * second) \<and>
    5 * nc_IntervalUpdateSessions (cfg_Node (ss_config s1)) \<le> 4 * (7200 * second)"
proof -
  obtain s1 where s1: "start_up demo_env ''/home'' False demo_state = Some (ok, s1)" using demo_start by blast
  have sdk: "se_sdk demo_env = included_sdk" by (simp add: demo_env_def)
  have "5 * nc_IntervalUpdateStatus (cfg_Node (ss_config s1)) \<le> 4 * (3600 * second) \<and>
    5 * nc_IntervalUpdateSessions (cfg_Node (ss_config s1)) \<le> 4 * (7200 * second)"
    by (rule start_fits_chain [OF s1]) (use demo_params in \<open>auto simp: sdk in_i64_def\<close>)
  with s1 show ?thesis by blast
qed


end
