(* ===== verification/Api.thy ===== *)
theory Api
  imports Handshake Start
begin

text \<open>
  The node's web API, \<^verbatim>\<open>api/\<close>: the routes and the middleware every request passes (\<^verbatim>\<open>api.go\<close>,
  \<^verbatim>\<open>logging.go\<close>, \<^verbatim>\<open>recover.go\<close>, \<^verbatim>\<open>limits.go\<close>), the response envelope (\<^verbatim>\<open>types/rest.go\<close>), the status documents
  (\<^verbatim>\<open>api/status\<close>) and, behind the guards, the handshake handlers. The web framework matches the route and
  binds the fields of a body; a handler that panics has the panic's text as its value.
\<close>

section \<open>What the services offer the API\<close>

fun ns_Name :: "'o node_service \<Rightarrow> string" where
  "ns_Name (WireGuardService s) = var_Name (wg_variant s)"
| "ns_Name (V2RayService s) = ''v2ray''"
| "ns_Name (XRayService s) = ''xray''"
| "ns_Name (HysteriaService s) = ''hysteria2''"
| "ns_Name (AmneziaWGService s) = var_Name (wg_variant (aw_wg s))"
| "ns_Name (OpenVPNService s) = ''openvpn''"

fun ns_Type :: "'o node_service \<Rightarrow> nat" where
  "ns_Type (WireGuardService s) = var_Type (wg_variant s)"
| "ns_Type (V2RayService s) = 2"
| "ns_Type (XRayService s) = 4"
| "ns_Type (HysteriaService s) = 6"
| "ns_Type (AmneziaWGService s) = var_Type (wg_variant (aw_wg s))"
| "ns_Type (OpenVPNService s) = 3"

fun ns_Info :: "'o node_service \<Rightarrow> bytes" where
  "ns_Info (WireGuardService s) = wg_info s"
| "ns_Info (V2RayService s) = v2_info s"
| "ns_Info (XRayService s) = xr_info s"
| "ns_Info (HysteriaService s) = hy_info s"
| "ns_Info (AmneziaWGService s) = wg_info (aw_wg s)"
| "ns_Info (OpenVPNService s) = ov_info s"

text \<open>The request's text is read as JSON by the given decoder.\<close>

fun ns_ParsePeerRequest ::
  "(bytes \<Rightarrow> json option) \<Rightarrow> bytes \<Rightarrow> 'o node_service \<Rightarrow> bytes result \<times> 'o node_service"
where
  "ns_ParsePeerRequest dec raw (WireGuardService s) =
    (wg_ParsePeerRequest (var_Name (wg_variant s)) (dec raw), WireGuardService s)"
| "ns_ParsePeerRequest dec raw (V2RayService s) = (v2_ParsePeerRequest (dec raw), V2RayService s)"
| "ns_ParsePeerRequest dec raw (XRayService s) = (xr_ParsePeerRequest (dec raw), XRayService s)"
| "ns_ParsePeerRequest dec raw (HysteriaService s) = (hy_ParsePeerRequest (dec raw), HysteriaService s)"
| "ns_ParsePeerRequest dec raw (AmneziaWGService s) = via AmneziaWGService (aw_ParsePeerRequest (dec raw) s)"
| "ns_ParsePeerRequest dec raw (OpenVPNService s) = (ovpn_ParsePeerRequest (dec raw), OpenVPNService s)"

datatype service_payload =
    WireGuardPayload wg_payload
  | InboundPayload "inbound list"
  | HysteriaPayload "hy_inbound list"
  | AmneziaWGPayload awg_payload
  | OpenVPNPayload ov_payload

fun ns_HandshakePayload :: "bytes \<Rightarrow> 'o node_service \<Rightarrow> service_payload result" where
  "ns_HandshakePayload r (WireGuardService s) = rbind (wg_HandshakePayload r s) (\<lambda>p. Inr (WireGuardPayload p))"
| "ns_HandshakePayload r (V2RayService s) = rbind (v2_HandshakePayload s r) (\<lambda>p. Inr (InboundPayload p))"
| "ns_HandshakePayload r (XRayService s) = rbind (xr_HandshakePayload s r) (\<lambda>p. Inr (InboundPayload p))"
| "ns_HandshakePayload r (HysteriaService s) = rbind (hy_HandshakePayload s r) (\<lambda>p. Inr (HysteriaPayload p))"
| "ns_HandshakePayload r (AmneziaWGService s) = rbind (aw_HandshakePayload r s) (\<lambda>p. Inr (AmneziaWGPayload p))"
| "ns_HandshakePayload r (OpenVPNService s) = rbind (ov_HandshakePayload s r) (\<lambda>p. Inr (OpenVPNPayload p))"

text \<open>The public entries: WireGuard's is blank, AmneziaWG's has the tier's version, OpenVPN's the transport.\<close>

datatype service_metadata =
    BlankMetadata
  | InboundMetadata "inbound list"
  | HysteriaMetadata "hy_inbound list"
  | VersionMetadata "int list"
  | TransportMetadata "string list"

fun ns_PublicMetadata :: "'o node_service \<Rightarrow> service_metadata" where
  "ns_PublicMetadata (WireGuardService s) = BlankMetadata"
| "ns_PublicMetadata (V2RayService s) = InboundMetadata (v2_PublicMetadata s)"
| "ns_PublicMetadata (XRayService s) = InboundMetadata (xr_PublicMetadata s)"
| "ns_PublicMetadata (HysteriaService s) = HysteriaMetadata (hy_PublicMetadata s)"
| "ns_PublicMetadata (AmneziaWGService s) = VersionMetadata (aw_PublicMetadata s)"
| "ns_PublicMetadata (OpenVPNService s) = TransportMetadata (ov_PublicMetadata s)"

text \<open>A protocol's name and type are those its service reports.\<close>

lemma registry_consistent:
  assumes "p \<in> set registry" "pc_New p w = Inr s"
  shows "ns_Name s = pc_Name p \<and> ns_Type s = unat (pc_Type p)"
  using assms
  by (auto simp: registry_def rbind_eq_Inr_iff wg_NewService_def NewVariant_def wg_Default_def NewAmneziaWG_def awg_Variant_def)

section \<open>The response envelope\<close>

record 'r response =
  rs_Success :: bool
  rs_Error :: "(nat \<times> string) option"
  rs_Result :: "'r option"

definition NewResponse :: "(nat \<times> string) option \<Rightarrow> 'r option \<Rightarrow> 'r response" where
  "NewResponse err res = \<lparr>rs_Success = (err = None), rs_Error = err, rs_Result = res\<rparr>"

definition NewResponseError :: "nat \<Rightarrow> string \<Rightarrow> 'r response" where
  "NewResponseError code message = NewResponse (Some (code, message)) None"

definition NewResponseResult :: "'r \<Rightarrow> 'r response" where
  "NewResponseResult v = NewResponse None (Some v)"

definition CodeInternal :: nat where
  "CodeInternal = 13"

section \<open>The documents\<close>

record root_location =
  rl_City :: string
  rl_Country :: string
  rl_CountryCode :: string
  rl_Latitude :: f64
  rl_Longitude :: f64

record root_version =
  rv_Name :: string
  rv_Tag :: string
  rv_Commit :: string

record root_document =
  rd_Addr :: string
  rd_Downlink :: string
  rd_HandshakeDNS :: bool
  rd_Location :: root_location
  rd_Moniker :: string
  rd_Peers :: nat
  rd_ServiceType :: string
  rd_ServiceMetadata :: service_metadata
  rd_Uplink :: string
  rd_Version :: root_version

record status_location = root_location +
  sl_Source :: string

record status_document =
  sd_Address :: string
  sd_Bandwidth :: bw_result
  sd_HandshakeEnable :: bool
  sd_HandshakePeers :: "64 word"
  sd_IntervalSetSessions :: int
  sd_IntervalUpdateSessions :: int
  sd_IntervalUpdateStatus :: int
  sd_Location :: status_location
  sd_Moniker :: string
  sd_Operator :: string
  sd_Peers :: nat
  sd_GigabytePrices :: string
  sd_HourlyPrices :: string
  sd_MaxPeers :: int
  sd_Type :: nat
  sd_Version :: string

text \<open>What the handlers read of the node's context, and the build's version.\<close>

record api_context =
  ac_config :: config
  ac_Address :: string
  ac_Operator :: string
  ac_bandwidth :: bw_result
  ac_location :: location
  ac_Version :: string
  ac_Commit :: string
  ac_parsers :: "string parsers"

definition AppName :: string where
  "AppName = ''dvpnd''"

definition int_text :: "int \<Rightarrow> string" where
  "int_text i = (if i < 0 then ''-'' else []) @ itoa (nat (abs i))"

definition place :: "location \<Rightarrow> root_location" where
  "place l = \<lparr>rl_City = loc_City l, rl_Country = loc_Country l, rl_CountryCode = loc_CountryCode l,
    rl_Latitude = loc_Latitude l, rl_Longitude = loc_Longitude l\<rparr>"

definition HandlerGetRoot :: "api_context \<Rightarrow> 'o node_service \<Rightarrow> root_document" where
  "HandlerGetRoot ctx s =
    \<lparr>rd_Addr = ac_Address ctx, rd_Downlink = int_text (br_Download (ac_bandwidth ctx)),
     rd_HandshakeDNS = hc_Enable (cfg_Handshake (ac_config ctx)), rd_Location = place (ac_location ctx),
     rd_Moniker = nc_Moniker (cfg_Node (ac_config ctx)), rd_Peers = ns_PeerCount s, rd_ServiceType = ns_Name s,
     rd_ServiceMetadata = ns_PublicMetadata s, rd_Uplink = int_text (br_Upload (ac_bandwidth ctx)),
     rd_Version = \<lparr>rv_Name = AppName, rv_Tag = ac_Version ctx, rv_Commit = ac_Commit ctx\<rparr>\<rparr>"

text \<open>The prices are read again; a configuration with prices that cannot be read makes the handler panic.\<close>

definition statusResponse :: "api_context \<Rightarrow> 'o node_service \<Rightarrow> status_document result" where
  "statusResponse ctx s =
    (let nc = cfg_Node (ac_config ctx); hc = cfg_Handshake (ac_config ctx); l = ac_location ctx in
     rbind (ParsePrices (ac_parsers ctx) (nc_GigabytePrices nc)) (\<lambda>gigabyte.
     rbind (ParsePrices (ac_parsers ctx) (nc_HourlyPrices nc)) (\<lambda>hourly.
       Inr \<lparr>sd_Address = ac_Address ctx, sd_Bandwidth = ac_bandwidth ctx, sd_HandshakeEnable = hc_Enable hc,
         sd_HandshakePeers = hc_Peers hc, sd_IntervalSetSessions = nc_IntervalSetSessions nc,
         sd_IntervalUpdateSessions = nc_IntervalUpdateSessions nc, sd_IntervalUpdateStatus = nc_IntervalUpdateStatus nc,
         sd_Location = \<lparr>rl_City = loc_City l, rl_Country = loc_Country l, rl_CountryCode = loc_CountryCode l,
           rl_Latitude = loc_Latitude l, rl_Longitude = loc_Longitude l, sl_Source = loc_Source l\<rparr>,
         sd_Moniker = nc_Moniker nc, sd_Operator = ac_Operator ctx, sd_Peers = ns_PeerCount s,
         sd_GigabytePrices = gigabyte, sd_HourlyPrices = hourly, sd_MaxPeers = qc_MaxPeers (cfg_QOS (ac_config ctx)),
         sd_Type = ns_Type s, sd_Version = ac_Version ctx\<rparr>)))"

section \<open>Requests and answers\<close>

text \<open>
  The route is the method and pattern the framework matched, if any. A request the framework redirects to
  the same path with or without its last slash never reaches the middleware.
\<close>

record http_request =
  hq_Method :: string
  hq_Path :: string
  hq_Route :: "(string \<times> string) option"
  hq_TLS :: bool
  hq_RemoteIP :: string
  hq_Agent :: string
  hq_Params :: "string \<times> string"
  hq_Body :: string

datatype api_doc =
    RootDoc root_document
  | StatusDoc status_document
  | HandshakeDoc handshake_result
  | SessionDoc bytes

datatype body = JsonBody "api_doc response" | TextBody string

record answer =
  an_Status :: nat
  an_Headers :: "(string \<times> string) list"
  an_Body :: body

datatype log_level = LevelDebug | LevelInfo | LevelError

datatype log_value = LogText string | LogInt int

record log_line =
  ll_Level :: log_level
  ll_Message :: string
  ll_Fields :: "(string \<times> log_value) list"

datatype route = RootRoute | StatusRoute | HandshakeRoute | AddSessionRoute

definition session_RegisterRoutes :: "config \<Rightarrow> ((string \<times> string) \<times> route) list" where
  "session_RegisterRoutes cfg =
    ((''POST'', ''/''), HandshakeRoute) #
    (if nc_LegacyHandshake (cfg_Node cfg)
     then [((''POST'', ''/accounts/:acc_address/sessions/:id''), AddSessionRoute)] else [])"

definition status_RegisterRoutes :: "((string \<times> string) \<times> route) list" where
  "status_RegisterRoutes = [((''GET'', ''/''), RootRoute), ((''GET'', ''/status''), StatusRoute)]"

definition RegisterRoutes :: "config \<Rightarrow> ((string \<times> string) \<times> route) list" where
  "RegisterRoutes cfg = session_RegisterRoutes cfg @ status_RegisterRoutes"

definition maxBodyBytes :: nat where
  "maxBodyBytes = 65536"

text \<open>The bytes of a body a handler can read, and whether reading on fails.\<close>

definition limitBody :: "string \<Rightarrow> string \<times> bool" where
  "limitBody b = (take maxBodyBytes b, maxBodyBytes < length b)"

text \<open>The framework's binding, the chain's accounts and the rest a handshake is given.\<close>

record ('o, 'd, 'c) api_env =
  av_context :: api_context
  av_settings :: settings
  av_crypto :: crypto
  av_machine :: "'o machine"
  av_db :: "'d database"
  av_chain :: "'c chain"
  av_QueryAccount :: "string \<Rightarrow> 'c \<Rightarrow> bytes option option result \<times> 'c"
  av_bech32 :: "string \<Rightarrow> string result"
  av_bindJSON :: "string \<times> bool \<Rightarrow> handshake_body option"
  av_bindURI :: "string \<times> string \<Rightarrow> (string \<times> 64 word) option"
  av_bindAdd :: "string \<times> bool \<Rightarrow> (string \<times> string) option"
  av_decode :: "bytes \<Rightarrow> json option"
  av_marshal :: "service_payload \<Rightarrow> bytes result"
  av_SignBytes :: "bytes \<Rightarrow> (bytes \<times> bytes) result"
  av_IPv4 :: bytes
  av_text :: "api_doc response \<Rightarrow> string"
  av_stack :: string

definition ns_ops :: "('o, 'd, 'c) api_env \<Rightarrow> 'o node_service handshake_ops" where
  "ns_ops env =
    \<lparr>ho_ParsePeerRequest = ns_ParsePeerRequest (av_decode env),
     ho_HandshakePayload = (\<lambda>r s. (rbind (ns_HandshakePayload r s) (av_marshal env), s)),
     ho_Info = ns_Info, ho_SignBytes = av_SignBytes env, ho_IPv4 = av_IPv4 env,
     ho_RemoteURL = nc_RemoteURL (cfg_Node (ac_config (av_context env)))\<rparr>"

definition ReplySignatureHeader :: string where
  "ReplySignatureHeader = ''X-Dvpnd-Signature''"

definition ReplySigningHeader :: string where
  "ReplySigningHeader = ''X-Dvpnd-Reply-Signing''"

text \<open>A handler's reply as the answer it writes.\<close>

fun write_reply :: "('r \<Rightarrow> api_doc) \<Rightarrow> 'r http_reply \<Rightarrow> answer" where
  "write_reply doc (Refused status code msg retry) =
    \<lparr>an_Status = status, an_Headers = (case retry of None \<Rightarrow> [] | Some n \<Rightarrow> [(''Retry-After'', itoa n)]),
     an_Body = JsonBody (NewResponseError code msg)\<rparr>"
| "write_reply doc (Accepted status r header) =
    \<lparr>an_Status = status, an_Headers = (case header of None \<Rightarrow> [] | Some h \<Rightarrow> [(ReplySignatureHeader, h)]),
     an_Body = JsonBody (NewResponseResult (doc r))\<rparr>"

section \<open>One request\<close>

type_synonym ('o, 'd, 'c) api_state = "(('o node_service, 'd) node \<times> 'c) \<times> limiter"

text \<open>The line the limiter logs at a window's first refusal.\<close>

definition limit_log :: "int \<Rightarrow> string \<Rightarrow> limiter \<Rightarrow> log_line list" where
  "limit_log now remoteIP l =
    (case fst (allow now (clientBlock remoteIP) l) of (inside, wait, first) \<Rightarrow>
      if \<not> inside \<and> first
      then [\<lparr>ll_Level = LevelInfo, ll_Message = ''Refusing handshake attempts over the limit until the window ends'',
        ll_Fields = [(''limit'', LogInt (rl_limit l)), (''window'', LogInt (rl_window l))]\<rparr>] else [])"

text \<open>The guards of the two handshake routes: TLS first, then the limit, then the handler.\<close>

definition guarded ::
  "('r \<Rightarrow> api_doc) \<Rightarrow> (('o node_service, 'd) node \<times> 'c \<Rightarrow> 'r http_reply \<times> (('o node_service, 'd) node \<times> 'c)) \<Rightarrow>
    int \<Rightarrow> http_request \<Rightarrow> ('o, 'd, 'c) api_state \<Rightarrow> answer \<times> ('o, 'd, 'c) api_state \<times> log_line list"
where
  "guarded doc handler now req st =
    (case requireTLS (hq_TLS req) of
       Some r \<Rightarrow> (write_reply doc r, st, [])
     | None \<Rightarrow>
        (case limitHandshakes now (hq_RemoteIP req) (snd st) of
           (Some r, l) \<Rightarrow> (write_reply doc r, (fst st, l), limit_log now (hq_RemoteIP req) (snd st))
         | (None, l) \<Rightarrow> (case handler (fst st) of (r, w) \<Rightarrow> (write_reply doc r, (w, l), []))))"

text \<open>The handler of the matched route; a panic is an error value.\<close>

definition handle ::
  "('o, 'd, 'c) api_env \<Rightarrow> int \<Rightarrow> http_request \<Rightarrow> ('o, 'd, 'c) api_state \<Rightarrow>
    (gerror + answer) \<times> ('o, 'd, 'c) api_state \<times> log_line list"
where
  "handle env now req st =
    (let ctx = av_context env; s = nd_svc (fst (fst st)); body = limitBody (hq_Body req) in
     case Option.bind (hq_Route req) (map_of (RegisterRoutes (ac_config ctx))) of
       None \<Rightarrow> (Inr \<lparr>an_Status = 404, an_Headers = [], an_Body = TextBody ''404 page not found''\<rparr>, st, [])
     | Some RootRoute \<Rightarrow>
        (Inr \<lparr>an_Status = 200, an_Headers = [], an_Body = JsonBody (NewResponseResult (RootDoc (HandlerGetRoot ctx s)))\<rparr>, st, [])
     | Some StatusRoute \<Rightarrow>
        (rbind (statusResponse ctx s) (\<lambda>d.
           Inr \<lparr>an_Status = 200, an_Headers = [], an_Body = JsonBody (NewResponseResult (StatusDoc d))\<rparr>), st, [])
     | Some HandshakeRoute \<Rightarrow>
        (case guarded HandshakeDoc
                (HandlerHandshake (av_settings env) (av_crypto env) (ns_ops env) (ns_service (av_machine env)) (av_db env)
                  (av_chain env) (av_bindJSON env body)) now req st of
           (a, st, lg) \<Rightarrow> (Inr a, st, lg))
     | Some AddSessionRoute \<Rightarrow>
        (case guarded SessionDoc
                (HandlerAddSession (av_settings env) (av_crypto env) (ns_ops env) (ns_service (av_machine env)) (av_db env)
                  (av_chain env) (av_QueryAccount env)
                  (NewRequestAddSession (av_bech32 env) (av_bindURI env (hq_Params req)) (av_bindAdd env body))) now req st of
           (a, st, lg) \<Rightarrow> (Inr a, st, lg)))"

definition recoverPanics :: "string \<Rightarrow> http_request \<Rightarrow> gerror + answer \<Rightarrow> answer \<times> log_line list" where
  "recoverPanics stack req r =
    (case r of
       Inr a \<Rightarrow> (a, [])
     | Inl e \<Rightarrow>
        (\<lparr>an_Status = 500, an_Headers = [], an_Body = JsonBody (NewResponseError CodeInternal InternalErrorMessage)\<rparr>,
         [\<lparr>ll_Level = LevelError, ll_Message = ''Request handler panicked'',
           ll_Fields = [(''method'', LogText (hq_Method req)), (''path'', LogText (hq_Path req)), (''error'', LogText e), (''stack'', LogText stack)]\<rparr>]))"

text \<open>
  What the capture holds of an answer: an error's text is written out, as \<^verbatim>\<open>encoding/json\<close> writes the
  envelope. The framework writes its own text for an unmatched request after the middleware has run, so
  nothing of it is captured.
\<close>

fun body_text :: "(api_doc response \<Rightarrow> string) \<Rightarrow> body \<Rightarrow> string" where
  "body_text marshal (TextBody t) = []"
| "body_text marshal (JsonBody r) =
    (case rs_Error r of
       None \<Rightarrow> marshal r
     | Some (code, msg) \<Rightarrow>
        ''{'' @ quoted ''success'' @ '':false,'' @ quoted ''error'' @ '':{'' @ quoted ''code'' @ '':'' @ itoa code @ '','' @
        quoted ''message'' @ '':'' @ json_string msg @ ''}}'')"

definition logRefusals :: "(api_doc response \<Rightarrow> string) \<Rightarrow> http_request \<Rightarrow> answer \<Rightarrow> log_line list" where
  "logRefusals marshal req a =
    \<lparr>ll_Level = LevelDebug, ll_Message = ''Request answered'',
     ll_Fields = [(''method'', LogText (hq_Method req)), (''path'', LogText (hq_Path req)), (''status'', LogInt (int (an_Status a))),
       (''client'', LogText (hq_RemoteIP req)), (''agent'', LogText (hq_Agent req))]\<rparr> #
    (if an_Status a < 400 \<or> an_Status a = 429 then []
     else [\<lparr>ll_Level = LevelError, ll_Message = ''Request refused'',
       ll_Fields = [(''method'', LogText (hq_Method req)), (''path'', LogText (hq_Path req)), (''status'', LogInt (int (an_Status a))),
         (''agent'', LogText (hq_Agent req)), (''reply'', LogText (take 512 (body_text marshal (an_Body a))))]\<rparr>])"

text \<open>The two headers every answer carries.\<close>

definition api_headers :: "api_context \<Rightarrow> (string \<times> string) list" where
  "api_headers ctx = [(''Server'', AppName @ ''/'' @ ac_Version ctx), (ReplySigningHeader, replyDomain)]"

definition serve ::
  "('o, 'd, 'c) api_env \<Rightarrow> int \<Rightarrow> http_request \<Rightarrow> ('o, 'd, 'c) api_state \<Rightarrow>
    answer \<times> ('o, 'd, 'c) api_state \<times> log_line list"
where
  "serve env now req st =
    (case handle env now req st of (r, st', lg) \<Rightarrow>
       case recoverPanics (av_stack env) req r of (a, panics) \<Rightarrow>
         (a\<lparr>an_Headers := api_headers (av_context env) @ an_Headers a\<rparr>, st',
          lg @ panics @ logRefusals (av_text env) req a))"

section \<open>Failures of the node are not explained\<close>

fun reply_opaque :: "'r http_reply \<Rightarrow> bool" where
  "reply_opaque (Refused status code msg retry) \<longleftrightarrow> (500 \<le> status \<longrightarrow> msg = InternalErrorMessage)"
| "reply_opaque (Accepted status r header) \<longleftrightarrow> status < 500"

definition answer_opaque :: "answer \<Rightarrow> bool" where
  "answer_opaque a \<longleftrightarrow>
    (500 \<le> an_Status a \<longrightarrow> (\<exists>code. an_Body a = JsonBody (NewResponseError code InternalErrorMessage)))"

lemma refuse_reply_opaque [simp]: "reply_opaque (refuse_reply status code err)"
  by (simp add: refuse_reply_def replyError_def)

lemma HandlerHandshake_opaque: "reply_opaque (fst (HandlerHandshake env cr ho svc db chain bound w))"
  unfolding HandlerHandshake_def by (simp split: option.split sum.split prod.split)

lemma HandlerAddSession_opaque: "reply_opaque (fst (HandlerAddSession env cr ho svc db chain qa bound w))"
  unfolding HandlerAddSession_def by (simp split: option.split sum.split prod.split)

lemma write_reply_opaque: "reply_opaque r \<Longrightarrow> answer_opaque (write_reply doc r)"
  by (cases r) (auto simp: answer_opaque_def)

lemma guarded_opaque:
  assumes "\<And>w. reply_opaque (fst (handler w))"
  shows "answer_opaque (fst (guarded doc handler now req st))"
proof -
  obtain r w where h: "handler (fst st) = (r, w)" by (meson surj_pair)
  then have "reply_opaque r" using assms [of "fst st"] by simp
  then show ?thesis
    using h
    by (auto simp: guarded_def requireTLS_def limitHandshakes_def intro!: write_reply_opaque split: prod.splits if_splits)
      (simp_all add: answer_opaque_def)
qed

lemma guarded_handlers_opaque:
  "guarded doc (HandlerHandshake e cr ho svc db ch b) now req st = (a, st', lg) \<Longrightarrow> answer_opaque a"
  "guarded doc' (HandlerAddSession e cr ho svc db ch qa b') now req st = (a, st', lg) \<Longrightarrow> answer_opaque a"
  using guarded_opaque [of "HandlerHandshake e cr ho svc db ch b" doc now req st, OF HandlerHandshake_opaque]
    guarded_opaque [of "HandlerAddSession e cr ho svc db ch qa b'" doc' now req st, OF HandlerAddSession_opaque]
  by simp_all

lemma handle_opaque: "fst (handle env now req st) = Inr a \<Longrightarrow> answer_opaque a"
  unfolding handle_def Let_def
  by (auto simp: rbind_eq_Inr_iff split: option.splits route.splits prod.splits dest: guarded_handlers_opaque)
    (simp_all add: answer_opaque_def)

text \<open>A handshake that did not come over TLS is refused before anything happens.\<close>

lemma guarded_plain: "\<not> hq_TLS req \<Longrightarrow> guarded doc h now req st = (write_reply doc (the (requireTLS False)), st, [])"
  by (simp add: guarded_def requireTLS_def)

text \<open>C15: whatever a request makes of the node, an answer of status 500 or above carries the one generic
  message and no detail, also when the handler panicked; every answer names the software and the signing
  scheme; and a request that does not come over TLS cannot reach a handshake handler or use up an attempt.\<close>

theorem api_answers_safe:
  assumes "serve env now req st = (a, st', lg)"
  shows "answer_opaque a \<and> set (api_headers (av_context env)) \<subseteq> set (an_Headers a) \<and>
    (\<not> hq_TLS req \<longrightarrow> st' = st)"
proof -
  obtain r st1 lg1 where h: "handle env now req st = (r, st1, lg1)" by (metis surj_pair)
  obtain b ps where p: "recoverPanics (av_stack env) req r = (b, ps)" by (meson surj_pair)
  have a: "a = b\<lparr>an_Headers := api_headers (av_context env) @ an_Headers b\<rparr>" "st' = st1"
    using assms h p by (simp_all add: serve_def)
  have "answer_opaque b"
  proof (cases r)
    case (Inl e)
    then show ?thesis using p by (auto simp: recoverPanics_def answer_opaque_def)
  next
    case (Inr x)
    then show ?thesis using p handle_opaque [of env now req st x] h by (simp add: recoverPanics_def)
  qed
  moreover have "st1 = st" if "\<not> hq_TLS req"
    using that h by (auto simp: handle_def Let_def guarded_plain split: option.splits route.splits)
  ultimately show ?thesis using a by (auto simp: answer_opaque_def)
qed

section \<open>The log keeps no client addresses\<close>

definition above_debug :: "log_line list \<Rightarrow> log_line list" where
  "above_debug lg = filter (\<lambda>l. ll_Level l \<noteq> LevelDebug) lg"

lemma limitHandshakes_verdict:
  assumes "fst (allow now (clientBlock ip) l) = fst (allow now (clientBlock ip') l)"
  shows "fst (limitHandshakes now ip l) = fst (limitHandshakes now ip' l)" "limit_log now ip l = limit_log now ip' l"
  using assms by (auto simp: limitHandshakes_def limit_log_def split: prod.splits)

lemma guarded_verdict:
  fixes doc :: "'r \<Rightarrow> api_doc"
  assumes "fst (allow now (clientBlock ip) (snd st)) = fst (allow now (clientBlock ip') (snd st))"
    and "guarded doc h now (req\<lparr>hq_RemoteIP := ip\<rparr>) st = (a, st1, lg)"
    and "guarded doc h now (req\<lparr>hq_RemoteIP := ip'\<rparr>) st = (a', st2, lg')"
  shows "a = a' \<and> fst st1 = fst st2 \<and> lg = lg'"
proof -
  note same = limitHandshakes_verdict [OF assms(1)]
  obtain v :: "'r http_reply option" and l1 where v: "limitHandshakes now ip (snd st) = (v, l1)" by (meson surj_pair)
  moreover obtain l2 where "limitHandshakes now ip' (snd st) = (v, l2)"
    using v same(1) by (metis fst_conv prod.collapse)
  ultimately show ?thesis
    using assms(2,3) same(2) by (auto simp: guarded_def split: option.splits prod.splits)
qed

lemma handle_verdict:
  assumes same: "fst (allow now (clientBlock ip) (snd st)) = fst (allow now (clientBlock ip') (snd st))"
    and one: "handle env now (req\<lparr>hq_RemoteIP := ip\<rparr>) st = (r, st1, lg)"
    and two: "handle env now (req\<lparr>hq_RemoteIP := ip'\<rparr>) st = (r', st2, lg')"
  shows "r = r' \<and> fst st1 = fst st2 \<and> lg = lg'"
proof (cases "Option.bind (hq_Route req) (map_of (RegisterRoutes (ac_config (av_context env))))")
  case None
  then show ?thesis using one two by (simp add: handle_def Let_def)
next
  case (Some x)
  then show ?thesis
    using one two
    by (cases x) (auto simp: handle_def Let_def split: prod.splits dest: guarded_verdict [OF same])
qed

text \<open>C16: the client's address shows in debug lines only: two clients the limiter treats alike get the same
  answer, do the same to the node, and leave the same lines of the middleware at every level above debug.\<close>

theorem log_keeps_no_address:
  assumes same: "fst (allow now (clientBlock ip) (snd st)) = fst (allow now (clientBlock ip') (snd st))"
    and one: "serve env now (req\<lparr>hq_RemoteIP := ip\<rparr>) st = (a, st1, lg)"
    and two: "serve env now (req\<lparr>hq_RemoteIP := ip'\<rparr>) st = (a', st2, lg')"
  shows "a = a' \<and> fst st1 = fst st2 \<and> above_debug lg = above_debug lg'"
proof -
  obtain r s1 l1 where h: "handle env now (req\<lparr>hq_RemoteIP := ip\<rparr>) st = (r, s1, l1)" by (metis surj_pair)
  obtain r' s2 l2 where h': "handle env now (req\<lparr>hq_RemoteIP := ip'\<rparr>) st = (r', s2, l2)" by (metis surj_pair)
  have e: "r' = r" "fst s2 = fst s1" "l2 = l1" using handle_verdict [OF same h h'] by simp_all
  have p: "recoverPanics (av_stack env) (req\<lparr>hq_RemoteIP := ip\<rparr>) r = recoverPanics (av_stack env) (req\<lparr>hq_RemoteIP := ip'\<rparr>) r"
    by (simp add: recoverPanics_def split: sum.splits)
  have "above_debug (logRefusals m (req\<lparr>hq_RemoteIP := ip\<rparr>) b) = above_debug (logRefusals m (req\<lparr>hq_RemoteIP := ip'\<rparr>) b)" for m b
    by (simp add: logRefusals_def above_debug_def)
  then show ?thesis
    using one two h h' e p by (auto simp: serve_def above_debug_def split: prod.splits)
qed

section \<open>A node that answers\<close>

definition demo_context :: "string parsers \<Rightarrow> api_context" where
  "demo_context pa =
    \<lparr>ac_config = demo_config, ac_Address = ''sentnode1'', ac_Operator = ''sent1'', ac_bandwidth = none_result,
     ac_location = zero_location, ac_Version = ''9.0.0'', ac_Commit = ''abc'', ac_parsers = pa\<rparr>"

definition demo_api :: "string parsers \<Rightarrow> (unit, mem, unit) api_env" where
  "demo_api pa =
    \<lparr>av_context = demo_context pa, av_settings = \<lparr>set_MaxPeers = 2, set_Address = ''sentnode1''\<rparr>, av_crypto = demo_crypto,
     av_machine = demo_machine, av_db = mem_db, av_chain = one_session_chain, av_QueryAccount = (\<lambda>_ c. (Inr None, c)),
     av_bech32 = Inr, av_bindJSON = (\<lambda>_. None), av_bindURI = (\<lambda>_. None), av_bindAdd = (\<lambda>_. None), av_decode = (\<lambda>_. None),
     av_marshal = (\<lambda>_. Inr []), av_SignBytes = (\<lambda>_. Inl ''locked''), av_IPv4 = [192, 0, 2, 1], av_text = (\<lambda>_. []), av_stack = []\<rparr>"

definition demo_request :: "string \<times> string \<Rightarrow> http_request" where
  "demo_request r =
    \<lparr>hq_Method = fst r, hq_Path = snd r, hq_Route = Some r, hq_TLS = False, hq_RemoteIP = ''198.51.100.7'',
     hq_Agent = ''curl'', hq_Params = ([], []), hq_Body = []\<rparr>"

definition demo_api_state :: "(unit, mem, unit) api_state" where
  "demo_api_state =
    ((\<lparr>nd_svc = V2RayService (NewV2Ray ()), nd_db = ([], 0)\<rparr>, ()), newRateLimiter handshakeLimit handshakeWindow 0)"

text \<open>A node whose prices the chain library no longer reads panics on \<^verbatim>\<open>/status\<close>.\<close>

definition refusing_parsers :: "string parsers" where
  "refusing_parsers = string_parsers\<lparr>pa_CoinsNormalized := (\<lambda>_. Inl ''invalid coins''), pa_PricesFromString := (\<lambda>_. Inl ''invalid prices'')\<rparr>"

lemma status_routed:
  "map_of (RegisterRoutes c) (''GET'', ''/status'') = Some StatusRoute" "map_of (RegisterRoutes c) (''POST'', ''/'') = Some HandshakeRoute"
  by (simp_all add: RegisterRoutes_def session_RegisterRoutes_def status_RegisterRoutes_def)

lemma api_answers_safe_witness:
  "\<exists>a lg. serve (demo_api refusing_parsers) 0 (demo_request (''GET'', ''/status'')) demo_api_state = (a, demo_api_state, lg) \<and>
    an_Status a = 500 \<and> answer_opaque a"
proof -
  have e: "\<exists>e. statusResponse (demo_context refusing_parsers) s = Inl e" for s :: "unit node_service"
    by (simp add: statusResponse_def demo_context_def demo_config_def ParsePrices_def refusing_parsers_def string_parsers_def Let_def
        operator_config_def trim_space_def is_space_def)
  then obtain a lg where run: "serve (demo_api refusing_parsers) 0 (demo_request (''GET'', ''/status'')) demo_api_state = (a, demo_api_state, lg)"
    and "an_Status a = 500"
    using e [of "nd_svc (fst (fst demo_api_state))"]
    by (fastforce simp: serve_def handle_def demo_request_def demo_api_def status_routed recoverPanics_def Let_def)
  then show ?thesis using api_answers_safe [OF run] by auto
qed

lemma log_keeps_no_address_witness:
  "\<exists>a lg lg'. serve (demo_api string_parsers) 5 ((demo_request (''POST'', ''/''))\<lparr>hq_RemoteIP := ''198.51.100.7''\<rparr>) demo_api_state =
      (a, demo_api_state, lg) \<and>
    serve (demo_api string_parsers) 5 ((demo_request (''POST'', ''/''))\<lparr>hq_RemoteIP := ''203.0.113.9''\<rparr>) demo_api_state =
      (a, demo_api_state, lg') \<and> above_debug lg = above_debug lg' \<and> lg \<noteq> lg'"
proof -
  let ?req = "demo_request (''POST'', ''/'')"
  have run: "\<exists>a lg. serve (demo_api string_parsers) 5 (?req\<lparr>hq_RemoteIP := ip\<rparr>) demo_api_state = (a, demo_api_state, lg) \<and>
    (\<exists>x rest. lg = x # rest \<and> map_of (ll_Fields x) ''client'' = Some (LogText ip))" for ip
    by (simp add: serve_def handle_def demo_request_def demo_api_def demo_context_def status_routed recoverPanics_def Let_def
        guarded_plain logRefusals_def)
  obtain a lg where one: "serve (demo_api string_parsers) 5 (?req\<lparr>hq_RemoteIP := ''198.51.100.7''\<rparr>) demo_api_state = (a, demo_api_state, lg)"
    and l1: "\<exists>x rest. lg = x # rest \<and> map_of (ll_Fields x) ''client'' = Some (LogText ''198.51.100.7'')"
    using run by blast
  obtain a' lg' where two: "serve (demo_api string_parsers) 5 (?req\<lparr>hq_RemoteIP := ''203.0.113.9''\<rparr>) demo_api_state = (a', demo_api_state, lg')"
    and l2: "\<exists>x rest. lg' = x # rest \<and> map_of (ll_Fields x) ''client'' = Some (LogText ''203.0.113.9'')"
    using run by blast
  have same: "fst (allow 5 (clientBlock ''198.51.100.7'') (snd demo_api_state)) = fst (allow 5 (clientBlock ''203.0.113.9'') (snd demo_api_state))"
    by (simp add: allow_def demo_api_state_def newRateLimiter_def Let_def)
  have "lg \<noteq> lg'" using l1 l2 by auto
  then show ?thesis using log_keeps_no_address [OF same one two] one two by auto
qed

end
