(* ===== verification/Spec2Isabelle.thy ===== *)
theory Spec2Isabelle
  imports Api
begin

text \<open>
  A verification library for \<^verbatim>\<open>dvpnd\<close>, the daemon of a node of a decentralised VPN. The node registers on a
  chain, serves VPN clients who paid for a session there, measures what they use and reports it back.

  \<^bold>\<open>The program and the theories\<close>

  \<^item> The base: \<^verbatim>\<open>Prelude\<close> (results as values \<^verbatim>\<open>gerror + 'a\<close>, signed 64-bit arithmetic as integers with the
    wrap-around written out, loops over lists), \<^verbatim>\<open>Go_Strings\<close>, \<^verbatim>\<open>Codec\<close> (base64, hex, big-endian numbers, UUIDs),
    \<^verbatim>\<open>Net_Addr\<close> (addresses, masks, CIDR), \<^verbatim>\<open>Url\<close>, \<^verbatim>\<open>Json\<close>: what the source uses of Go's standard library.
  \<^item> \<^verbatim>\<open>Host\<close>: the operating system as a record of operations over a world of any type; every command, file and
    process goes through it, and a logged world records what was done in which order.
  \<^item> \<^verbatim>\<open>Vpn_Service\<close>: \<^verbatim>\<open>types/service.go\<close> and \<^verbatim>\<open>context/service.go\<close>. The locale \<^verbatim>\<open>vpn_service\<close> states what the node
    relies on of a protocol: AddPeer, RemovePeer and Peers keep an invariant and a set of keys.
    \<^verbatim>\<open>peer_set_service\<close> gives that contract for the protocols that keep a plain peer set.
  \<^item> The protocols under \<^verbatim>\<open>services/\<close>: \<^verbatim>\<open>IP_Pool\<close> and \<^verbatim>\<open>WireGuard\<close>; \<^verbatim>\<open>Awg_Config\<close> and \<^verbatim>\<open>AmneziaWG\<close>; \<^verbatim>\<open>Hysteria\<close>,
    \<^verbatim>\<open>XRay\<close>, \<^verbatim>\<open>V2Ray\<close>, \<^verbatim>\<open>OpenVPN\<close>. Each has its configuration with defaults and validation, the text of the
    configuration file it renders for its daemon, Init, Start, Stop, AddPeer, HasPeer, RemovePeer, Peers, and the
    handshake payload, and interprets one of the two locales. \<^verbatim>\<open>Egress\<close> has the firewall chains and NAT,
    \<^verbatim>\<open>Daemon\<close> the unprivileged account and process of the proxies, \<^verbatim>\<open>Peer_Request\<close> the clients' requests.
  \<^item> \<^verbatim>\<open>Registry\<close>: \<^verbatim>\<open>services/registry.go\<close>. The sum \<^verbatim>\<open>node_service\<close> of the six protocols interprets \<^verbatim>\<open>vpn_service\<close>
    again, so what is shown of a node holds whatever it runs.
  \<^item> \<^verbatim>\<open>Session_Store\<close>: the session table; the database library is a record of operations with its documented
    behaviour \<^verbatim>\<open>gorm_doc\<close>, which a list in memory satisfies.
  \<^item> \<^verbatim>\<open>Admission\<close> and \<^verbatim>\<open>Handshake\<close>: \<^verbatim>\<open>api/session\<close>. \<^verbatim>\<open>Jobs\<close>: \<^verbatim>\<open>node/jobs.go\<close>. \<^verbatim>\<open>Reconcile\<close>: \<^verbatim>\<open>node/reconcile.go\<close>.
    \<^verbatim>\<open>Interleaving\<close> is the node running: admissions and the passes of the jobs as the steps of a transition
    system, cut where the code releases its lock.
  \<^item> \<^verbatim>\<open>Lite\<close>: the chain client \<^verbatim>\<open>lite/\<close>, \<^verbatim>\<open>context/tx.go\<close> and \<^verbatim>\<open>Node.Initialize\<close>. \<^verbatim>\<open>Bandwidth\<close> and \<^verbatim>\<open>GeoIP\<close>: \<^verbatim>\<open>libs/\<close>.
    \<^verbatim>\<open>Config\<close>: \<^verbatim>\<open>types/config.go\<close>. \<^verbatim>\<open>Start\<close>: \<^verbatim>\<open>cmd/start.go\<close>, each stage of the command a step, up to the run and the
    stop after it. \<^verbatim>\<open>Api\<close>: the routes, the middleware and the status documents of \<^verbatim>\<open>api/\<close>, around the handlers.

  Definitions keep the names of the source, with a prefix for the receiver where two methods share a name
  (\<^verbatim>\<open>wg_AddPeer\<close>, \<^verbatim>\<open>hy_AddPeer\<close>); helper definitions are loop bodies and parts of one function.

  \<^bold>\<open>What is shown\<close>

  \<^item> Of the whole node: after a start-up that succeeds, in every interleaving the peers stay within the limit,
    the table has distinct sessions and keys, and every peer served is recorded or was left behind by a
    handshake that failed after adding it; the intervals fit the chain's timeouts (\<^verbatim>\<open>Start\<close>).
  \<^item> Of access: an accepted handshake is signed by the account of an active session on this node; the rate
    limiter's bound; the signed reply is unambiguous; OpenVPN and Hysteria admit exactly registered peers;
    a failure is never explained to a client and its address stays out of the log above debug.
  \<^item> Of the firewall: the verdict of the rules on every packet, and that no jump or proxy process is in place
    before the rules are.
  \<^item> Of addresses: pools hand out each address once and all of them; the two AmneziaWG tiers stay apart.
  \<^item> Of accounting: reports deliver every session, one bad session does not block the others, usage survives
    disconnects, restarts reconcile the table.
  \<^item> Of the chain client: queries are exact as soon as one remote is honest and up; sending a transaction
    returns; grants are judged exactly. Of the host's figures: bandwidth is never overstated, the location
    token goes to its provider only. Of the configuration: what validation guarantees, and that the defaults pass.

  \<^bold>\<open>Loops\<close>

  Loops over lists are structural. The loops that draw random numbers, wait for a transaction and read the
  wire format are \<^verbatim>\<open>partial_function (option)\<close>, with None for not returning; that they return is a theorem,
  from a fair random source, a clock that a sleep advances, and a decoder that consumes what it reads. The one
  bound of the model is the number of tries (\<^verbatim>\<open>mc_tries\<close>) a start-up makes to reach its daemon, a parameter for
  what a deadline allows in the code; no theorem depends on its value.

  \<^bold>\<open>Parameters\<close>

  Code outside the repository is an argument: the chain's SDK, the database library, the VPN daemons and their
  tools, X.509 and signatures, protobuf primitives, the web framework's routing and binding, HTTP transports,
  floating-point arithmetic. The theorems name what they use of it as a hypothesis, and each witness
  gives a concrete instance.

  \<^bold>\<open>What is not modelled\<close>

  The key, configuration and authz commands (\<^verbatim>\<open>cmd/keys.go\<close>, \<^verbatim>\<open>cmd/config.go\<close>, \<^verbatim>\<open>cmd/authz.go\<close>,
  \<^verbatim>\<open>services/common/configcli.go\<close>), log formatting, the TLS server and file helpers (\<^verbatim>\<open>utils/\<close>), the SDK's codec
  registration (\<^verbatim>\<open>lite/encoding.go\<close>), certificate creation, the TOML reader and templates, CORS, and the
  developers' drivers in \<^verbatim>\<open>tools/\<close>: input, output and library calls. Timing is modelled only where the code
  computes with it.
\<close>

end
